(* ===== verification/Keys.thy ===== *)
theory Keys
  imports Prelude
begin

text \<open>
  The names of the shared-store keys (\<open>control_plane/redis_keys.py\<close>), one definition per
  function or constant of the module. The lemmas show that the families never clash: within a
  task, across tasks, and with the global keys, as long as task identifiers hold no colon
  (\<open>task_\<close> and eight hex digits, as the command line interface makes them) and node digests
  are 64 characters without a colon (a SHA-256 hex digest).
\<close>

section \<open>Global keys\<close>

definition STREAM_DISPATCH :: string where [key_defs]: "STREAM_DISPATCH = ''omega:stream:dispatch''"
definition STREAM_RESULTS :: string where [key_defs]: "STREAM_RESULTS = ''omega:stream:results''"
definition STREAM_ACCEPTED :: string where [key_defs]: "STREAM_ACCEPTED = ''omega:stream:accepted''"
definition TREE_INDEX :: string where [key_defs]: "TREE_INDEX = ''omega:trees''"
definition RECENT_RUNS :: string where [key_defs]: "RECENT_RUNS = ''omega:recent_runs''"
definition STATS_TOTAL_EVALS :: string where [key_defs]: "STATS_TOTAL_EVALS = ''omega:stats:total_evals''"
definition STATS_INFLIGHT :: string where [key_defs]: "STATS_INFLIGHT = ''omega:stats:inflight''"
definition STATS_EVAL_TIMES :: string where [key_defs]: "STATS_EVAL_TIMES = ''omega:stats:eval_times''"
definition WORKER_HEARTBEATS :: string where [key_defs]: "WORKER_HEARTBEATS = ''omega:workers''"

section \<open>Keys of a task and of a node\<close>

definition root_node_id :: "string \<Rightarrow> string" where
  [key_defs]: "root_node_id task_id = ''omega:tree:'' @ task_id @ '':root''"

definition tree_node_id :: "string \<Rightarrow> string \<Rightarrow> string" where
  [key_defs]: "tree_node_id task_id digest = ''omega:tree:'' @ task_id @ '':'' @ digest"

definition node_children_key :: "string \<Rightarrow> string" where
  [key_defs]: "node_children_key node_id = node_id @ '':children''"

definition node_lock_key :: "string \<Rightarrow> string" where
  [key_defs]: "node_lock_key node_id = ''omega:lock:'' @ node_id"

definition tree_done_key :: "string \<Rightarrow> string" where
  [key_defs]: "tree_done_key task_id = ''omega:tree:'' @ task_id @ '':done''"

definition tree_accepted_key :: "string \<Rightarrow> string" where
  [key_defs]: "tree_accepted_key task_id = ''omega:tree:'' @ task_id @ '':accepted''"

definition task_budget_key :: "string \<Rightarrow> string" where
  [key_defs]: "task_budget_key task_id = ''omega:tree:'' @ task_id @ '':generated_capsules''"

definition tree_budget_exhausted_key :: "string \<Rightarrow> string" where
  [key_defs]: "tree_budget_exhausted_key task_id = ''omega:tree:'' @ task_id @ '':budget_exhausted''"

section \<open>The key families are disjoint\<close>

definition plain :: "string \<Rightarrow> bool" where
  "plain s \<longleftrightarrow> CHR '':'' \<notin> set s"

definition is_digest :: "string \<Rightarrow> bool" where
  "is_digest d \<longleftrightarrow> length d = 64 \<and> plain d"

text \<open>Every key the control plane makes for a task and one of its non-root nodes.\<close>

definition task_keys :: "string \<Rightarrow> string \<Rightarrow> string list" where
  "task_keys t d =
     [root_node_id t, tree_node_id t d, node_children_key (root_node_id t),
      node_children_key (tree_node_id t d), node_lock_key (root_node_id t),
      node_lock_key (tree_node_id t d), tree_done_key t, tree_accepted_key t,
      task_budget_key t, tree_budget_exhausted_key t]"

definition global_keys :: "string list" where
  "global_keys = [STREAM_DISPATCH, STREAM_RESULTS, STREAM_ACCEPTED, TREE_INDEX, RECENT_RUNS,
     STATS_TOTAL_EVALS, STATS_INFLIGHT, STATS_EVAL_TIMES, WORKER_HEARTBEATS]"

lemma tree_key_inject:
  assumes "plain t" and "plain t'" and "''omega:tree:'' @ t @ CHR '':'' # x = ''omega:tree:'' @ t' @ CHR '':'' # x'"
  shows "t = t' \<and> x = x'"
proof -
  from assms(3) have "t @ CHR '':'' # x = t' @ CHR '':'' # x'" by simp
  then show ?thesis
    using assms(1,2) unfolding plain_def by (rule append_sep_inject_first)
qed

lemma lock_key_inject: "node_lock_key n = node_lock_key n' \<longleftrightarrow> n = n'"
  by (simp add: key_defs)

lemma children_key_inject [simp]: "node_children_key n = node_children_key n' \<longleftrightarrow> n = n'"
  by (simp add: key_defs)

lemma tree_node_id_inject:
  "plain t \<Longrightarrow> plain t' \<Longrightarrow> tree_node_id t d = tree_node_id t' d' \<longleftrightarrow> t = t' \<and> d = d'"
  using tree_key_inject [of t t' d d'] by (auto simp: key_defs)

lemma digest_length: "is_digest d \<Longrightarrow> length d = 64"
  by (simp add: is_digest_def)

lemma digest_neq: "is_digest d \<Longrightarrow> length s \<noteq> 64 \<Longrightarrow> d \<noteq> s"
  by (auto simp: is_digest_def)

lemma digest_children_neq:
  "is_digest d \<Longrightarrow> length s < 64 \<Longrightarrow> d @ x \<noteq> s"
proof
  assume "is_digest d" "length s < 64" "d @ x = s"
  then have "length d + length x < 64" by auto
  then show False using \<open>is_digest d\<close> by (simp add: is_digest_def)
qed

lemma task_keys_distinct:
  assumes "is_digest d"
  shows "distinct (task_keys t d)"
proof -
  have "d \<noteq> s" "s \<noteq> d" if "length s < 64" for s
    using assms that by (auto simp: is_digest_def)
  moreover have "d @ x \<noteq> s" "s \<noteq> d @ x" if "length s < 64" for s x
    using digest_children_neq [OF assms that] by auto
  ultimately show ?thesis
    by (simp add: task_keys_def key_defs)
qed

text \<open>
  Every key of a task is one of two prefixes, the task and a colon, so keys of distinct tasks
  differ.
\<close>

lemma task_keys_prefix:
  "k \<in> set (task_keys t d) \<Longrightarrow>
    \<exists>x. k = ''omega:tree:'' @ t @ CHR '':'' # x \<or> k = ''omega:lock:omega:tree:'' @ t @ CHR '':'' # x"
  by (auto simp: task_keys_def key_defs)

lemma task_keys_disjoint:
  assumes "plain t" and "plain t'" and "t \<noteq> t'"
  shows "set (task_keys t d) \<inter> set (task_keys t' d') = {}"
proof -
  have "False" if k: "k \<in> set (task_keys t d)" "k \<in> set (task_keys t' d')" for k
    using task_keys_prefix [OF k(1)] task_keys_prefix [OF k(2)] assms
      append_sep_inject_first [of t "CHR '':''" _ t']
    by (auto simp: plain_def)
  then show ?thesis by blast
qed

lemma task_keys_not_global: "set (task_keys t d) \<inter> set global_keys = {}"
  by (auto simp: task_keys_def global_keys_def key_defs)

text \<open>
  The names of the shared-store keys never clash: the ten keys of a task and one of its nodes
  are distinct from each other, from the nine global keys, and from the keys of any other task,
  and two nodes of a task with distinct digests have distinct keys.
\<close>

theorem keys_never_clash:
  assumes "plain t" and "plain t'" and "is_digest d" and "is_digest d'"
  shows "distinct (task_keys t d)
    \<and> set (task_keys t d) \<inter> set global_keys = {}
    \<and> (t \<noteq> t' \<longrightarrow> set (task_keys t d) \<inter> set (task_keys t' d') = {})
    \<and> (d \<noteq> d' \<longrightarrow> tree_node_id t d \<noteq> tree_node_id t d')"
  using assms task_keys_distinct task_keys_not_global task_keys_disjoint tree_node_id_inject
  by blast

theorem keys_never_clash_witness:
  "distinct (task_keys ''task_0a1b2c3d'' (replicate 64 CHR ''a''))
   \<and> tree_node_id ''task_0a1b2c3d'' (replicate 64 CHR ''a'')
       \<noteq> tree_node_id ''task_0a1b2c3d'' (replicate 64 CHR ''b'')
   \<and> set (task_keys ''task_0a1b2c3d'' (replicate 64 CHR ''a''))
       \<inter> set (task_keys ''task_ffffffff'' (replicate 64 CHR ''b'')) = {}"
proof -
  have p: "plain ''task_0a1b2c3d''" "plain ''task_ffffffff''"
    "is_digest (replicate 64 CHR ''a'')" "is_digest (replicate 64 CHR ''b'')"
    by (auto simp: plain_def is_digest_def)
  have ab: "replicate 64 CHR ''a'' \<noteq> replicate 64 CHR ''b''"
    by (simp add: replicate_eq_replicate)
  show ?thesis
    using keys_never_clash [OF p] ab by simp
qed

end
