(* ===== verification/Tables.thy ===== *)
theory Tables
  imports Prelude
begin

text \<open>
  Tables with a primary key, as association lists from keys to rows in insertion order, and the
  two statements the metadata store issues on them: \<open>UPDATE ... WHERE key = k\<close> and
  \<open>INSERT ... ON CONFLICT (key) DO UPDATE\<close>. The lemmas reduce every read after a statement to
  a read before it.
\<close>

type_synonym ('k, 'r) sql_table = "('k \<times> 'r) list"

definition tbl_update :: "'k \<Rightarrow> ('r \<Rightarrow> 'r) \<Rightarrow> ('k, 'r) sql_table \<Rightarrow> ('k, 'r) sql_table" where
  "tbl_update k f t = map (\<lambda>(k', r). (k', if k' = k then f r else r)) t"

definition tbl_upsert :: "'k \<Rightarrow> 'r \<Rightarrow> ('r \<Rightarrow> 'r) \<Rightarrow> ('k, 'r) sql_table \<Rightarrow> ('k, 'r) sql_table" where
  "tbl_upsert k new f t = (if k \<in> set (dict_keys t) then tbl_update k f t else t @ [(k, new)])"

lemma dict_keys_tbl_update [simp]: "dict_keys (tbl_update k f t) = dict_keys t"
  by (induction t) (auto simp: tbl_update_def)

lemma fst_image_tbl_update [simp]: "fst ` set (tbl_update k f t) = fst ` set t"
  by (metis dict_keys_tbl_update set_map)

lemma map_of_tbl_update: "map_of (tbl_update k f t) = (map_of t)(k := map_option f (map_of t k))"
  by (induction t) (auto simp: tbl_update_def fun_eq_iff)

lemma map_of_tbl_update_apply [simp]:
  "map_of (tbl_update k f t) k' = (if k' = k then map_option f (map_of t k) else map_of t k')"
  by (simp add: map_of_tbl_update)

lemma fst_image_tbl_upsert [simp]: "fst ` set (tbl_upsert k new f t) = insert k (fst ` set t)"
  by (auto simp: tbl_upsert_def)

lemma distinct_tbl_upsert [simp]:
  "distinct (dict_keys (tbl_upsert k new f t)) = distinct (dict_keys t)"
  by (simp add: tbl_upsert_def)

lemma map_of_append_None [simp]: "k \<notin> fst ` set t \<Longrightarrow> map_of (t @ [(k, r)]) k = Some r"
  by (induction t) auto

lemma map_of_tbl_upsert_apply [simp]:
  "map_of (tbl_upsert k new f t) k'
    = (if k' = k then Some (case map_of t k of None \<Rightarrow> new | Some r \<Rightarrow> f r) else map_of t k')"
proof (cases "k \<in> fst ` set t")
  case True
  then obtain r where "map_of t k = Some r"
    by (metis map_of_eq_None_iff not_None_eq)
  with True show ?thesis
    by (simp add: tbl_upsert_def)
next
  case False
  then have "map_of t k = None"
    by (simp add: map_of_eq_None_iff)
  with False show ?thesis
    by (simp add: tbl_upsert_def map_add_Some_iff map_add_def split: option.split)
qed

section \<open>Predicates on the rows\<close>

definition tbl_all :: "('k \<Rightarrow> 'r \<Rightarrow> bool) \<Rightarrow> ('k, 'r) sql_table \<Rightarrow> bool" where
  "tbl_all P t \<longleftrightarrow> (\<forall>(k, r) \<in> set t. P k r)"

lemma tbl_all_update:
  "tbl_all P t \<Longrightarrow> (\<And>r. P k r \<Longrightarrow> P k (f r)) \<Longrightarrow> tbl_all P (tbl_update k f t)"
  by (fastforce simp: tbl_all_def tbl_update_def)

lemma tbl_all_upsert:
  "tbl_all P t \<Longrightarrow> (\<And>r. P k r \<Longrightarrow> P k (f r)) \<Longrightarrow> (map_of t k = None \<Longrightarrow> P k new)
    \<Longrightarrow> tbl_all P (tbl_upsert k new f t)"
  using tbl_all_update [of P t k f] by (auto simp: tbl_upsert_def tbl_all_def map_of_eq_None_iff)

lemma tbl_all_mono: "tbl_all P t \<Longrightarrow> (\<And>k r. P k r \<Longrightarrow> Q k r) \<Longrightarrow> tbl_all Q t"
  by (auto simp: tbl_all_def)

end
