(* ===== verification/Json.thy ===== *)
theory Json
  imports Prelude "HOL-Library.Monad_Syntax"
begin

text \<open>
  JSON values as \<open>json.dumps\<close> and \<open>json.loads\<close> exchange them, the sorting that
  \<open>sort_keys=True\<close> performs at every level, and the keyword-argument call \<open>cls(**value)\<close>
  by which the dataclasses are rebuilt. The text that \<open>dumps\<close> prints is kept as the value it
  denotes; \<open>JsonText\<close> has the printer and the reader that justify it. A text field that holds a number or a JSON document is kept as that number or
  document (\<open>rtext\<close>), so that \<open>int(str(n))\<close> and \<open>loads(dumps(v))\<close> need no printer.
\<close>

section \<open>Values\<close>

datatype json =
    JNull
  | JBool bool
  | JInt int
  | JFloat real
  | JStr string
  | JArr "json list"
  | JObj "(string \<times> json) list"

text \<open>\<open>json.dumps(v, sort_keys=True)\<close> orders the keys of every object.\<close>

fun js_sort :: "json \<Rightarrow> json" where
  "js_sort (JArr xs) = JArr (map js_sort xs)"
| "js_sort (JObj d) = JObj (sort_key fst (map (\<lambda>(k, v). (k, js_sort v)) d))"
| "js_sort j = j"

lemma js_sort_idem [simp]: "js_sort (js_sort j) = js_sort j"
proof (induction j rule: js_sort.induct)
  case (1 xs)
  then show ?case by simp
next
  case (2 d)
  let ?F = "\<lambda>(k, v). (k, js_sort v)"
  have "map ?F (map ?F (sort_key fst d)) = map ?F (sort_key fst d)"
    using 2 by auto
  then show ?case
    by (simp only: js_sort.simps sort_key_map_fst sort_key_idem)
qed auto

text \<open>The fields of an object, sorted: what \<open>dumps\<close> makes of a nested dictionary.\<close>

definition sort_fields :: "(string \<times> json) list \<Rightarrow> (string \<times> json) list" where
  "sort_fields d = sort_key fst (map (\<lambda>(k, v). (k, js_sort v)) d)"

lemma js_sort_JObj: "js_sort (JObj d) = JObj (sort_fields d)"
  by (simp add: sort_fields_def)

lemma sort_fields_idem [simp]: "sort_fields (sort_fields d) = sort_fields d"
  using js_sort_idem [of "JObj d"] by (simp only: js_sort_JObj json.inject)

section \<open>Reading a value at a type\<close>

fun js_str :: "json \<Rightarrow> string option" where
  "js_str (JStr s) = Some s"
| "js_str _ = None"

fun js_int :: "json \<Rightarrow> int option" where
  "js_int (JInt n) = Some n"
| "js_int _ = None"

fun js_bool :: "json \<Rightarrow> bool option" where
  "js_bool (JBool b) = Some b"
| "js_bool _ = None"

fun js_real :: "json \<Rightarrow> real option" where
  "js_real (JFloat x) = Some x"
| "js_real (JInt n) = Some (of_int n)"
| "js_real _ = None"

fun js_obj :: "json \<Rightarrow> (string \<times> json) list option" where
  "js_obj (JObj d) = Some d"
| "js_obj _ = None"

fun js_nullable :: "(json \<Rightarrow> 'a option) \<Rightarrow> json \<Rightarrow> 'a option option" where
  "js_nullable f JNull = Some None"
| "js_nullable f j = map_option Some (f j)"

fun read_all :: "('a \<Rightarrow> 'b option) \<Rightarrow> 'a list \<Rightarrow> 'b list option" where
  "read_all f [] = Some []"
| "read_all f (x # xs) = do { y \<leftarrow> f x; ys \<leftarrow> read_all f xs; Some (y # ys) }"

fun js_list :: "(json \<Rightarrow> 'a option) \<Rightarrow> json \<Rightarrow> 'a list option" where
  "js_list f (JArr xs) = read_all f xs"
| "js_list f _ = None"

fun js_dict :: "(json \<Rightarrow> 'a option) \<Rightarrow> json \<Rightarrow> (string \<times> 'a) list option" where
  "js_dict f (JObj d) = read_all (\<lambda>(k, v). map_option (Pair k) (f v)) d"
| "js_dict f _ = None"

lemma read_all_map [simp]: "(\<And>x. f (g x) = Some (h x)) \<Longrightarrow> read_all f (map g xs) = Some (map h xs)"
  by (induction xs) auto

lemma js_nullable_str [simp]:
  "js_nullable js_str (case s of None \<Rightarrow> JNull | Some t \<Rightarrow> JStr t) = Some s"
  by (cases s) auto

lemma js_nullable_int [simp]:
  "js_nullable js_int (case n of None \<Rightarrow> JNull | Some t \<Rightarrow> JInt t) = Some n"
  by (cases n) auto

section \<open>Keyword arguments of a dataclass\<close>

text \<open>
  \<open>cls(**value)\<close> raises unless the value is an object whose keys are fields of the class and
  cover the fields without a default. The class does not check the annotated types; the
  readers below refuse a value of another JSON type, where Python would carry it on and fail
  at its first use.
\<close>

fun kwargs :: "string list \<Rightarrow> string list \<Rightarrow> json \<Rightarrow> (string \<rightharpoonup> json) option" where
  "kwargs required optional (JObj d) =
     (if set (dict_keys d) \<subseteq> set required \<union> set optional \<and> set required \<subseteq> set (dict_keys d)
      then Some (map_of d) else None)"
| "kwargs required optional _ = None"

definition arg :: "(json \<Rightarrow> 'a option) \<Rightarrow> (string \<rightharpoonup> json) \<Rightarrow> string \<Rightarrow> 'a option" where
  "arg f m k = Option.bind (m k) f"

definition arg_or :: "(json \<Rightarrow> 'a option) \<Rightarrow> 'a \<Rightarrow> (string \<rightharpoonup> json) \<Rightarrow> string \<Rightarrow> 'a option" where
  "arg_or f dflt m k = (case m k of None \<Rightarrow> Some dflt | Some j \<Rightarrow> f j)"

lemma kwargs_sorted:
  assumes "distinct (dict_keys d)"
  shows "kwargs req opt (JObj (sort_fields d))
    = (if set (dict_keys d) \<subseteq> set req \<union> set opt \<and> set req \<subseteq> set (dict_keys d)
       then Some (map_of (map (\<lambda>(k, v). (k, js_sort v)) d)) else None)"
proof -
  let ?e = "map (\<lambda>(k, v). (k, js_sort v)) d"
  have keys: "dict_keys ?e = dict_keys d"
    by (induction d) auto
  have "map_of (sort_key fst ?e) = map_of ?e"
    by (rule map_of_sort_key_fst) (simp only: keys assms)
  moreover have "set (dict_keys (sort_key fst ?e)) = set (dict_keys d)"
    by (simp only: dict_keys_sort_key keys)
  ultimately show ?thesis
    by (simp only: sort_fields_def kwargs.simps)
qed

section \<open>The interface of a serialisable class\<close>

text \<open>
  What the streams rely on: decoding an encoded object gives the object back, up to the order
  of the entries of its dictionaries (\<open>canon\<close>), and that order does not change the encoding.
\<close>

locale json_contract =
  fixes to_json :: "'a \<Rightarrow> json"
    and from_json :: "json \<Rightarrow> 'a option"
    and canon :: "'a \<Rightarrow> 'a"
  assumes decode: "from_json (to_json x) = Some (canon x)"
    and to_json_canon: "to_json (canon x) = to_json x"
begin

lemma canon_idem: "canon (canon x) = canon x"
  using decode [of "canon x"] by (simp add: to_json_canon decode)

lemma to_json_eq_iff: "to_json x = to_json y \<longleftrightarrow> canon x = canon y"
  by (metis decode option.inject to_json_canon)

lemma relay: "from_json (to_json x) = Some y \<Longrightarrow> to_json y = to_json x \<and> canon y = y"
  by (simp add: canon_idem decode to_json_canon) (metis canon_idem to_json_canon)

end

section \<open>The text of a stored field\<close>

text \<open>
  A field of a shared hash is a text. \<open>Num\<close>, \<open>Flt\<close> and \<open>Doc\<close> are the texts that \<open>str\<close> of an
  integer, \<open>repr\<close> of a float and \<open>json.dumps\<close> of a value write; every other text is \<open>Txt\<close>.
\<close>

datatype rtext = Txt string | Num int | Flt real | Doc json

text \<open>\<open>int(text)\<close>, \<open>float(text)\<close> and \<open>json.loads(text)\<close>; None is the exception they raise.\<close>

fun text_int :: "rtext \<Rightarrow> int option" where
  "text_int (Num n) = Some n"
| "text_int _ = None"

fun text_float :: "rtext \<Rightarrow> real option" where
  "text_float (Num n) = Some (of_int n)"
| "text_float (Flt x) = Some x"
| "text_float _ = None"

fun text_json :: "rtext \<Rightarrow> json option" where
  "text_json (Doc j) = Some j"
| "text_json (Num n) = Some (JInt n)"
| "text_json (Flt x) = Some (JFloat x)"
| "text_json (Txt s) = None"

end
