(* ===== verification/Contracts.thy ===== *)
theory Contracts
  imports Json "HOL-Library.Multiset"
begin

text \<open>
  The dataclasses that travel through the streams and sockets
  (\<open>control_plane/contracts.py\<close>): \<open>TaskCapsule\<close>, \<open>VerificationPack\<close> and
  \<open>ExecutionRequest\<close> as records, their \<open>asdict\<close>, \<open>to_json\<close> and \<open>from_json\<close>, and the proof that
  each honours the serialisation contract of \<open>Json\<close>.
\<close>

section \<open>TaskCapsule\<close>

record task_capsule =
  tc_id :: string
  tc_tree_id :: string
  tc_source_path :: string
  tc_test_path :: string
  tc_code :: string
  tc_test_code :: string
  tc_run_id :: string
  tc_source_relpath :: string
  tc_test_relpath :: string
  tc_repo_snapshot :: "(string \<times> string) list"
  tc_repo_snapshot_digest :: string
  tc_repo_snapshot_bytes :: int
  tc_repo_snapshot_files :: int

definition capsule_asdict :: "task_capsule \<Rightarrow> (string \<times> json) list" where
  "capsule_asdict c =
     [(''id'', JStr (tc_id c)),
      (''tree_id'', JStr (tc_tree_id c)),
      (''source_path'', JStr (tc_source_path c)),
      (''test_path'', JStr (tc_test_path c)),
      (''code'', JStr (tc_code c)),
      (''test_code'', JStr (tc_test_code c)),
      (''run_id'', JStr (tc_run_id c)),
      (''source_relpath'', JStr (tc_source_relpath c)),
      (''test_relpath'', JStr (tc_test_relpath c)),
      (''repo_snapshot'', JObj (map (\<lambda>(k, v). (k, JStr v)) (tc_repo_snapshot c))),
      (''repo_snapshot_digest'', JStr (tc_repo_snapshot_digest c)),
      (''repo_snapshot_bytes'', JInt (tc_repo_snapshot_bytes c)),
      (''repo_snapshot_files'', JInt (tc_repo_snapshot_files c))]"

definition capsule_to_json :: "task_capsule \<Rightarrow> json" where
  "capsule_to_json c = js_sort (JObj (capsule_asdict c))"

definition capsule_from_json :: "json \<Rightarrow> task_capsule option" where
  "capsule_from_json value = do {
     m \<leftarrow> kwargs [''id'', ''tree_id'', ''source_path'', ''test_path'', ''code'', ''test_code'']
            [''run_id'', ''source_relpath'', ''test_relpath'', ''repo_snapshot'',
             ''repo_snapshot_digest'', ''repo_snapshot_bytes'', ''repo_snapshot_files''] value;
     id' \<leftarrow> arg js_str m ''id'';
     tree_id \<leftarrow> arg js_str m ''tree_id'';
     source_path \<leftarrow> arg js_str m ''source_path'';
     test_path \<leftarrow> arg js_str m ''test_path'';
     code \<leftarrow> arg js_str m ''code'';
     test_code \<leftarrow> arg js_str m ''test_code'';
     run_id \<leftarrow> arg_or js_str '''' m ''run_id'';
     source_relpath \<leftarrow> arg_or js_str '''' m ''source_relpath'';
     test_relpath \<leftarrow> arg_or js_str '''' m ''test_relpath'';
     repo_snapshot \<leftarrow> arg_or (js_dict js_str) [] m ''repo_snapshot'';
     digest \<leftarrow> arg_or js_str '''' m ''repo_snapshot_digest'';
     bytes \<leftarrow> arg_or js_int 0 m ''repo_snapshot_bytes'';
     files \<leftarrow> arg_or js_int 0 m ''repo_snapshot_files'';
     Some \<lparr>tc_id = id', tc_tree_id = tree_id, tc_source_path = source_path,
       tc_test_path = test_path, tc_code = code, tc_test_code = test_code, tc_run_id = run_id,
       tc_source_relpath = source_relpath, tc_test_relpath = test_relpath,
       tc_repo_snapshot = repo_snapshot, tc_repo_snapshot_digest = digest,
       tc_repo_snapshot_bytes = bytes, tc_repo_snapshot_files = files\<rparr> }"

definition capsule_canon :: "task_capsule \<Rightarrow> task_capsule" where
  "capsule_canon c = c\<lparr>tc_repo_snapshot := sort_key fst (tc_repo_snapshot c)\<rparr>"

lemma sort_fields_strings:
  "sort_fields (map (\<lambda>(k, v). (k, JStr v)) d) = map (\<lambda>(k, v). (k, JStr v)) (sort_key fst d)"
proof -
  have "map (\<lambda>(k, v). (k, js_sort v)) (map (\<lambda>(k, v). (k, JStr v)) d) = map (\<lambda>(k, v). (k, JStr v)) d"
    by (induction d) auto
  then show ?thesis
    by (simp only: sort_fields_def sort_key_map_fst)
qed

lemma read_all_strings [simp]:
  "read_all (\<lambda>(k, v). map_option (Pair k) (js_str v)) (map (\<lambda>(k, v). (k, JStr v)) d) = Some d"
  by (induction d) auto

lemma capsule_dict_distinct: "distinct (dict_keys (capsule_asdict c))"
  by (simp add: capsule_asdict_def)

lemma capsule_decode: "capsule_from_json (capsule_to_json c) = Some (capsule_canon c)"
  unfolding capsule_from_json_def capsule_to_json_def js_sort_JObj
    kwargs_sorted [OF capsule_dict_distinct]
  by (simp add: capsule_asdict_def arg_def arg_or_def capsule_canon_def js_sort_JObj
      sort_fields_strings del: js_sort.simps(2))

lemma capsule_encode_canon: "capsule_to_json (capsule_canon c) = capsule_to_json c"
  by (simp add: capsule_to_json_def capsule_asdict_def capsule_canon_def js_sort_JObj
      sort_fields_def [where d = "_ # _"] sort_fields_strings del: js_sort.simps(2))

interpretation capsule: json_contract capsule_to_json capsule_from_json capsule_canon
  by unfold_locales (simp_all only: capsule_decode capsule_encode_canon)

section \<open>VerificationPack\<close>

record verification_pack =
  vp_capsule_id :: string
  vp_run_id :: string
  vp_success :: bool
  vp_runtime :: real
  vp_node_id :: string
  vp_hardware_isolated :: bool
  vp_inputs_digest :: string
  vp_tests_passed :: int
  vp_tests_failed :: int
  vp_error_signature :: "string option"
  vp_attestation :: "string option"
  vp_artifact_uri :: "string option"
  vp_meta :: "(string \<times> json) list"

definition js_of_opt_str :: "string option \<Rightarrow> json" where
  "js_of_opt_str s = (case s of None \<Rightarrow> JNull | Some t \<Rightarrow> JStr t)"

definition pack_asdict :: "verification_pack \<Rightarrow> (string \<times> json) list" where
  "pack_asdict p =
     [(''capsule_id'', JStr (vp_capsule_id p)),
      (''run_id'', JStr (vp_run_id p)),
      (''success'', JBool (vp_success p)),
      (''runtime'', JFloat (vp_runtime p)),
      (''node_id'', JStr (vp_node_id p)),
      (''hardware_isolated'', JBool (vp_hardware_isolated p)),
      (''inputs_digest'', JStr (vp_inputs_digest p)),
      (''tests_passed'', JInt (vp_tests_passed p)),
      (''tests_failed'', JInt (vp_tests_failed p)),
      (''error_signature'', js_of_opt_str (vp_error_signature p)),
      (''attestation'', js_of_opt_str (vp_attestation p)),
      (''artifact_uri'', js_of_opt_str (vp_artifact_uri p)),
      (''meta'', JObj (vp_meta p))]"

definition pack_to_json :: "verification_pack \<Rightarrow> json" where
  "pack_to_json p = js_sort (JObj (pack_asdict p))"

definition pack_from_json :: "json \<Rightarrow> verification_pack option" where
  "pack_from_json value = do {
     m \<leftarrow> kwargs [''capsule_id'', ''run_id'', ''success'', ''runtime'', ''node_id'',
             ''hardware_isolated'', ''inputs_digest'', ''tests_passed'', ''tests_failed'']
            [''error_signature'', ''attestation'', ''artifact_uri'', ''meta''] value;
     capsule_id \<leftarrow> arg js_str m ''capsule_id'';
     run_id \<leftarrow> arg js_str m ''run_id'';
     success \<leftarrow> arg js_bool m ''success'';
     runtime \<leftarrow> arg js_real m ''runtime'';
     node_id \<leftarrow> arg js_str m ''node_id'';
     hardware_isolated \<leftarrow> arg js_bool m ''hardware_isolated'';
     inputs_digest \<leftarrow> arg js_str m ''inputs_digest'';
     tests_passed \<leftarrow> arg js_int m ''tests_passed'';
     tests_failed \<leftarrow> arg js_int m ''tests_failed'';
     error_signature \<leftarrow> arg_or (js_nullable js_str) None m ''error_signature'';
     attestation \<leftarrow> arg_or (js_nullable js_str) None m ''attestation'';
     artifact_uri \<leftarrow> arg_or (js_nullable js_str) None m ''artifact_uri'';
     meta \<leftarrow> arg_or js_obj [] m ''meta'';
     Some \<lparr>vp_capsule_id = capsule_id, vp_run_id = run_id, vp_success = success,
       vp_runtime = runtime, vp_node_id = node_id, vp_hardware_isolated = hardware_isolated,
       vp_inputs_digest = inputs_digest, vp_tests_passed = tests_passed,
       vp_tests_failed = tests_failed, vp_error_signature = error_signature,
       vp_attestation = attestation, vp_artifact_uri = artifact_uri, vp_meta = meta\<rparr> }"

definition pack_canon :: "verification_pack \<Rightarrow> verification_pack" where
  "pack_canon p = p\<lparr>vp_meta := sort_fields (vp_meta p)\<rparr>"

lemma js_sort_opt_str [simp]: "js_sort (js_of_opt_str s) = js_of_opt_str s"
  by (simp add: js_of_opt_str_def split: option.split)

lemma js_nullable_opt_str [simp]: "js_nullable js_str (js_of_opt_str s) = Some s"
  by (simp add: js_of_opt_str_def)

lemma pack_dict_distinct: "distinct (dict_keys (pack_asdict p))"
  by (simp add: pack_asdict_def)

lemma pack_decode: "pack_from_json (pack_to_json p) = Some (pack_canon p)"
  unfolding pack_from_json_def pack_to_json_def js_sort_JObj
    kwargs_sorted [OF pack_dict_distinct]
  by (simp add: pack_asdict_def arg_def arg_or_def pack_canon_def js_sort_JObj
      del: js_sort.simps(2))

lemma pack_encode_canon: "pack_to_json (pack_canon p) = pack_to_json p"
  by (simp add: pack_to_json_def pack_asdict_def pack_canon_def js_sort_JObj
      sort_fields_def [where d = "_ # _"] del: js_sort.simps(2))

interpretation pack: json_contract pack_to_json pack_from_json pack_canon
  by unfold_locales (simp_all only: pack_decode pack_encode_canon)

section \<open>ExecutionRequest\<close>

record execution_request =
  er_run_id :: string
  er_candidate_id :: string
  er_task_id :: string
  er_executor_core :: int
  er_capsule :: task_capsule
  er_created_at :: real
  er_preferred_executor_core :: "int option"

definition js_of_opt_int :: "int option \<Rightarrow> json" where
  "js_of_opt_int n = (case n of None \<Rightarrow> JNull | Some t \<Rightarrow> JInt t)"

text \<open>\<open>asdict\<close> turns the nested capsule into its own dictionary.\<close>

definition request_asdict :: "execution_request \<Rightarrow> (string \<times> json) list" where
  "request_asdict r =
     [(''run_id'', JStr (er_run_id r)),
      (''candidate_id'', JStr (er_candidate_id r)),
      (''task_id'', JStr (er_task_id r)),
      (''executor_core'', JInt (er_executor_core r)),
      (''capsule'', JObj (capsule_asdict (er_capsule r))),
      (''created_at'', JFloat (er_created_at r)),
      (''preferred_executor_core'', js_of_opt_int (er_preferred_executor_core r))]"

definition request_to_json :: "execution_request \<Rightarrow> json" where
  "request_to_json r = js_sort (JObj (request_asdict r))"

definition request_from_json :: "json \<Rightarrow> execution_request option" where
  "request_from_json value = do {
     m \<leftarrow> kwargs [''run_id'', ''candidate_id'', ''task_id'', ''executor_core'', ''capsule'', ''created_at'']
            [''preferred_executor_core''] value;
     capsule \<leftarrow> arg capsule_from_json m ''capsule'';
     run_id \<leftarrow> arg js_str m ''run_id'';
     candidate_id \<leftarrow> arg js_str m ''candidate_id'';
     task_id \<leftarrow> arg js_str m ''task_id'';
     executor_core \<leftarrow> arg js_int m ''executor_core'';
     created_at \<leftarrow> arg js_real m ''created_at'';
     preferred \<leftarrow> arg_or (js_nullable js_int) None m ''preferred_executor_core'';
     Some \<lparr>er_run_id = run_id, er_candidate_id = candidate_id, er_task_id = task_id,
       er_executor_core = executor_core, er_capsule = capsule, er_created_at = created_at,
       er_preferred_executor_core = preferred\<rparr> }"

definition request_canon :: "execution_request \<Rightarrow> execution_request" where
  "request_canon r = r\<lparr>er_capsule := capsule_canon (er_capsule r)\<rparr>"

lemma js_sort_opt_int [simp]: "js_sort (js_of_opt_int n) = js_of_opt_int n"
  by (simp add: js_of_opt_int_def split: option.split)

lemma js_nullable_opt_int [simp]: "js_nullable js_int (js_of_opt_int n) = Some n"
  by (simp add: js_of_opt_int_def)

lemma request_dict_distinct: "distinct (dict_keys (request_asdict r))"
  by (simp add: request_asdict_def)

lemma request_decode: "request_from_json (request_to_json r) = Some (request_canon r)"
  unfolding request_from_json_def request_to_json_def js_sort_JObj
    kwargs_sorted [OF request_dict_distinct]
  by (simp add: request_asdict_def arg_def arg_or_def request_canon_def capsule_decode
      del: js_sort.simps(2) flip: capsule_to_json_def)

lemma request_encode_canon: "request_to_json (request_canon r) = request_to_json r"
  using capsule_encode_canon [of "er_capsule r"]
  by (simp add: request_to_json_def request_asdict_def request_canon_def js_sort_JObj
      sort_fields_def [where d = "_ # _"] capsule_to_json_def del: js_sort.simps(2))

interpretation request: json_contract request_to_json request_from_json request_canon
  by unfold_locales (simp_all only: request_decode request_encode_canon)

text \<open>
  The messages survive the wire: an execution request, with its capsule, and a verification
  pack decode from their encoding to themselves, up to the order of the entries of the repository
  snapshot and of the metadata, and encoding what was decoded gives the same document again, so
  any number of hops delivers the same message.
\<close>

theorem messages_survive_the_wire:
  "request_from_json (request_to_json r) = Some (request_canon r)
   \<and> pack_from_json (pack_to_json p) = Some (pack_canon p)
   \<and> capsule_from_json (capsule_to_json c) = Some (capsule_canon c)
   \<and> request_to_json (request_canon r) = request_to_json r
   \<and> pack_to_json (pack_canon p) = pack_to_json p
   \<and> mset (tc_repo_snapshot (capsule_canon c)) = mset (tc_repo_snapshot c)"
  by (simp add: request.decode request.to_json_canon pack.decode pack.to_json_canon
      capsule.decode capsule_canon_def)

end
