(* ===== verification/MetadataStore.thy ===== *)
theory MetadataStore
  imports Tables Contracts
begin

text \<open>
  The durable ledger of tasks, candidates, executions and policy decisions
  (\<open>control_plane/metadata_store.py\<close>). Each table of the schema is a table of records keyed by
  its primary key; each method is the statement it executes: which columns an upsert keeps, the
  foreign keys it is checked against, and, for the two status updates, the guard read before the
  write. A clock reading stands for \<open>NOW()\<close>. A \<open>jsonb\<close> object is a map from keys to values, on
  which \<open>||\<close> is the right-biased union.
\<close>

section \<open>The schema\<close>

type_synonym jsonb = "string \<rightharpoonup> json"

record task_row =
  tr_repo_path :: string
  tr_source_path :: string
  tr_test_path :: string
  tr_repo_revision :: string
  tr_objective :: string
  tr_trigger :: string
  tr_profile :: string
  tr_status :: string
  tr_created_at :: real
  tr_metadata :: jsonb

record candidate_row =
  cr_task_id :: string
  cr_parent_id :: "string option"
  cr_patch_kind :: string
  cr_status :: string
  cr_source_relpath :: string
  cr_files_touched :: "string list"
  cr_diff_summary :: string
  cr_static_score :: real
  cr_rank_score :: "real option"
  cr_created_at :: real
  cr_metadata :: jsonb

record execution_row =
  xr_candidate_id :: string
  xr_task_id :: string
  xr_status :: string
  xr_executor_core :: "int option"
  xr_executor_host :: "string option"
  xr_executor_port :: "int option"
  xr_executor_id :: "string option"
  xr_hardware_isolated :: "bool option"
  xr_started_at :: "real option"
  xr_finished_at :: "real option"
  xr_success :: "bool option"
  xr_runtime :: "real option"
  xr_tests_passed :: "int option"
  xr_tests_failed :: "int option"
  xr_artifact_uri :: "string option"
  xr_error_signature :: "string option"
  xr_meta :: jsonb

record policy_row =
  pr_accepted :: bool
  pr_confidence :: real
  pr_risk_score :: real
  pr_reasons :: "string list"
  pr_requires_human_review :: bool
  pr_created_at :: real

record metadata_db =
  db_tasks :: "(string, task_row) sql_table"
  db_candidates :: "(string, candidate_row) sql_table"
  db_executions :: "(string, execution_row) sql_table"
  db_policy_decisions :: "(string, policy_row) sql_table"

record execution_queued =
  eq_run_id :: string
  eq_candidate_id :: string
  eq_task_id :: string
  eq_executor_core :: int
  eq_executor_host :: string
  eq_executor_port :: int
  eq_meta :: jsonb

datatype db_error = ForeignKeyViolation

definition empty_db :: metadata_db where
  "empty_db = \<lparr>db_tasks = [], db_candidates = [], db_executions = [], db_policy_decisions = []\<rparr>"

definition has_task :: "metadata_db \<Rightarrow> string \<Rightarrow> bool" where
  "has_task db k \<longleftrightarrow> map_of (db_tasks db) k \<noteq> None"

definition has_candidate :: "metadata_db \<Rightarrow> string \<Rightarrow> bool" where
  "has_candidate db k \<longleftrightarrow> map_of (db_candidates db) k \<noteq> None"

definition has_execution :: "metadata_db \<Rightarrow> string \<Rightarrow> bool" where
  "has_execution db k \<longleftrightarrow> map_of (db_executions db) k \<noteq> None"

section \<open>The status guards\<close>

definition can_transition_task_status :: "string option \<Rightarrow> string \<Rightarrow> bool" where
  "can_transition_task_status current new =
     (if \<not> truthy current \<or> current = Some new then True
      else if current = Some ''merged'' then new = ''merged''
      else True)"

definition can_transition_candidate_status :: "string option \<Rightarrow> string \<Rightarrow> bool" where
  "can_transition_candidate_status current new =
     (if \<not> truthy current \<or> current = Some new then True
      else if current = Some ''merged'' then new = ''merged''
      else if current = Some ''accepted'' then new \<in> {''accepted'', ''merged'', ''merge_failed''}
      else if current = Some ''rejected_policy'' then new = ''rejected_policy''
      else if current = Some ''verified'' then
        new \<in> {''verified'', ''accepted'', ''rejected_policy'', ''merged'', ''merge_failed''}
      else if current \<in> {Some ''failed'', Some ''dispatch_failed'', Some ''merge_failed''} then
        Some new = current
      else True)"

section \<open>Tasks\<close>

definition fetch_task_status :: "metadata_db \<Rightarrow> string \<Rightarrow> string option" where
  "fetch_task_status db task_id = map_option tr_status (map_of (db_tasks db) task_id)"

definition record_task :: "string \<Rightarrow> task_row \<Rightarrow> metadata_db \<Rightarrow> metadata_db" where
  [db_defs]: "record_task task_id row db =
     db\<lparr>db_tasks := tbl_upsert task_id row (\<lambda>old. row\<lparr>tr_created_at := tr_created_at old\<rparr>) (db_tasks db)\<rparr>"

definition update_task_status :: "string \<Rightarrow> string \<Rightarrow> metadata_db \<Rightarrow> bool \<times> metadata_db" where
  [db_defs]: "update_task_status task_id status db =
     (if \<not> can_transition_task_status (fetch_task_status db task_id) status then (False, db)
      else (True, db\<lparr>db_tasks := tbl_update task_id (\<lambda>r. r\<lparr>tr_status := status\<rparr>) (db_tasks db)\<rparr>))"

definition merge_task_metadata :: "string \<Rightarrow> jsonb \<Rightarrow> metadata_db \<Rightarrow> metadata_db" where
  [db_defs]: "merge_task_metadata task_id metadata db =
     db\<lparr>db_tasks := tbl_update task_id (\<lambda>r. r\<lparr>tr_metadata := tr_metadata r ++ metadata\<rparr>) (db_tasks db)\<rparr>"

section \<open>Candidates\<close>

definition fetch_candidate_status :: "metadata_db \<Rightarrow> string \<Rightarrow> string option" where
  "fetch_candidate_status db candidate_id = map_option cr_status (map_of (db_candidates db) candidate_id)"

text \<open>
  The foreign key of a candidate is checked when its row is inserted; the update of an existing
  row does not touch the task it belongs to.
\<close>

definition record_candidate :: "string \<Rightarrow> candidate_row \<Rightarrow> metadata_db \<Rightarrow> db_error + metadata_db" where
  [db_defs]: "record_candidate candidate_id row db =
     (if \<not> has_candidate db candidate_id \<and> \<not> has_task db (cr_task_id row)
      then Inl ForeignKeyViolation
      else Inr (db\<lparr>db_candidates :=
        tbl_upsert candidate_id row
          (\<lambda>old. row\<lparr>cr_task_id := cr_task_id old, cr_created_at := cr_created_at old\<rparr>)
          (db_candidates db)\<rparr>))"

text \<open>The \<open>UPDATE\<close> statement of a status update, and the update with its guard.\<close>

definition write_candidate_status :: "string \<Rightarrow> string \<Rightarrow> real option \<Rightarrow> metadata_db \<Rightarrow> metadata_db" where
  [db_defs]: "write_candidate_status candidate_id status rank_score db =
     db\<lparr>db_candidates := tbl_update candidate_id
       (\<lambda>r. case rank_score of
          None \<Rightarrow> r\<lparr>cr_status := status\<rparr>
        | Some score \<Rightarrow> r\<lparr>cr_status := status, cr_rank_score := Some score\<rparr>)
       (db_candidates db)\<rparr>"

definition update_candidate_status ::
  "string \<Rightarrow> string \<Rightarrow> real option \<Rightarrow> metadata_db \<Rightarrow> bool \<times> metadata_db" where
  [db_defs]: "update_candidate_status candidate_id status rank_score db =
     (if \<not> can_transition_candidate_status (fetch_candidate_status db candidate_id) status
      then (False, db)
      else (True, write_candidate_status candidate_id status rank_score db))"

definition merge_candidate_metadata :: "string \<Rightarrow> jsonb \<Rightarrow> metadata_db \<Rightarrow> metadata_db" where
  [db_defs]: "merge_candidate_metadata candidate_id metadata db =
     db\<lparr>db_candidates :=
       tbl_update candidate_id (\<lambda>r. r\<lparr>cr_metadata := cr_metadata r ++ metadata\<rparr>) (db_candidates db)\<rparr>"

section \<open>Executions\<close>

definition record_execution_queued :: "execution_queued \<Rightarrow> metadata_db \<Rightarrow> db_error + metadata_db" where
  [db_defs]: "record_execution_queued queued db =
     (if \<not> has_execution db (eq_run_id queued)
        \<and> \<not> (has_candidate db (eq_candidate_id queued) \<and> has_task db (eq_task_id queued))
      then Inl ForeignKeyViolation
      else Inr (db\<lparr>db_executions :=
        tbl_upsert (eq_run_id queued)
          \<lparr>xr_candidate_id = eq_candidate_id queued, xr_task_id = eq_task_id queued,
           xr_status = ''queued'', xr_executor_core = Some (eq_executor_core queued),
           xr_executor_host = Some (eq_executor_host queued),
           xr_executor_port = Some (eq_executor_port queued), xr_executor_id = None,
           xr_hardware_isolated = None, xr_started_at = None, xr_finished_at = None,
           xr_success = None, xr_runtime = None, xr_tests_passed = None, xr_tests_failed = None,
           xr_artifact_uri = None, xr_error_signature = None, xr_meta = eq_meta queued\<rparr>
          (\<lambda>old. old\<lparr>xr_status := ''queued'', xr_executor_core := Some (eq_executor_core queued),
             xr_executor_host := Some (eq_executor_host queued),
             xr_executor_port := Some (eq_executor_port queued), xr_meta := eq_meta queued\<rparr>)
          (db_executions db)\<rparr>))"

definition merge_execution_meta :: "string \<Rightarrow> jsonb \<Rightarrow> metadata_db \<Rightarrow> metadata_db" where
  [db_defs]: "merge_execution_meta run_id meta db =
     db\<lparr>db_executions := tbl_update run_id (\<lambda>r. r\<lparr>xr_meta := xr_meta r ++ meta\<rparr>) (db_executions db)\<rparr>"

definition coalesce :: "'a option \<Rightarrow> 'a option \<Rightarrow> 'a option" where
  "coalesce x y = (case x of None \<Rightarrow> y | Some v \<Rightarrow> Some v)"

definition mark_execution_started :: "string \<Rightarrow> string option \<Rightarrow> real \<Rightarrow> metadata_db \<Rightarrow> metadata_db" where
  [db_defs]: "mark_execution_started run_id executor_id now db =
     db\<lparr>db_executions := tbl_update run_id
       (\<lambda>r. r\<lparr>xr_status := ''running'', xr_executor_id := coalesce executor_id (xr_executor_id r),
              xr_started_at := coalesce (xr_started_at r) (Some now)\<rparr>)
       (db_executions db)\<rparr>"

definition complete_execution :: "verification_pack \<Rightarrow> real \<Rightarrow> metadata_db \<Rightarrow> metadata_db" where
  [db_defs]: "complete_execution pack now db =
     db\<lparr>db_executions := tbl_update (vp_run_id pack)
       (\<lambda>r. r\<lparr>xr_status := (if vp_success pack \<and> vp_tests_failed pack = 0 then ''succeeded'' else ''failed''),
              xr_executor_id := Some (vp_node_id pack),
              xr_hardware_isolated := Some (vp_hardware_isolated pack),
              xr_finished_at := Some now,
              xr_success := Some (vp_success pack),
              xr_runtime := Some (vp_runtime pack),
              xr_tests_passed := Some (vp_tests_passed pack),
              xr_tests_failed := Some (vp_tests_failed pack),
              xr_artifact_uri := vp_artifact_uri pack,
              xr_error_signature := vp_error_signature pack,
              xr_meta := xr_meta r ++ map_of (vp_meta pack)\<rparr>)
       (db_executions db)\<rparr>"

section \<open>Policy decisions\<close>

definition record_policy_decision :: "string \<Rightarrow> policy_row \<Rightarrow> metadata_db \<Rightarrow> db_error + metadata_db" where
  [db_defs]: "record_policy_decision candidate_id row db =
     (if map_of (db_policy_decisions db) candidate_id = None \<and> \<not> has_candidate db candidate_id
      then Inl ForeignKeyViolation
      else Inr (db\<lparr>db_policy_decisions :=
        tbl_upsert candidate_id row (\<lambda>old. row) (db_policy_decisions db)\<rparr>))"

end
