(* ===== verification/LedgerProps.thy ===== *)
theory LedgerProps
  imports MetadataStore
begin

text \<open>
  What the metadata ledger guarantees whatever sequence of methods the daemons call: the primary
  and foreign keys, and the candidate and task state machines that the guarded updates enforce.
  And what it does not: two guarded updates whose reads precede both writes, and the unguarded
  writes of \<open>record_candidate\<close> and \<open>mark_execution_started\<close>.
\<close>

section \<open>Sequences of method calls\<close>

datatype meta_op =
    RecordTask string task_row
  | UpdateTaskStatus string string
  | MergeTaskMetadata string jsonb
  | RecordCandidate string candidate_row
  | UpdateCandidateStatus string string "real option"
  | MergeCandidateMetadata string jsonb
  | RecordExecutionQueued execution_queued
  | MergeExecutionMeta string jsonb
  | MarkExecutionStarted string "string option" real
  | CompleteExecution verification_pack real
  | RecordPolicyDecision string policy_row

fun meta_step :: "meta_op \<Rightarrow> metadata_db \<Rightarrow> db_error + metadata_db" where
  "meta_step (RecordTask k r) db = Inr (record_task k r db)"
| "meta_step (UpdateTaskStatus k s) db = Inr (snd (update_task_status k s db))"
| "meta_step (MergeTaskMetadata k m) db = Inr (merge_task_metadata k m db)"
| "meta_step (RecordCandidate k r) db = record_candidate k r db"
| "meta_step (UpdateCandidateStatus k s x) db = Inr (snd (update_candidate_status k s x db))"
| "meta_step (MergeCandidateMetadata k m) db = Inr (merge_candidate_metadata k m db)"
| "meta_step (RecordExecutionQueued q) db = record_execution_queued q db"
| "meta_step (MergeExecutionMeta k m) db = Inr (merge_execution_meta k m db)"
| "meta_step (MarkExecutionStarted k e t) db = Inr (mark_execution_started k e t db)"
| "meta_step (CompleteExecution p t) db = Inr (complete_execution p t db)"
| "meta_step (RecordPolicyDecision k r) db = record_policy_decision k r db"

text \<open>A statement that violates a constraint raises and leaves the tables as they were.\<close>

definition meta_exec :: "meta_op \<Rightarrow> metadata_db \<Rightarrow> metadata_db" where
  "meta_exec op db = (case meta_step op db of Inl _ \<Rightarrow> db | Inr db' \<Rightarrow> db')"

definition meta_run :: "meta_op list \<Rightarrow> metadata_db \<Rightarrow> metadata_db" where
  "meta_run ops db = fold meta_exec ops db"

lemma meta_run_Cons [simp]: "meta_run (op # ops) db = meta_run ops (meta_exec op db)"
  and meta_run_Nil [simp]: "meta_run [] db = db"
  by (simp_all add: meta_run_def)

section \<open>Primary and foreign keys\<close>

definition pk_ok :: "metadata_db \<Rightarrow> bool" where
  "pk_ok db \<longleftrightarrow>
     distinct (dict_keys (db_tasks db)) \<and> distinct (dict_keys (db_candidates db))
     \<and> distinct (dict_keys (db_executions db)) \<and> distinct (dict_keys (db_policy_decisions db))"

definition fk_ok :: "metadata_db \<Rightarrow> bool" where
  "fk_ok db \<longleftrightarrow>
     tbl_all (\<lambda>_ r. has_task db (cr_task_id r)) (db_candidates db)
     \<and> tbl_all (\<lambda>_ r. has_candidate db (xr_candidate_id r) \<and> has_task db (xr_task_id r)) (db_executions db)
     \<and> tbl_all (\<lambda>k _. has_candidate db k) (db_policy_decisions db)"

lemmas has_defs = has_task_def has_candidate_def has_execution_def

lemma pk_ok_exec: "pk_ok db \<Longrightarrow> pk_ok (meta_exec op db)"
  by (cases op) (auto simp: pk_ok_def meta_exec_def db_defs)

lemma fk_ok_exec:
  assumes "fk_ok db"
  shows "fk_ok (meta_exec op db)"
proof (cases op)
  case (UpdateCandidateStatus k s x)
  with assms show ?thesis
    by (auto simp: fk_ok_def meta_exec_def db_defs has_defs intro!: tbl_all_update elim!: tbl_all_mono
        split: option.split)
next
  case (RecordCandidate k r)
  with assms show ?thesis
    by (auto simp: fk_ok_def meta_exec_def db_defs has_defs intro!: tbl_all_upsert elim!: tbl_all_mono)
next
  case (RecordPolicyDecision k r)
  with assms show ?thesis
    by (auto simp: fk_ok_def meta_exec_def db_defs has_defs intro!: tbl_all_upsert)
next
  case (RecordExecutionQueued q)
  with assms show ?thesis
    by (auto simp: fk_ok_def meta_exec_def db_defs has_defs intro!: tbl_all_upsert)
qed (use assms in \<open>auto simp: fk_ok_def meta_exec_def db_defs has_defs intro!: tbl_all_update elim!: tbl_all_mono\<close>)

text \<open>
  Referential integrity: from the empty schema, no sequence of ledger calls, failed ones
  included, ever leaves two rows with one primary key, a candidate without its task, an execution
  without its candidate and task, or a policy decision without its candidate.
\<close>

theorem ledger_referential_integrity:
  "pk_ok (meta_run ops empty_db) \<and> fk_ok (meta_run ops empty_db)"
proof -
  have "pk_ok db \<and> fk_ok db \<Longrightarrow> pk_ok (meta_run ops db) \<and> fk_ok (meta_run ops db)" for db
    by (induction ops arbitrary: db) (simp_all add: pk_ok_exec fk_ok_exec)
  moreover have "pk_ok empty_db \<and> fk_ok empty_db"
    by (simp add: pk_ok_def fk_ok_def empty_db_def tbl_all_def)
  ultimately show ?thesis by blast
qed

section \<open>The status machines\<close>

text \<open>
  A guard on status updates, with the statuses each status can still lead to. Every write the
  guard lets through stays within them.
\<close>

locale status_guard =
  fixes can :: "string option \<Rightarrow> string \<Rightarrow> bool"
    and after :: "string \<Rightarrow> string set"
  assumes after_refl: "s \<in> after s"
    and after_closed: "s' \<in> after s \<Longrightarrow> can (Some s') n \<Longrightarrow> n \<in> after s"
begin

lemma after_step: "s' \<in> after s \<Longrightarrow> n = s' \<or> can (Some s') n \<Longrightarrow> n \<in> after s"
  using after_closed by blast

lemma after_writes:
  "s' \<in> after s \<Longrightarrow> foldl (\<lambda>c n. if can (Some c) n then n else c) s' ns \<in> after s"
  by (induction ns arbitrary: s') (auto intro: after_closed)

lemma final_stays:
  "after s = {s} \<Longrightarrow> foldl (\<lambda>c n. if can (Some c) n then n else c) s ns = s"
  using after_writes [of s s ns] by (simp add: after_refl)

end

definition candidate_after :: "string \<Rightarrow> string set" where
  "candidate_after s =
     (if s \<in> {''merged'', ''rejected_policy'', ''failed'', ''dispatch_failed'', ''merge_failed''} then {s}
      else if s = ''accepted'' then {''accepted'', ''merged'', ''merge_failed''}
      else if s = ''verified'' then {''verified'', ''accepted'', ''rejected_policy'', ''merged'', ''merge_failed''}
      else UNIV)"

definition task_after :: "string \<Rightarrow> string set" where
  "task_after s = (if s = ''merged'' then {''merged''} else UNIV)"

interpretation candidate_guard: status_guard can_transition_candidate_status candidate_after
  by unfold_locales
    (auto simp: candidate_after_def can_transition_candidate_status_def split: if_splits)

interpretation task_guard: status_guard can_transition_task_status task_after
  by unfold_locales (auto simp: task_after_def can_transition_task_status_def split: if_splits)

lemma fetch_write_candidate_status [simp]:
  "fetch_candidate_status (write_candidate_status c s x db) c'
    = (if c' = c then map_option (\<lambda>_. s) (fetch_candidate_status db c) else fetch_candidate_status db c')"
  by (auto simp: fetch_candidate_status_def write_candidate_status_def option.map_comp
      intro!: arg_cong2 [where f = map_option] split: option.split)

lemma candidate_status_step:
  assumes "fetch_candidate_status db c = Some s" and "\<forall>r. op \<noteq> RecordCandidate c r"
  shows "\<exists>s'. fetch_candidate_status (meta_exec op db) c = Some s'
    \<and> (s' = s \<or> can_transition_candidate_status (Some s) s')"
proof (cases op)
  case (UpdateCandidateStatus k n x)
  with assms show ?thesis
    by (auto simp: meta_exec_def update_candidate_status_def)
next
  case (RecordCandidate k r)
  with assms show ?thesis
    by (auto simp: meta_exec_def record_candidate_def fetch_candidate_status_def)
next
  case (RecordExecutionQueued q)
  with assms show ?thesis
    by (auto simp: meta_exec_def record_execution_queued_def fetch_candidate_status_def)
next
  case (RecordPolicyDecision k r)
  with assms show ?thesis
    by (auto simp: meta_exec_def record_policy_decision_def fetch_candidate_status_def)
next
  case (MergeCandidateMetadata k m)
  with assms show ?thesis
    by (auto simp: meta_exec_def merge_candidate_metadata_def fetch_candidate_status_def)
qed (use assms in \<open>auto simp: meta_exec_def db_defs fetch_candidate_status_def\<close>)

text \<open>
  C4. The candidate state machine: once a candidate has a status, no sequence of ledger calls other
  than recording that candidate anew takes it outside the statuses that status leads to: merged,
  rejected and failed candidates keep their status for ever, an accepted candidate can only become
  merged or fail to merge, and a verified one never returns to generated, queued, running or
  failed.
\<close>

theorem candidate_status_never_regresses:
  assumes "fetch_candidate_status db c = Some s"
    and "\<forall>r. RecordCandidate c r \<notin> set ops"
  shows "\<exists>s'. fetch_candidate_status (meta_run ops db) c = Some s' \<and> s' \<in> candidate_after s"
proof -
  have "\<exists>s'. fetch_candidate_status (meta_run ops db) c = Some s' \<and> s' \<in> candidate_after s"
    if "fetch_candidate_status db c = Some t" "t \<in> candidate_after s" for t
    using that assms(2)
  proof (induction ops arbitrary: db t)
    case Nil
    then show ?case by simp
  next
    case (Cons op ops)
    then obtain u where u: "fetch_candidate_status (meta_exec op db) c = Some u"
        "u = t \<or> can_transition_candidate_status (Some t) u"
      using candidate_status_step [of db c t op] by auto
    then have "u \<in> candidate_after s"
      using candidate_guard.after_step Cons.prems(2) by blast
    with Cons u(1) show ?case by simp
  qed
  then show ?thesis
    using assms(1) candidate_guard.after_refl by blast
qed

definition sample_candidate_row :: "string \<Rightarrow> candidate_row" where
  "sample_candidate_row status = \<lparr>cr_task_id = ''t'', cr_parent_id = None, cr_patch_kind = ''comparison_swap'',
     cr_status = status, cr_source_relpath = '''', cr_files_touched = [], cr_diff_summary = '''',
     cr_static_score = 1, cr_rank_score = None, cr_created_at = 0, cr_metadata = Map.empty\<rparr>"

definition sample_db :: "string \<Rightarrow> metadata_db" where
  "sample_db status = empty_db\<lparr>db_candidates := [(''c'', sample_candidate_row status)]\<rparr>"

theorem candidate_status_never_regresses_witness:
  "\<exists>s'. fetch_candidate_status (meta_run [UpdateCandidateStatus ''c'' ''verified'' None,
        UpdateCandidateStatus ''c'' ''merged'' None] (sample_db ''accepted'')) ''c'' = Some s'
     \<and> s' \<in> {''accepted'', ''merged'', ''merge_failed''}"
proof -
  have "fetch_candidate_status (sample_db ''accepted'') ''c'' = Some ''accepted''"
    by (simp add: sample_db_def sample_candidate_row_def fetch_candidate_status_def)
  from candidate_status_never_regresses [OF this, of "[UpdateCandidateStatus ''c'' ''verified'' None,
        UpdateCandidateStatus ''c'' ''merged'' None]"]
  show ?thesis by (simp add: candidate_after_def)
qed

section \<open>Updates whose reads precede both writes\<close>

text \<open>
  The guard of an update is read in one statement and the write is another, each committed on its
  own. A client that has passed its guard writes whatever happened in between.
\<close>

datatype status_client = Wants string | Passed string | Finished

inductive status_step ::
  "string \<Rightarrow> metadata_db \<times> (nat \<Rightarrow> status_client) \<Rightarrow> metadata_db \<times> (nat \<Rightarrow> status_client) \<Rightarrow> bool"
  for c where
  pass: "cs i = Wants n \<Longrightarrow> can_transition_candidate_status (fetch_candidate_status db c) n \<Longrightarrow>
    status_step c (db, cs) (db, cs(i := Passed n))"
| refuse: "cs i = Wants n \<Longrightarrow> \<not> can_transition_candidate_status (fetch_candidate_status db c) n \<Longrightarrow>
    status_step c (db, cs) (db, cs(i := Finished))"
| commit: "cs i = Passed n \<Longrightarrow>
    status_step c (db, cs) (write_candidate_status c n None db, cs(i := Finished))"

text \<open>A client whose two statements are not separated performs the guarded update.\<close>

lemma update_is_two_steps:
  assumes "cs i = Wants n"
  shows "(status_step c)\<^sup>*\<^sup>* (db, cs) (snd (update_candidate_status c n None db), cs(i := Finished))"
proof (cases "can_transition_candidate_status (fetch_candidate_status db c) n")
  case True
  have "status_step c (db, cs) (db, cs(i := Passed n))"
    using assms True by (rule status_step.pass)
  moreover have "status_step c (db, cs(i := Passed n))
      (write_candidate_status c n None db, (cs(i := Passed n))(i := Finished))"
    by (rule status_step.commit) simp
  ultimately show ?thesis
    using True by (simp add: update_candidate_status_def)
next
  case False
  have "status_step c (db, cs) (db, cs(i := Finished))"
    using assms False by (rule status_step.refuse)
  then show ?thesis
    using False by (simp add: update_candidate_status_def)
qed

text \<open>
  The guard does not protect concurrent updates: from a running candidate that the policy gate
  wants to accept and the global memory wants to mark verified, both serial orders end in
  \<open>accepted\<close>, but the interleaving in which both guards are read before either write goes through
  \<open>accepted\<close> and ends in \<open>verified\<close>, a transition the guard forbids.
\<close>

theorem status_guard_is_not_atomic:
  assumes "fetch_candidate_status db c = Some ''running''"
    and "cs i = Wants ''accepted''" and "cs j = Wants ''verified''" and "i \<noteq> j"
  shows "fetch_candidate_status
        (meta_run [UpdateCandidateStatus c ''accepted'' None, UpdateCandidateStatus c ''verified'' None] db) c
        = Some ''accepted''
    \<and> fetch_candidate_status
        (meta_run [UpdateCandidateStatus c ''verified'' None, UpdateCandidateStatus c ''accepted'' None] db) c
        = Some ''accepted''
    \<and> (\<exists>mid fin. (status_step c)\<^sup>*\<^sup>* (db, cs) mid \<and> (status_step c)\<^sup>*\<^sup>* mid fin
        \<and> fetch_candidate_status (fst mid) c = Some ''accepted''
        \<and> fetch_candidate_status (fst fin) c = Some ''verified''
        \<and> \<not> can_transition_candidate_status (Some ''accepted'') ''verified'')"
proof (intro conjI)
  show "fetch_candidate_status (meta_run [UpdateCandidateStatus c ''accepted'' None,
      UpdateCandidateStatus c ''verified'' None] db) c = Some ''accepted''"
    using assms(1) by (simp add: meta_exec_def update_candidate_status_def can_transition_candidate_status_def)
  show "fetch_candidate_status (meta_run [UpdateCandidateStatus c ''verified'' None,
      UpdateCandidateStatus c ''accepted'' None] db) c = Some ''accepted''"
    using assms(1) by (simp add: meta_exec_def update_candidate_status_def can_transition_candidate_status_def)
  let ?cs1 = "cs(i := Passed ''accepted'')"
  let ?cs2 = "?cs1(j := Passed ''verified'')"
  let ?db1 = "write_candidate_status c ''accepted'' None db"
  let ?db2 = "write_candidate_status c ''verified'' None ?db1"
  have 1: "status_step c (db, cs) (db, ?cs1)"
    using assms by (intro status_step.pass) (simp_all add: can_transition_candidate_status_def)
  have 2: "status_step c (db, ?cs1) (db, ?cs2)"
    using assms by (intro status_step.pass) (simp_all add: can_transition_candidate_status_def)
  have 3: "status_step c (db, ?cs2) (?db1, ?cs2(i := Finished))"
    using assms(4) by (intro status_step.commit) simp
  have 4: "status_step c (?db1, ?cs2(i := Finished)) (?db2, ?cs2(i := Finished, j := Finished))"
    using assms(4) by (intro status_step.commit) simp
  have "(status_step c)\<^sup>*\<^sup>* (db, cs) (?db1, ?cs2(i := Finished))"
    using 1 2 3 by (meson converse_rtranclp_into_rtranclp rtranclp.rtrancl_refl)
  moreover have "(status_step c)\<^sup>*\<^sup>* (?db1, ?cs2(i := Finished)) (?db2, ?cs2(i := Finished, j := Finished))"
    using 4 by (rule r_into_rtranclp)
  ultimately show "\<exists>mid fin. (status_step c)\<^sup>*\<^sup>* (db, cs) mid \<and> (status_step c)\<^sup>*\<^sup>* mid fin
        \<and> fetch_candidate_status (fst mid) c = Some ''accepted''
        \<and> fetch_candidate_status (fst fin) c = Some ''verified''
        \<and> \<not> can_transition_candidate_status (Some ''accepted'') ''verified''"
    using assms(1)
    by (intro exI [of _ "(?db1, ?cs2(i := Finished))"]
        exI [of _ "(?db2, ?cs2(i := Finished, j := Finished))"])
      (simp add: can_transition_candidate_status_def)
qed

theorem status_guard_is_not_atomic_witness:
  "\<exists>mid fin. (status_step ''c'')\<^sup>*\<^sup>*
      (sample_db ''running'', (\<lambda>_. Finished)(0 := Wants ''accepted'', 1 := Wants ''verified'')) mid
     \<and> (status_step ''c'')\<^sup>*\<^sup>* mid fin
     \<and> fetch_candidate_status (fst mid) ''c'' = Some ''accepted''
     \<and> fetch_candidate_status (fst fin) ''c'' = Some ''verified''"
proof -
  have "fetch_candidate_status (sample_db ''running'') ''c'' = Some ''running''"
    by (simp add: sample_db_def sample_candidate_row_def fetch_candidate_status_def)
  from status_guard_is_not_atomic [OF this,
      of "(\<lambda>_. Finished)(0 := Wants ''accepted'', 1 := Wants ''verified'')" 0 1]
  show ?thesis by simp blast
qed

section \<open>Unguarded writes\<close>

text \<open>
  The execution ledger depends on the order of unguarded writes: whichever of the dispatcher's
  start mark and the completion comes last decides the status. The dispatcher marks an execution
  started after it has handed the capsule over, so an execution that finishes first is left
  \<open>running\<close> for ever, although its finish time and its result are recorded.
\<close>

theorem late_start_mark_reopens_execution:
  assumes "map_of (db_executions db) (vp_run_id p) = Some r"
  shows "\<exists>r1 r2.
      map_of (db_executions (meta_run [MarkExecutionStarted (vp_run_id p) None t, CompleteExecution p t'] db))
        (vp_run_id p) = Some r1
    \<and> xr_status r1 = (if vp_success p \<and> vp_tests_failed p = 0 then ''succeeded'' else ''failed'')
    \<and> map_of (db_executions (meta_run [CompleteExecution p t', MarkExecutionStarted (vp_run_id p) None t] db))
        (vp_run_id p) = Some r2
    \<and> xr_status r2 = ''running'' \<and> xr_finished_at r2 = Some t' \<and> xr_success r2 = Some (vp_success p)
    \<and> xr_started_at r1 = xr_started_at r2 \<and> xr_executor_id r1 = xr_executor_id r2"
  using assms by (simp add: meta_exec_def db_defs coalesce_def split: option.split)

theorem late_start_mark_reopens_execution_witness:
  "\<exists>(db :: metadata_db) (r :: execution_row). map_of (db_executions db) ''run'' = Some r \<and> xr_status r = ''running''
     \<and> xr_finished_at r = Some 2 \<and> xr_success r = Some True"
proof -
  define p where "p = \<lparr>vp_capsule_id = ''c'', vp_run_id = ''run'', vp_success = True, vp_runtime = 1,
    vp_node_id = ''sim-core-0'', vp_hardware_isolated = False, vp_inputs_digest = ''d'',
    vp_tests_passed = 3, vp_tests_failed = 0, vp_error_signature = None, vp_attestation = None,
    vp_artifact_uri = None, vp_meta = []\<rparr>"
  define q where "q = \<lparr>xr_candidate_id = ''c'', xr_task_id = ''t'', xr_status = ''queued'',
    xr_executor_core = None, xr_executor_host = None, xr_executor_port = None, xr_executor_id = None,
    xr_hardware_isolated = None, xr_started_at = None, xr_finished_at = None, xr_success = None,
    xr_runtime = None, xr_tests_passed = None, xr_tests_failed = None, xr_artifact_uri = None,
    xr_error_signature = None, xr_meta = Map.empty\<rparr>"
  have "map_of (db_executions (empty_db\<lparr>db_executions := [(''run'', q)]\<rparr>)) (vp_run_id p) = Some q"
    by (simp add: p_def)
  from late_start_mark_reopens_execution [OF this, of 1 2]
  have "\<exists>r. map_of (db_executions (meta_run [CompleteExecution p 2, MarkExecutionStarted (vp_run_id p) None 1]
      (empty_db\<lparr>db_executions := [(''run'', q)]\<rparr>))) (vp_run_id p) = Some r
    \<and> xr_status r = ''running'' \<and> xr_finished_at r = Some 2 \<and> xr_success r = Some (vp_success p)"
    by blast
  moreover have "vp_run_id p = ''run''" "vp_success p"
    by (simp_all add: p_def)
  ultimately show ?thesis by auto
qed

text \<open>
  Recording a candidate again is not guarded either: it gives an existing candidate the status
  of the new row, even a merged, rejected or failed one, while it keeps its task and its creation
  time.
\<close>

theorem rerecording_reopens_candidate:
  assumes "map_of (db_candidates db) c = Some old"
  shows "\<exists>db' r'. record_candidate c row db = Inr db' \<and> map_of (db_candidates db') c = Some r'
    \<and> cr_status r' = cr_status row \<and> cr_task_id r' = cr_task_id old
    \<and> cr_created_at r' = cr_created_at old \<and> cr_rank_score r' = cr_rank_score row"
proof -
  have "has_candidate db c"
    using assms by (simp add: has_candidate_def)
  with assms show ?thesis
    by (simp add: record_candidate_def)
qed

theorem rerecording_reopens_candidate_witness:
  "\<exists>db'. record_candidate ''c'' (sample_candidate_row ''generated'') (sample_db ''merged'') = Inr db'
     \<and> fetch_candidate_status (sample_db ''merged'') ''c'' = Some ''merged''
     \<and> fetch_candidate_status db' ''c'' = Some ''generated''"
proof -
  have m: "map_of (db_candidates (sample_db ''merged'')) ''c'' = Some (sample_candidate_row ''merged'')"
    by (simp add: sample_db_def)
  from rerecording_reopens_candidate [OF m, of "sample_candidate_row ''generated''"] m show ?thesis
    by (auto simp: fetch_candidate_status_def sample_candidate_row_def)
qed

end
