(* ===== verification/FaultLocalization.thy ===== *)
theory FaultLocalization
  imports Prelude
begin

text \<open>
  Spectrum-based fault localisation (\<open>control_plane/fault_localization.py\<close>): the Ochiai score
  of a line, the ranking of the lines a failing test executed, and the top \<open>k\<close> of it. Test
  counts are natural numbers; the coverage matrix is a dictionary in insertion order from line
  numbers to dictionaries of counts, since ties are ranked in that order.
\<close>

type_synonym coverage_matrix = "(int \<times> (string \<times> nat) list) list"

record fault_localizer =
  total_failed :: nat
  total_passed :: nat

definition calculate_ochiai :: "fault_localizer \<Rightarrow> nat \<Rightarrow> nat \<Rightarrow> real" where
  "calculate_ochiai fl failed_executions passed_executions =
     (if total_failed fl = 0 \<or> failed_executions + passed_executions = 0 then 0
      else
        let denominator = sqrt (real (total_failed fl * (failed_executions + passed_executions)))
        in if denominator > 0 then real failed_executions / denominator else 0)"

definition rank_suspicious_lines :: "fault_localizer \<Rightarrow> coverage_matrix \<Rightarrow> (int \<times> real) list" where
  "rank_suspicious_lines fl matrix =
     sort_desc snd
       (map (\<lambda>(line, stats).
               (line, calculate_ochiai fl (dict_get stats ''failed'' 0) (dict_get stats ''passed'' 0)))
         (filter (\<lambda>(line, stats). dict_get stats ''failed'' 0 \<noteq> 0) matrix))"

definition get_top_k_lines :: "fault_localizer \<Rightarrow> coverage_matrix \<Rightarrow> int \<Rightarrow> int list" where
  "get_top_k_lines fl matrix k = map fst (py_take k (rank_suspicious_lines fl matrix))"

section \<open>The score\<close>

lemma ochiai_denominator_pos:
  "total_failed fl > 0 \<Longrightarrow> f + p > 0 \<Longrightarrow> 0 < sqrt (real (total_failed fl * (f + p)))"
  by (simp only: real_sqrt_gt_0_iff of_nat_0_less_iff nat_0_less_mult_iff)

lemma ochiai_eq:
  assumes "total_failed fl > 0" and "f + p > 0"
  shows "calculate_ochiai fl f p = real f / sqrt (real (total_failed fl * (f + p)))"
  using assms ochiai_denominator_pos [OF assms]
  by (simp add: calculate_ochiai_def Let_def del: of_nat_mult of_nat_add)

lemma ochiai_square:
  assumes "total_failed fl > 0" and "f + p > 0"
  shows "(calculate_ochiai fl f p)\<^sup>2 * real (total_failed fl * (f + p)) = (real f)\<^sup>2"
  using assms by (simp add: ochiai_eq power_divide del: of_nat_mult of_nat_add)

lemma ochiai_nonneg: "0 \<le> calculate_ochiai fl f p"
  by (simp add: calculate_ochiai_def Let_def)

lemma square_le_total: "f \<le> t \<Longrightarrow> f\<^sup>2 \<le> t * (f + p)" for f t p :: nat
  by (simp add: power2_eq_square mult_le_mono)

lemma ochiai_le_1:
  assumes "f \<le> total_failed fl"
  shows "calculate_ochiai fl f p \<le> 1"
proof (cases "total_failed fl = 0 \<or> f + p = 0")
  case True
  then show ?thesis by (auto simp: calculate_ochiai_def)
next
  case False
  have "real (f\<^sup>2) \<le> real (total_failed fl * (f + p))"
    using square_le_total [OF assms, of p] by (simp only: of_nat_le_iff)
  then have "real f \<le> sqrt (real (total_failed fl * (f + p)))"
    by (intro real_le_rsqrt) simp
  with False ochiai_denominator_pos [of fl f p] show ?thesis
    by (simp add: ochiai_eq divide_le_eq_1_pos del: of_nat_mult of_nat_add)
qed

lemma ochiai_eq_1_iff:
  assumes "f \<le> total_failed fl" and "0 < f"
  shows "calculate_ochiai fl f p = 1 \<longleftrightarrow> f = total_failed fl \<and> p = 0"
proof
  assume one: "calculate_ochiai fl f p = 1"
  have "real (total_failed fl * (f + p)) = real (f\<^sup>2)"
    using ochiai_square [of fl f p] assms one by simp
  then have eq: "total_failed fl * (f + p) = f * f"
    by (simp only: of_nat_eq_iff power2_eq_square)
  show "f = total_failed fl \<and> p = 0"
  proof (rule ccontr)
    assume "\<not> (f = total_failed fl \<and> p = 0)"
    then have "f * f < total_failed fl * (f + p)"
      using assms by (cases "f = total_failed fl") (auto intro: mult_less_le_imp_less)
    with eq show False by simp
  qed
next
  assume "f = total_failed fl \<and> p = 0"
  with assms show "calculate_ochiai fl f p = 1"
    by (simp add: ochiai_eq)
qed

text \<open>
  The Ochiai score is a similarity: for a line that failing tests executed no more often than
  there are failing tests, it lies between 0 and 1, is 0 exactly when no failing test executed the
  line, and is 1 exactly when every failing test and no passing test did.
\<close>

theorem ochiai_is_a_similarity:
  assumes "f \<le> total_failed fl"
  shows "0 \<le> calculate_ochiai fl f p \<and> calculate_ochiai fl f p \<le> 1
    \<and> (calculate_ochiai fl f p = 0 \<longleftrightarrow> f = 0)
    \<and> (0 < f \<longrightarrow> (calculate_ochiai fl f p = 1 \<longleftrightarrow> f = total_failed fl \<and> p = 0))"
  using assms ochiai_nonneg ochiai_le_1 ochiai_eq_1_iff
  by (auto simp: calculate_ochiai_def Let_def)

theorem ochiai_is_a_similarity_witness:
  "calculate_ochiai \<lparr>total_failed = 2, total_passed = 5\<rparr> 2 0 = 1
   \<and> calculate_ochiai \<lparr>total_failed = 2, total_passed = 5\<rparr> 1 3 < 1"
proof -
  let ?fl = "\<lparr>total_failed = 2, total_passed = 5\<rparr>"
  have "calculate_ochiai ?fl 2 0 = 1"
    using ochiai_is_a_similarity [of 2 ?fl 0] by simp
  moreover have "calculate_ochiai ?fl 1 3 \<le> 1 \<and> calculate_ochiai ?fl 1 3 \<noteq> 1"
    using ochiai_is_a_similarity [of 1 ?fl 3] by simp
  ultimately show ?thesis by (simp add: order_less_le)
qed

section \<open>The ranking\<close>

abbreviation line_failed :: "coverage_matrix \<Rightarrow> int \<Rightarrow> nat" where
  "line_failed matrix line \<equiv> dict_get (dict_get matrix line []) ''failed'' 0"

abbreviation line_passed :: "coverage_matrix \<Rightarrow> int \<Rightarrow> nat" where
  "line_passed matrix line \<equiv> dict_get (dict_get matrix line []) ''passed'' 0"

definition line_score :: "fault_localizer \<Rightarrow> coverage_matrix \<Rightarrow> int \<Rightarrow> real" where
  "line_score fl matrix line = calculate_ochiai fl (line_failed matrix line) (line_passed matrix line)"

lemma dict_get_member: "distinct (dict_keys d) \<Longrightarrow> (k, v) \<in> set d \<Longrightarrow> dict_get d k x = v"
  by (simp add: dict_get_def)

lemma set_rank_suspicious_lines:
  assumes "distinct (dict_keys matrix)"
  shows "set (rank_suspicious_lines fl matrix)
    = {(line, line_score fl matrix line) | line. line_failed matrix line \<noteq> 0}" (is "?L = ?R")
proof
  show "?L \<subseteq> ?R"
    using assms by (auto simp: rank_suspicious_lines_def line_score_def dict_get_member)
  show "?R \<subseteq> ?L"
  proof
    fix x assume "x \<in> ?R"
    then obtain line where x: "x = (line, line_score fl matrix line)" "line_failed matrix line \<noteq> 0"
      by blast
    from x(2) have "map_of matrix line \<noteq> None"
      by (cases "map_of matrix line") (auto simp: dict_get_def)
    then obtain stats where m: "(line, stats) \<in> set matrix"
      by (auto dest: map_of_SomeD)
    then have "dict_get matrix line [] = stats"
      using assms by (simp add: dict_get_member)
    with x m show "x \<in> ?L"
      by (auto simp: rank_suspicious_lines_def line_score_def image_iff intro!: bexI [of _ "(line, stats)"])
  qed
qed

lemma rank_lines_distinct:
  assumes "distinct (dict_keys matrix)"
  shows "distinct (map fst (rank_suspicious_lines fl matrix))"
proof -
  let ?g = "\<lambda>(line, stats).
    (line, calculate_ochiai fl (dict_get stats ''failed'' 0) (dict_get stats ''passed'' 0))"
  let ?xs = "map ?g (filter (\<lambda>(line, stats). dict_get stats ''failed'' 0 \<noteq> 0) matrix)"
  have "map fst ?xs = map fst (filter (\<lambda>(line, stats). dict_get stats ''failed'' 0 \<noteq> 0) matrix)"
    by auto
  then have "distinct (map fst ?xs)"
    by (simp only: distinct_map_filter [OF assms])
  then show ?thesis
    by (simp only: rank_suspicious_lines_def distinct_map_sort_desc)
qed

lemma rank_sorted: "sorted_wrt (\<lambda>x y. snd y \<le> snd x) (rank_suspicious_lines fl matrix)"
  unfolding rank_suspicious_lines_def by (rule sorted_sort_desc)

lemma sorted_wrt_take_drop:
  assumes "sorted_wrt R xs" and "x \<in> set (take n xs)" and "y \<in> set (drop n xs)"
  shows "R x y"
  using assms sorted_wrt_append [of R "take n xs" "drop n xs"] by simp

text \<open>
  The top \<open>k\<close> lines are the most suspicious ones: no line is reported twice, every reported
  line was executed by a failing test, there are \<open>k\<close> of them unless fewer lines were, and no
  unreported line that a failing test executed scores higher than a reported one.
\<close>

theorem top_k_lines_are_the_most_suspicious:
  assumes "distinct (dict_keys matrix)" and "0 \<le> k"
  shows "distinct (get_top_k_lines fl matrix k)
    \<and> (\<forall>l \<in> set (get_top_k_lines fl matrix k). line_failed matrix l \<noteq> 0)
    \<and> length (get_top_k_lines fl matrix k)
        = min (nat k) (length (rank_suspicious_lines fl matrix))
    \<and> (\<forall>l l'. l \<in> set (get_top_k_lines fl matrix k) \<longrightarrow> l' \<notin> set (get_top_k_lines fl matrix k)
        \<longrightarrow> line_failed matrix l' \<noteq> 0 \<longrightarrow> line_score fl matrix l' \<le> line_score fl matrix l)"
proof (intro conjI allI impI ballI)
  let ?r = "rank_suspicious_lines fl matrix"
  have top: "get_top_k_lines fl matrix k = map fst (take (nat k) ?r)"
    using assms(2) by (simp add: get_top_k_lines_def)
  show "distinct (get_top_k_lines fl matrix k)"
    using rank_lines_distinct [OF assms(1), of fl] by (simp add: top take_map [symmetric])
  show "length (get_top_k_lines fl matrix k) = min (nat k) (length ?r)"
    by (simp add: top min.commute)
  fix l assume l: "l \<in> set (get_top_k_lines fl matrix k)"
  then obtain s where s: "(l, s) \<in> set (take (nat k) ?r)"
    by (auto simp: top)
  then have "(l, s) \<in> set ?r" by (rule in_set_takeD)
  then have ls: "s = line_score fl matrix l" "line_failed matrix l \<noteq> 0"
    using set_rank_suspicious_lines [OF assms(1), of fl] by auto
  then show "line_failed matrix l \<noteq> 0" by simp
  fix l' assume l': "l' \<notin> set (get_top_k_lines fl matrix k)" and "line_failed matrix l' \<noteq> 0"
  then have "(l', line_score fl matrix l') \<in> set ?r"
    using set_rank_suspicious_lines [OF assms(1), of fl] by auto
  moreover have "(l', line_score fl matrix l') \<notin> set (take (nat k) ?r)"
    using l' by (force simp: top)
  ultimately have "(l', line_score fl matrix l') \<in> set (drop (nat k) ?r)"
    by (metis Un_iff append_take_drop_id set_append)
  with rank_sorted s have "snd (l', line_score fl matrix l') \<le> snd (l, s)"
    by (rule sorted_wrt_take_drop)
  with ls show "line_score fl matrix l' \<le> line_score fl matrix l" by simp
qed

theorem top_k_lines_are_the_most_suspicious_witness:
  "\<exists>fl matrix. distinct (dict_keys matrix) \<and> length (get_top_k_lines fl matrix 1) = 1
     \<and> set (get_top_k_lines fl matrix 1) \<subseteq> {4, 6}"
proof -
  let ?fl = "\<lparr>total_failed = 2, total_passed = 5\<rparr>"
  let ?m = "[(4, [(''failed'', 2), (''passed'', 0)]), (6, [(''failed'', 1), (''passed'', 3)]),
    (9, [(''failed'', 0), (''passed'', 5)])] :: coverage_matrix"
  have d: "distinct (dict_keys ?m)" by simp
  note top = top_k_lines_are_the_most_suspicious [OF d zero_le_one, of ?fl]
  have "length (rank_suspicious_lines ?fl ?m) = 2"
    by (simp add: rank_suspicious_lines_def dict_get_def)
  with top have "length (get_top_k_lines ?fl ?m 1) = 1" by simp
  moreover have "set (get_top_k_lines ?fl ?m 1) \<subseteq> {4, 6}"
  proof
    fix l assume "l \<in> set (get_top_k_lines ?fl ?m 1)"
    with top [THEN conjunct2, THEN conjunct1] have "line_failed ?m l \<noteq> 0" by blast
    then show "l \<in> {4, 6}" by (auto simp: dict_get_def split: if_splits)
  qed
  ultimately show ?thesis using d by blast
qed

end
