(* ===== verification/Planning.thy ===== *)
theory Planning
  imports FaultLocalization Json
begin

text \<open>
  Task planning (\<open>control_plane/planning.py\<close>): the plan of a repair task, the expansion plan it
  gives at a depth of the search tree and a number of already generated candidates, and the
  planner that derives the plan from the coverage matrix. Budgets are the record of
  \<open>control_plane/settings.py\<close>. All numbers are Python integers; the exploration constants are
  the decimal fractions of the source.
\<close>

section \<open>Budgets and plans\<close>

record budget_settings =
  bs_max_capsules :: int
  bs_max_wall_seconds :: int
  bs_max_diff_lines :: int
  bs_max_touched_files :: int
  bs_max_depth :: int
  bs_max_children :: int
  bs_suspicious_line_count :: int

record expansion_plan =
  ep_target_lines :: "int list"
  ep_max_candidates :: int
  ep_allow_comparison_fallback :: bool
  ep_remaining_capsules :: int

record task_plan =
  tp_strategy :: string
  tp_summary :: string
  tp_focus_lines :: "int list"
  tp_fallback_lines :: "int list"
  tp_ucb_exploration :: real
  tp_max_children :: int
  tp_max_capsules :: int
  tp_max_depth :: int

definition remaining_capsules :: "task_plan \<Rightarrow> int \<Rightarrow> int" where
  "remaining_capsules p generated_capsules = max (tp_max_capsules p - max generated_capsules 0) 0"

abbreviation py_len :: "'a list \<Rightarrow> int" where
  "py_len xs \<equiv> int (length xs)"

definition expansion_plan :: "task_plan \<Rightarrow> int \<Rightarrow> int \<Rightarrow> expansion_plan" where
  "expansion_plan p depth generated_capsules =
     (let remaining = remaining_capsules p generated_capsules in
      if remaining = 0 then
        \<lparr>ep_target_lines = [], ep_max_candidates = 0, ep_allow_comparison_fallback = False,
         ep_remaining_capsules = 0\<rparr>
      else
        let (target_lines, max_candidates) =
          (if tp_strategy p = ''focused'' then
             (py_take (min (py_len (tp_focus_lines p)) (2 + min depth 2)) (tp_focus_lines p),
              min (tp_max_children p) (if depth = 0 then 2 else 3))
           else if tp_strategy p = ''balanced'' then
             let window = min (py_len (tp_focus_lines p))
                            (max 3 (min (py_len (tp_focus_lines p)) (3 + depth)))
             in (py_take window (tp_focus_lines p),
                 min (tp_max_children p) (max 2 (min (tp_max_children p) (2 + depth))))
           else
             let window = min (py_len (tp_fallback_lines p))
                            (max 3 (min (py_len (tp_fallback_lines p)) (tp_max_children p + depth)))
             in (py_take window (tp_fallback_lines p), tp_max_children p))
        in \<lparr>ep_target_lines = target_lines, ep_max_candidates = min max_candidates remaining,
            ep_allow_comparison_fallback = True, ep_remaining_capsules = remaining\<rparr>)"

section \<open>The planner\<close>

text \<open>\<open>a or b\<close> on lists.\<close>

definition or_list :: "'a list \<Rightarrow> 'a list \<Rightarrow> 'a list" where
  "or_list xs ys = (if xs \<noteq> [] then xs else ys)"

definition build_task_plan ::
  "coverage_matrix \<Rightarrow> int list \<Rightarrow> nat \<Rightarrow> nat \<Rightarrow> budget_settings \<Rightarrow> task_plan" where
  "build_task_plan matrix suspicious_lines failed_count passed_count budgets =
     (let ranked_lines = map fst (rank_suspicious_lines
            \<lparr>total_failed = failed_count, total_passed = passed_count\<rparr> matrix);
          focus_lines = or_list suspicious_lines
            (py_take (bs_suspicious_line_count budgets) ranked_lines);
          fallback_lines = or_list ranked_lines (sort (dict_keys matrix));
          (strategy, ucb_exploration, summary) =
            (if focus_lines = [] then
               (''fallback'', 18 / 10,
                ''Fallback plan: broaden search across all covered comparison lines.'')
             else if failed_count = 1 \<and> py_len focus_lines \<le> bs_suspicious_line_count budgets then
               (''focused'', 105 / 100,
                ''Focused plan: prioritize the top '' @ nat_str (length focus_lines)
                  @ '' suspicious lines first.'')
             else
               (''balanced'', 135 / 100,
                ''Balanced plan: explore '' @ nat_str (length focus_lines)
                  @ '' suspicious lines with controlled widening by depth.''))
      in \<lparr>tp_strategy = strategy, tp_summary = summary, tp_focus_lines = focus_lines,
          tp_fallback_lines = fallback_lines, tp_ucb_exploration = ucb_exploration,
          tp_max_children = bs_max_children budgets, tp_max_capsules = bs_max_capsules budgets,
          tp_max_depth = bs_max_depth budgets\<rparr>)"

definition legacy_task_plan :: "int list \<Rightarrow> budget_settings \<Rightarrow> task_plan" where
  "legacy_task_plan suspicious_lines budgets =
     (let focus_lines = py_take (bs_suspicious_line_count budgets) suspicious_lines
      in \<lparr>tp_strategy = ''balanced'',
          tp_summary = ''Legacy plan: balanced search over suspicious lines.'',
          tp_focus_lines = focus_lines, tp_fallback_lines = focus_lines,
          tp_ucb_exploration = 135 / 100, tp_max_children = bs_max_children budgets,
          tp_max_capsules = bs_max_capsules budgets, tp_max_depth = bs_max_depth budgets\<rparr>)"

section \<open>Serialisation\<close>

definition plan_asdict :: "task_plan \<Rightarrow> (string \<times> json) list" where
  "plan_asdict p =
     [(''strategy'', JStr (tp_strategy p)),
      (''summary'', JStr (tp_summary p)),
      (''focus_lines'', JArr (map JInt (tp_focus_lines p))),
      (''fallback_lines'', JArr (map JInt (tp_fallback_lines p))),
      (''ucb_exploration'', JFloat (tp_ucb_exploration p)),
      (''max_children'', JInt (tp_max_children p)),
      (''max_capsules'', JInt (tp_max_capsules p)),
      (''max_depth'', JInt (tp_max_depth p))]"

definition plan_to_json :: "task_plan \<Rightarrow> json" where
  "plan_to_json p = js_sort (JObj (plan_asdict p))"

definition plan_from_json :: "json \<Rightarrow> task_plan option" where
  "plan_from_json value = do {
     m \<leftarrow> kwargs [''strategy'', ''summary'', ''focus_lines'', ''fallback_lines'',
             ''ucb_exploration'', ''max_children'', ''max_capsules'', ''max_depth''] [] value;
     strategy \<leftarrow> arg js_str m ''strategy'';
     summary \<leftarrow> arg js_str m ''summary'';
     focus_lines \<leftarrow> arg (js_list js_int) m ''focus_lines'';
     fallback_lines \<leftarrow> arg (js_list js_int) m ''fallback_lines'';
     ucb_exploration \<leftarrow> arg js_real m ''ucb_exploration'';
     max_children \<leftarrow> arg js_int m ''max_children'';
     max_capsules \<leftarrow> arg js_int m ''max_capsules'';
     max_depth \<leftarrow> arg js_int m ''max_depth'';
     Some \<lparr>tp_strategy = strategy, tp_summary = summary, tp_focus_lines = focus_lines,
       tp_fallback_lines = fallback_lines, tp_ucb_exploration = ucb_exploration,
       tp_max_children = max_children, tp_max_capsules = max_capsules,
       tp_max_depth = max_depth\<rparr> }"

lemma plan_dict_distinct: "distinct (dict_keys (plan_asdict p))"
  by (simp add: plan_asdict_def)

lemma js_sort_ints [simp]: "map (js_sort \<circ> JInt) ns = map JInt ns"
  by (simp add: fun_eq_iff)

lemma read_all_ints [simp]: "read_all js_int (map JInt ns) = Some ns"
  using read_all_map [of js_int JInt id ns] by simp

lemma plan_decode: "plan_from_json (plan_to_json p) = Some p"
  unfolding plan_from_json_def plan_to_json_def js_sort_JObj kwargs_sorted [OF plan_dict_distinct]
  by (simp add: plan_asdict_def arg_def del: js_sort.simps(2))

interpretation plan: json_contract plan_to_json plan_from_json id
  by unfold_locales (simp_all add: plan_decode)

section \<open>The expansion plan in closed form\<close>

text \<open>
  The nested minima and maxima collapse at the depths and child budgets that occur: the focused
  window grows from 2 lines to 4, the balanced one from 3 lines by one line a level, and the
  balanced child limit from 2 by one a level up to the configured number of children.
\<close>

definition plan_window :: "task_plan \<Rightarrow> nat \<Rightarrow> int list" where
  "plan_window p depth =
     (if tp_strategy p = ''focused'' then take (2 + min depth 2) (tp_focus_lines p)
      else if tp_strategy p = ''balanced'' then take (3 + depth) (tp_focus_lines p)
      else take (max 3 (nat (tp_max_children p) + depth)) (tp_fallback_lines p))"

definition plan_children :: "task_plan \<Rightarrow> nat \<Rightarrow> int" where
  "plan_children p depth =
     (if tp_strategy p = ''focused'' then min (tp_max_children p) (if depth = 0 then 2 else 3)
      else if tp_strategy p = ''balanced'' then min (tp_max_children p) (2 + int depth)
      else tp_max_children p)"

lemma py_take_min_len: "0 \<le> k \<Longrightarrow> py_take (min (py_len xs) k) xs = take (nat k) xs"
  by (auto simp: min_def)

lemma expansion_plan_unfold:
  assumes "0 \<le> tp_max_children p" and "remaining_capsules p g > 0"
  shows "expansion_plan p (int depth) g =
    \<lparr>ep_target_lines = plan_window p depth,
     ep_max_candidates = min (plan_children p depth) (remaining_capsules p g),
     ep_allow_comparison_fallback = True, ep_remaining_capsules = remaining_capsules p g\<rparr>"
proof -
  let ?n = "py_len (tp_focus_lines p)" and ?m = "py_len (tp_fallback_lines p)"
  have focused: "py_take (min ?n (2 + min (int depth) 2)) (tp_focus_lines p)
      = take (2 + min depth 2) (tp_focus_lines p)"
    by (subst py_take_min_len) (auto simp: nat_add_distrib min_def)
  have window: "min n (max 3 (min n (k :: int))) = min n (max 3 k)" for n k :: int
    by auto
  have balanced: "py_take (min ?n (max 3 (min ?n (3 + int depth)))) (tp_focus_lines p)
      = take (3 + depth) (tp_focus_lines p)"
    unfolding window by (subst py_take_min_len) (auto simp: max_def nat_add_distrib)
  have fallback: "py_take (min ?m (max 3 (min ?m (tp_max_children p + int depth)))) (tp_fallback_lines p)
      = take (max 3 (nat (tp_max_children p) + depth)) (tp_fallback_lines p)"
    unfolding window using assms(1)
    by (subst py_take_min_len) (auto simp: max_def nat_add_distrib intro!: arg_cong2 [where f = take])
  have children: "min c (max 2 (min c (2 + int depth))) = min c (2 + int depth)" if "0 \<le> c" for c :: int
    using that by auto
  show ?thesis
    using assms
    by (simp add: expansion_plan_def plan_window_def plan_children_def focused balanced fallback
        children Let_def)
qed

lemma plan_window_prefix:
  assumes "d \<le> d'"
  shows "plan_window p d = take (length (plan_window p d)) (plan_window p d')"
proof -
  have le: "2 + min d 2 \<le> 2 + min d' 2" "3 + d \<le> 3 + d'"
    "max 3 (nat (tp_max_children p) + d) \<le> max 3 (nat (tp_max_children p) + d')"
    using assms by auto
  show ?thesis
  proof (cases "tp_strategy p = ''focused''")
    case True
    show ?thesis
      unfolding plan_window_def if_P [OF True] by (rule take_prefix [OF le(1)])
  next
    case focused: False
    show ?thesis
    proof (cases "tp_strategy p = ''balanced''")
      case True
      show ?thesis
        unfolding plan_window_def if_not_P [OF focused] if_P [OF True] by (rule take_prefix [OF le(2)])
    next
      case False
      show ?thesis
        unfolding plan_window_def if_not_P [OF focused] if_not_P [OF False]
        by (rule take_prefix [OF le(3)])
    qed
  qed
qed

text \<open>
  C40. The expansion plan in closed form: at depth \<open>d\<close>, with budget left, the target lines are the
  first \<open>2 + min d 2\<close> focus lines of a focused plan, the first \<open>3 + d\<close> of a balanced one and the
  first \<open>max 3 (children + d)\<close> fallback lines otherwise, and the candidate limit is the strategy's
  child limit cut to the remaining budget; with no budget left the plan is empty. So deeper nodes
  look at no fewer lines and may have no fewer children.
\<close>

theorem expansion_plan_closed_form:
  assumes "0 \<le> tp_max_children p"
  shows "expansion_plan p (int d) g =
      (if remaining_capsules p g = 0
       then \<lparr>ep_target_lines = [], ep_max_candidates = 0,
             ep_allow_comparison_fallback = False, ep_remaining_capsules = 0\<rparr>
       else \<lparr>ep_target_lines = plan_window p d,
             ep_max_candidates = min (plan_children p d) (remaining_capsules p g),
             ep_allow_comparison_fallback = True,
             ep_remaining_capsules = remaining_capsules p g\<rparr>)
    \<and> (\<forall>d' \<ge> d. plan_window p d = take (length (plan_window p d)) (plan_window p d')
          \<and> plan_children p d \<le> plan_children p d')"
proof (intro conjI allI impI)
  have "0 \<le> remaining_capsules p g"
    by (simp add: remaining_capsules_def)
  then show "expansion_plan p (int d) g =
      (if remaining_capsules p g = 0
       then \<lparr>ep_target_lines = [], ep_max_candidates = 0,
             ep_allow_comparison_fallback = False, ep_remaining_capsules = 0\<rparr>
       else \<lparr>ep_target_lines = plan_window p d,
             ep_max_candidates = min (plan_children p d) (remaining_capsules p g),
             ep_allow_comparison_fallback = True,
             ep_remaining_capsules = remaining_capsules p g\<rparr>)"
    using expansion_plan_unfold [OF assms, of g d]
    by (simp add: expansion_plan_def)
  fix d' assume d: "d \<le> d'"
  then show "plan_window p d = take (length (plan_window p d)) (plan_window p d')"
    by (rule plan_window_prefix)
  show "plan_children p d \<le> plan_children p d'"
    using d by (auto simp: plan_children_def)
qed

theorem expansion_plan_closed_form_witness:
  "\<exists>p. tp_max_children p = 4 \<and> expansion_plan p 1 1 =
    \<lparr>ep_target_lines = [4, 6, 8], ep_max_candidates = 3, ep_allow_comparison_fallback = True,
     ep_remaining_capsules = 5\<rparr>"
proof -
  let ?p = "\<lparr>tp_strategy = ''balanced'', tp_summary = [], tp_focus_lines = [4, 6, 8],
    tp_fallback_lines = [4, 6, 8], tp_ucb_exploration = 135 / 100, tp_max_children = 4,
    tp_max_capsules = 6, tp_max_depth = 4\<rparr>"
  have "0 \<le> tp_max_children ?p" by simp
  from expansion_plan_closed_form [OF this, of 1 1] show ?thesis
    by (intro exI [of _ ?p]) (simp add: remaining_capsules_def plan_window_def plan_children_def)
qed

section \<open>The expansion plan respects the budget\<close>

lemma py_take_is_take: "\<exists>n. py_take k xs = take n xs"
  by (auto simp: py_take_def)

lemma expansion_plan_shape:
  assumes "remaining_capsules p g \<noteq> 0"
  shows "\<exists>lines limit. expansion_plan p depth g =
      \<lparr>ep_target_lines = lines, ep_max_candidates = min limit (remaining_capsules p g),
       ep_allow_comparison_fallback = True, ep_remaining_capsules = remaining_capsules p g\<rparr>
    \<and> limit \<le> tp_max_children p
    \<and> (\<exists>n. lines = take n (tp_focus_lines p) \<or> lines = take n (tp_fallback_lines p))"
proof -
  consider "tp_strategy p = ''focused''" | "tp_strategy p = ''balanced''"
    | "tp_strategy p \<noteq> ''focused''" "tp_strategy p \<noteq> ''balanced''" by blast
  then show ?thesis
  proof cases
    case 1
    then show ?thesis
      using assms
      by (intro exI [of _ "py_take (min (py_len (tp_focus_lines p)) (2 + min depth 2)) (tp_focus_lines p)"]
          exI [of _ "min (tp_max_children p) (if depth = 0 then 2 else 3)"] conjI)
        (simp_all add: expansion_plan_def Let_def py_take_is_take ex_disj_distrib)
  next
    case 2
    then show ?thesis
      using assms
      by (intro exI [of _ "py_take (min (py_len (tp_focus_lines p))
              (max 3 (min (py_len (tp_focus_lines p)) (3 + depth)))) (tp_focus_lines p)"]
          exI [of _ "min (tp_max_children p) (max 2 (min (tp_max_children p) (2 + depth)))"] conjI)
        (simp_all add: expansion_plan_def Let_def ex_disj_distrib, blast)
  next
    case 3
    then show ?thesis
      using assms
      by (intro exI [of _ "py_take (min (py_len (tp_fallback_lines p))
              (max 3 (min (py_len (tp_fallback_lines p)) (tp_max_children p + depth)))) (tp_fallback_lines p)"]
          exI [of _ "tp_max_children p"] conjI)
        (simp_all add: expansion_plan_def Let_def ex_disj_distrib, blast)
  qed
qed

text \<open>
  Whatever the strategy, the depth and the counts, an expansion plan never asks for more
  candidates than remain in the task's budget or than a node may have children, it is empty
  exactly when the budget is used up, and its target lines start the plan's line list in order.
\<close>

theorem expansion_plan_respects_budget:
  "let e = expansion_plan p depth g in
    ep_remaining_capsules e = remaining_capsules p g
    \<and> 0 \<le> ep_remaining_capsules e
    \<and> ep_max_candidates e \<le> ep_remaining_capsules e
    \<and> ep_max_candidates e \<le> max (tp_max_children p) 0
    \<and> (ep_allow_comparison_fallback e \<longleftrightarrow> max g 0 < tp_max_capsules p)
    \<and> ep_max_candidates e + max g 0 \<le> max (tp_max_capsules p) (max g 0)
    \<and> (\<exists>n. ep_target_lines e = take n (tp_focus_lines p) \<or> ep_target_lines e = take n (tp_fallback_lines p))"
proof (cases "remaining_capsules p g = 0")
  case True
  then have e: "expansion_plan p depth g = \<lparr>ep_target_lines = [], ep_max_candidates = 0,
      ep_allow_comparison_fallback = False, ep_remaining_capsules = 0\<rparr>"
    by (simp add: expansion_plan_def)
  have "tp_max_capsules p \<le> max g 0"
    using True by (auto simp: remaining_capsules_def max_def split: if_splits)
  moreover have "\<exists>n. [] = take n (tp_focus_lines p) \<or> [] = take n (tp_fallback_lines p)"
    by (rule exI [of _ 0]) simp
  ultimately show ?thesis
    by (auto simp: e True)
next
  case False
  obtain lines limit where e: "expansion_plan p depth g =
      \<lparr>ep_target_lines = lines, ep_max_candidates = min limit (remaining_capsules p g),
       ep_allow_comparison_fallback = True, ep_remaining_capsules = remaining_capsules p g\<rparr>"
    and limit: "limit \<le> tp_max_children p"
    and lines: "\<exists>n. lines = take n (tp_focus_lines p) \<or> lines = take n (tp_fallback_lines p)"
    using expansion_plan_shape [OF False] by blast
  from False have "max g 0 < tp_max_capsules p"
    by (auto simp: remaining_capsules_def max_def split: if_splits)
  moreover from this have "remaining_capsules p g = tp_max_capsules p - max g 0"
    by (simp add: remaining_capsules_def)
  ultimately show ?thesis
    using limit lines by (auto simp: e)
qed

section \<open>What the planner focuses on\<close>

text \<open>
  On the localiser's own output the planner focuses on exactly the lines the localiser found:
  every focus line was executed by a failing test, there are at most \<open>suspicious_line_count\<close> of
  them, the strategy is \<open>fallback\<close> exactly when there is none and \<open>focused\<close> exactly when there
  are some and a single test fails, and the fallback lines are never empty when the matrix is
  not.
\<close>

theorem planner_focuses_on_failing_lines:
  assumes "distinct (dict_keys matrix)" and "0 \<le> bs_suspicious_line_count budgets"
    and "suspicious = get_top_k_lines \<lparr>total_failed = f, total_passed = s\<rparr> matrix (bs_suspicious_line_count budgets)"
    and "plan = build_task_plan matrix suspicious f s budgets"
  shows "tp_focus_lines plan = suspicious
    \<and> (\<forall>l \<in> set (tp_focus_lines plan). line_failed matrix l \<noteq> 0)
    \<and> int (length (tp_focus_lines plan)) \<le> bs_suspicious_line_count budgets
    \<and> (tp_strategy plan = ''fallback'' \<longleftrightarrow> suspicious = [])
    \<and> (tp_strategy plan = ''focused'' \<longleftrightarrow> suspicious \<noteq> [] \<and> f = 1)
    \<and> (tp_fallback_lines plan = [] \<longleftrightarrow> matrix = [])
    \<and> tp_max_capsules plan = bs_max_capsules budgets"
proof -
  let ?fl = "\<lparr>total_failed = f, total_passed = s\<rparr>"
  let ?k = "bs_suspicious_line_count budgets"
  have susp: "suspicious = take (nat ?k) (map fst (rank_suspicious_lines ?fl matrix))"
    using assms(2,3) by (simp add: get_top_k_lines_def take_map)
  then have same: "or_list suspicious (take (nat ?k) (map fst (rank_suspicious_lines ?fl matrix))) = suspicious"
    by (simp add: or_list_def)
  have len: "int (length suspicious) \<le> ?k"
    using assms(2) by (simp add: susp)
  have failing: "\<forall>l \<in> set suspicious. line_failed matrix l \<noteq> 0"
    using set_rank_suspicious_lines [OF assms(1), of ?fl] by (auto simp: susp dest!: in_set_takeD)
  have fallback: "or_list (map fst (rank_suspicious_lines ?fl matrix)) (sort (dict_keys matrix)) = []
      \<longleftrightarrow> matrix = []"
    by (auto simp: or_list_def rank_suspicious_lines_def sort_desc_def)
  have focus: "tp_focus_lines plan = suspicious"
    and caps: "tp_max_capsules plan = bs_max_capsules budgets"
    and fb: "tp_fallback_lines plan = or_list (map fst (rank_suspicious_lines ?fl matrix)) (sort (dict_keys matrix))"
    and strategy: "tp_strategy plan = (if suspicious = [] then ''fallback''
        else if f = 1 \<and> int (length suspicious) \<le> ?k then ''focused'' else ''balanced'')"
    using assms(2) by (simp_all add: assms(4) build_task_plan_def same Let_def)
  show ?thesis
    using len failing fallback by (simp add: focus caps fb strategy)
qed

theorem planner_focuses_on_failing_lines_witness:
  "\<exists>plan :: task_plan. tp_strategy plan = ''focused'' \<and> length (tp_focus_lines plan) = 2"
proof -
  define m :: coverage_matrix where
    "m = [(4, [(''failed'', 1), (''passed'', 0)]), (6, [(''failed'', 1), (''passed'', 2)])]"
  define b where "b = \<lparr>bs_max_capsules = 6, bs_max_wall_seconds = 60, bs_max_diff_lines = 10,
    bs_max_touched_files = 1, bs_max_depth = 4, bs_max_children = 4, bs_suspicious_line_count = 5\<rparr>"
  define s where "s = get_top_k_lines \<lparr>total_failed = 1, total_passed = 2\<rparr> m (bs_suspicious_line_count b)"
  have "length (rank_suspicious_lines \<lparr>total_failed = 1, total_passed = 2\<rparr> m) = 2"
    by (simp add: m_def rank_suspicious_lines_def dict_get_def)
  then have len: "length s = 2"
    by (simp add: s_def b_def get_top_k_lines_def)
  have d: "distinct (dict_keys m)" and k: "0 \<le> bs_suspicious_line_count b"
    by (simp_all add: m_def b_def)
  from planner_focuses_on_failing_lines [OF d k s_def refl]
  have "tp_focus_lines (build_task_plan m s 1 2 b) = s"
    "tp_strategy (build_task_plan m s 1 2 b) = ''focused'' \<longleftrightarrow> s \<noteq> []"
    by simp_all
  with len show ?thesis
    by (intro exI [of _ "build_task_plan m s 1 2 b"]) auto
qed

end
