(* ===== verification/PyText.thy ===== *)
theory PyText
  imports Prelude
begin

text \<open>
  The operations of Python's \<open>str\<close> that the patcher, the oracle and the funnel use: splitting into
  lines with their ends, UTF-8 encoding and decoding, \<open>find\<close>, \<open>strip\<close>. Code points are below
  256, so the characters with special meaning are those of that range: \<open>str.splitlines\<close> breaks
  at LF, VT, FF, CR, FS, GS, RS and NEL, while the Python tokeniser, and \<open>ast\<close> with it, breaks
  at LF, CR and CR LF only.
\<close>

section \<open>Errors Python raises\<close>

datatype py_error =
    SyntaxError | ValueError | TypeError | KeyError | IndexError | UnicodeDecodeError
  | ZeroDivisionError | AttributeError | RuntimeError string | OSError string | DatabaseError

section \<open>Lines\<close>

abbreviation code_point :: "char \<Rightarrow> nat" where
  "code_point c \<equiv> of_char c"

definition is_str_break :: "char \<Rightarrow> bool" where
  "is_str_break c \<longleftrightarrow> code_point c \<in> {10, 11, 12, 13, 28, 29, 30, 133}"

definition is_source_break :: "char \<Rightarrow> bool" where
  "is_source_break c \<longleftrightarrow> code_point c \<in> {10, 13}"

text \<open>
  The text cut after each break, the end kept; CR LF is one break. \<open>cur\<close> is the reversed line
  read so far.
\<close>

fun split_lines :: "(char \<Rightarrow> bool) \<Rightarrow> string \<Rightarrow> string \<Rightarrow> string list" where
  "split_lines brk cur [] = (if cur = [] then [] else [rev cur])"
| "split_lines brk cur [c] =
     (if brk c then [rev (c # cur)] else [rev (c # cur)])"
| "split_lines brk cur (c # d # s) =
     (if code_point c = 13 \<and> code_point d = 10 then rev (d # c # cur) # split_lines brk [] s
      else if brk c then rev (c # cur) # split_lines brk [] (d # s)
      else split_lines brk (c # cur) (d # s))"

definition splitlines_keepends :: "string \<Rightarrow> string list" where
  "splitlines_keepends s = split_lines is_str_break [] s"

definition source_lines :: "string \<Rightarrow> string list" where
  "source_lines s = split_lines is_source_break [] s"

lemma concat_split_lines: "concat (split_lines brk cur s) = rev cur @ s"
  by (induction brk cur s rule: split_lines.induct) simp_all

lemma concat_splitlines [simp]: "concat (splitlines_keepends s) = s"
  by (simp add: splitlines_keepends_def concat_split_lines)

lemma split_lines_cong:
  "(\<forall>c \<in> set s. brk c = brk' c) \<Longrightarrow> split_lines brk cur s = split_lines brk' cur s"
  by (induction brk cur s rule: split_lines.induct) simp_all

text \<open>Where the text holds none of the other break characters the two notions of line agree.\<close>

definition no_exotic_breaks :: "string \<Rightarrow> bool" where
  "no_exotic_breaks s \<longleftrightarrow> (\<forall>c \<in> set s. code_point c \<notin> {11, 12, 28, 29, 30, 133})"

lemma splitlines_eq_source_lines:
  "no_exotic_breaks s \<Longrightarrow> splitlines_keepends s = source_lines s"
  unfolding splitlines_keepends_def source_lines_def no_exotic_breaks_def
  by (rule split_lines_cong) (auto simp: is_str_break_def is_source_break_def)

section \<open>UTF-8\<close>

definition utf8_char :: "char \<Rightarrow> string" where
  "utf8_char c = (if code_point c < 128 then [c]
     else [char_of (192 + code_point c div 64), char_of (128 + code_point c mod 64)])"

definition utf8_encode :: "string \<Rightarrow> string" where
  "utf8_encode s = concat (map utf8_char s)"

fun utf8_decode :: "string \<Rightarrow> string option" where
  "utf8_decode [] = Some []"
| "utf8_decode (b # bs) =
     (if code_point b < 128 then map_option (Cons b) (utf8_decode bs)
      else if code_point b \<in> {194, 195} then
        (case bs of
           [] \<Rightarrow> None
         | d # ds \<Rightarrow>
             if 128 \<le> code_point d \<and> code_point d < 192
             then map_option (Cons (char_of ((code_point b - 192) * 64 + (code_point d - 128)))) (utf8_decode ds)
             else None)
      else None)"

definition ascii :: "string \<Rightarrow> bool" where
  "ascii s \<longleftrightarrow> (\<forall>c \<in> set s. code_point c < 128)"

lemma ascii_simps [simp]: "ascii []" "ascii (c # s) \<longleftrightarrow> code_point c < 128 \<and> ascii s"
  by (auto simp: ascii_def)

lemma ascii_take: "ascii s \<Longrightarrow> ascii (take n s)"
  by (auto simp: ascii_def dest: in_set_takeD)

lemma ascii_drop: "ascii s \<Longrightarrow> ascii (drop n s)"
  by (auto simp: ascii_def dest: in_set_dropD)

lemma utf8_encode_ascii: "ascii s \<Longrightarrow> utf8_encode s = s"
  by (induction s) (auto simp: utf8_encode_def utf8_char_def)

lemma utf8_decode_ascii: "ascii s \<Longrightarrow> utf8_decode s = Some s"
  by (induction s) auto

lemma code_point_less: "code_point c < 256"
  by (fact nat_of_char_less_256)

lemma utf8_roundtrip: "utf8_decode (utf8_encode s) = Some s"
proof (induction s)
  case Nil
  show ?case by (simp add: utf8_encode_def)
next
  case (Cons c s)
  show ?case
  proof (cases "code_point c < 128")
    case True
    with Cons show ?thesis by (simp add: utf8_encode_def utf8_char_def)
  next
    case False
    let ?n = "code_point c"
    have n: "?n < 256" by (rule code_point_less)
    have "2 \<le> ?n div 64" using False by (simp add: less_eq_div_iff_mult_less_eq)
    moreover have "?n div 64 < 4" using n by (simp add: less_mult_imp_div_less)
    ultimately have d: "?n div 64 = 2 \<or> ?n div 64 = 3" by linarith
    have m: "?n mod 64 < 64" by simp
    have "?n div 64 * 64 + ?n mod 64 = ?n" by simp
    then have c: "char_of (?n div 64 * 64 + ?n mod 64) = c"
      by (simp only: char_of_char)
    define h l where "h = ?n div 64" and "l = ?n mod 64"
    have h: "h = 2 \<or> h = 3" and l: "l < 64" and c: "char_of (h * 64 + l) = c"
      using d m c by (simp_all add: h_def l_def)
    have "utf8_char c = [char_of (192 + h), char_of (128 + l)]"
      using False by (simp add: utf8_char_def h_def l_def)
    moreover have "utf8_decode (char_of (192 + h) # char_of (128 + l) # bs)
      = map_option (Cons (char_of (h * 64 + l))) (utf8_decode bs)" for bs
      using h l by (auto simp: of_char_of)
    ultimately show ?thesis
      using Cons c by (simp add: utf8_encode_def)
  qed
qed

section \<open>find and strip\<close>

fun is_prefix :: "'a list \<Rightarrow> 'a list \<Rightarrow> bool" where
  "is_prefix [] s = True"
| "is_prefix (p # ps) [] = False"
| "is_prefix (p # ps) (c # s) = (p = c \<and> is_prefix ps s)"

text \<open>\<open>s.find(p)\<close>, None for -1.\<close>

fun str_find :: "string \<Rightarrow> string \<Rightarrow> nat option" where
  "str_find [] p = (if p = [] then Some 0 else None)"
| "str_find (c # s) p = (if is_prefix p (c # s) then Some 0 else map_option Suc (str_find s p))"

lemma is_prefix_iff: "is_prefix p s \<longleftrightarrow> take (length p) s = p"
  by (induction p s rule: is_prefix.induct) auto

lemma str_find_Some: "str_find s p = Some i \<Longrightarrow> take (length p) (drop i s) = p \<and> i + length p \<le> length s"
proof (induction s arbitrary: i)
  case Nil
  then show ?case by (simp split: if_splits)
next
  case (Cons c s)
  show ?case
  proof (cases "is_prefix p (c # s)")
    case True
    with Cons.prems have "i = 0" by simp
    moreover have "length p \<le> length (c # s)"
      using True by (metis is_prefix_iff length_take min.absorb_iff2 nat_le_linear)
    ultimately show ?thesis
      using True by (simp add: is_prefix_iff)
  next
    case False
    with Cons.prems obtain j where "i = Suc j" "str_find s p = Some j" by auto
    with Cons.IH show ?thesis by simp
  qed
qed

lemma str_find_first: "str_find s p = Some i \<Longrightarrow> j < i \<Longrightarrow> take (length p) (drop j s) \<noteq> p"
proof (induction s arbitrary: i j)
  case Nil
  then show ?case by (simp split: if_splits)
next
  case (Cons c s)
  show ?case
  proof (cases "is_prefix p (c # s)")
    case True
    with Cons.prems show ?thesis by simp
  next
    case False
    with Cons.prems obtain k where k: "i = Suc k" "str_find s p = Some k" by auto
    show ?thesis
    proof (cases j)
      case 0
      with False show ?thesis by (simp add: is_prefix_iff)
    next
      case (Suc j')
      with Cons.IH [OF k(2), of j'] Cons.prems k show ?thesis by simp
    qed
  qed
qed

definition py_isspace :: "char \<Rightarrow> bool" where
  "py_isspace c \<longleftrightarrow> code_point c \<in> {9, 10, 11, 12, 13, 28, 29, 30, 31, 32, 133, 160}"

definition py_strip :: "string \<Rightarrow> string" where
  "py_strip s = rev (dropWhile py_isspace (rev (dropWhile py_isspace s)))"

section \<open>Digits\<close>

text \<open>\<open>int\<close> refuses a text of more than 4300 digits.\<close>

definition max_str_digits :: nat where
  "max_str_digits = 4300"

text \<open>The slice \<open>s[-8:]\<close>, by which an identifier is shortened.\<close>

definition last_eight :: "string \<Rightarrow> string" where
  "last_eight s = drop (length s - 8) s"

text \<open>\<open>sep.join(parts)\<close>.\<close>

definition join_text :: "string \<Rightarrow> string list \<Rightarrow> string" where
  "join_text sep parts = (case parts of [] \<Rightarrow> [] | p # ps \<Rightarrow> p @ concat (map (\<lambda>q. sep @ q) ps))"

end
