(* ===== verification/SharedStore.thy ===== *)
theory SharedStore
  imports MetadataStore PyText Keys
begin

text \<open>
  The shared store. The daemons talk to a Redis server, which is not part of the repository: it is
  a parameter, a record of the operations the code calls on a state of any type. What the code
  relies on is the locale \<open>shared_store\<close>: the server's contents can be read as strings, hashes,
  sets, lists, sorted sets and streams (\<open>redis_data\<close>), and each command changes them as
  its documentation says (\<open>apply_cmd\<close>). A pipeline is a list of commands that is executed at
  once. Errors of the server itself (a command on a key of another type, a lost connection) and
  the expiry of keys are not modelled here; the one key that expires, the lock of a node, is the subject
  of \<open>NodeLock\<close>.
\<close>

section \<open>Contents and commands\<close>

record redis_data =
  rd_strings :: "string \<rightharpoonup> rtext"
  rd_hashes :: "string \<Rightarrow> string \<rightharpoonup> rtext"
  rd_sets :: "string \<Rightarrow> string set"
  rd_lists :: "string \<Rightarrow> rtext list"
  rd_zsets :: "string \<Rightarrow> string \<rightharpoonup> real"
  rd_streams :: "string \<Rightarrow> rtext list"
  rd_acked :: "string \<Rightarrow> string \<Rightarrow> string set"

datatype store_cmd =
    CSet string rtext | CDelete string | CIncr string
  | CHSet string "(string \<times> rtext) list" | CHIncrBy string string int | CHIncrByFloat string string real
  | CSAdd string string | CLPush string rtext | CLTrim string nat nat
  | CZAdd string string real | CZRemRangeByScore string real real
  | CXAdd string rtext | CXAck string string string

definition counter :: "rtext option \<Rightarrow> int" where
  "counter v = (case v of Some (Num n) \<Rightarrow> n | _ \<Rightarrow> 0)"

definition float_counter :: "rtext option \<Rightarrow> real" where
  "float_counter v = (case v of Some (Num n) \<Rightarrow> of_int n | Some (Flt x) \<Rightarrow> x | _ \<Rightarrow> 0)"

lemma counter_simps [simp]: "counter None = 0" "counter (Some (Num n)) = n"
  by (simp_all add: counter_def)

lemma float_counter_simps [simp]:
  "float_counter None = 0" "float_counter (Some (Num n)) = of_int n" "float_counter (Some (Flt x)) = x"
  by (simp_all add: float_counter_def)

text \<open>The fields an \<open>hset\<close> writes, later ones over earlier ones.\<close>

definition hset_fields :: "(string \<times> rtext) list \<Rightarrow> (string \<rightharpoonup> rtext) \<Rightarrow> string \<rightharpoonup> rtext" where
  "hset_fields fs h = h ++ map_of (rev fs)"

lemma hset_fields_simps [simp]:
  "hset_fields [] h = h" "hset_fields ((f, v) # fs) h = hset_fields fs (h(f \<mapsto> v))"
  by (auto simp: hset_fields_def map_add_def fun_eq_iff split: option.splits)

fun apply_cmd :: "store_cmd \<Rightarrow> redis_data \<Rightarrow> redis_data" where
  "apply_cmd (CSet k v) d = d\<lparr>rd_strings := (rd_strings d)(k \<mapsto> v)\<rparr>"
| "apply_cmd (CDelete k) d = d\<lparr>rd_strings := (rd_strings d)(k := None)\<rparr>"
| "apply_cmd (CIncr k) d = d\<lparr>rd_strings := (rd_strings d)(k \<mapsto> Num (counter (rd_strings d k) + 1))\<rparr>"
| "apply_cmd (CHSet k fs) d = d\<lparr>rd_hashes := (rd_hashes d)(k := hset_fields fs (rd_hashes d k))\<rparr>"
| "apply_cmd (CHIncrBy k f n) d =
     d\<lparr>rd_hashes := (rd_hashes d)(k := (rd_hashes d k)(f \<mapsto> Num (counter (rd_hashes d k f) + n)))\<rparr>"
| "apply_cmd (CHIncrByFloat k f x) d =
     d\<lparr>rd_hashes := (rd_hashes d)(k := (rd_hashes d k)(f \<mapsto> Flt (float_counter (rd_hashes d k f) + x)))\<rparr>"
| "apply_cmd (CSAdd k m) d = d\<lparr>rd_sets := (rd_sets d)(k := insert m (rd_sets d k))\<rparr>"
| "apply_cmd (CLPush k v) d = d\<lparr>rd_lists := (rd_lists d)(k := v # rd_lists d k)\<rparr>"
| "apply_cmd (CLTrim k a b) d = d\<lparr>rd_lists := (rd_lists d)(k := drop a (take (Suc b) (rd_lists d k)))\<rparr>"
| "apply_cmd (CZAdd k m x) d = d\<lparr>rd_zsets := (rd_zsets d)(k := (rd_zsets d k)(m \<mapsto> x))\<rparr>"
| "apply_cmd (CZRemRangeByScore k lo hi) d =
     d\<lparr>rd_zsets := (rd_zsets d)(k := (\<lambda>m. case rd_zsets d k m of
         None \<Rightarrow> None | Some x \<Rightarrow> if lo \<le> x \<and> x \<le> hi then None else Some x))\<rparr>"
| "apply_cmd (CXAdd k v) d = d\<lparr>rd_streams := (rd_streams d)(k := rd_streams d k @ [v])\<rparr>"
| "apply_cmd (CXAck k g m) d =
     d\<lparr>rd_acked := (rd_acked d)(k := (rd_acked d k)(g := insert m (rd_acked d k g)))\<rparr>"

section \<open>The interface\<close>

record 's redis =
  r_data :: "'s \<Rightarrow> redis_data"
  r_exec :: "store_cmd \<Rightarrow> 's \<Rightarrow> 's"
  r_incr :: "string \<Rightarrow> 's \<Rightarrow> int \<times> 's"
  r_decr :: "string \<Rightarrow> 's \<Rightarrow> int \<times> 's"
  r_setnx :: "string \<Rightarrow> rtext \<Rightarrow> 's \<Rightarrow> bool \<times> 's"

definition r_pipeline :: "'s redis \<Rightarrow> store_cmd list \<Rightarrow> 's \<Rightarrow> 's" where
  "r_pipeline R cmds s = foldl (\<lambda>s c. r_exec R c s) s cmds"

lemma r_pipeline_simps [simp]:
  "r_pipeline R [] s = s" "r_pipeline R (c # cs) s = r_pipeline R cs (r_exec R c s)"
  "r_pipeline R (cs @ cs') s = r_pipeline R cs' (r_pipeline R cs s)"
  by (simp_all add: r_pipeline_def)

definition apply_cmds :: "store_cmd list \<Rightarrow> redis_data \<Rightarrow> redis_data" where
  "apply_cmds cmds d = foldl (\<lambda>d c. apply_cmd c d) d cmds"

lemma apply_cmds_simps [simp]:
  "apply_cmds [] d = d" "apply_cmds (c # cs) d = apply_cmds cs (apply_cmd c d)"
  "apply_cmds (cs @ cs') d = apply_cmds cs' (apply_cmds cs d)"
  by (simp_all add: apply_cmds_def)

locale shared_store =
  fixes R :: "'s redis"
  assumes exec: "r_data R (r_exec R c s) = apply_cmd c (r_data R s)"
    and incr: "r_incr R k s = (n, s') \<Longrightarrow> n = counter (rd_strings (r_data R s) k) + 1
        \<and> r_data R s' = (r_data R s)\<lparr>rd_strings := (rd_strings (r_data R s))(k \<mapsto> Num n)\<rparr>"
    and decr: "r_decr R k s = (n, s') \<Longrightarrow> n = counter (rd_strings (r_data R s) k) - 1
        \<and> r_data R s' = (r_data R s)\<lparr>rd_strings := (rd_strings (r_data R s))(k \<mapsto> Num n)\<rparr>"
    and setnx: "r_setnx R k v s = (ok, s') \<Longrightarrow> ok = (rd_strings (r_data R s) k = None)
        \<and> r_data R s' = (if ok then (r_data R s)\<lparr>rd_strings := (rd_strings (r_data R s))(k \<mapsto> v)\<rparr>
                         else r_data R s)"
begin

lemma pipeline: "r_data R (r_pipeline R cmds s) = apply_cmds cmds (r_data R s)"
  by (induction cmds arbitrary: s) (simp_all add: exec)

lemma incr_value: "fst (r_incr R k s) = counter (rd_strings (r_data R s) k) + 1"
  using incr [of k s "fst (r_incr R k s)" "snd (r_incr R k s)"] by simp

lemma incr_data: "r_data R (snd (r_incr R k s)) =
    (r_data R s)\<lparr>rd_strings := (rd_strings (r_data R s))(k \<mapsto> Num (counter (rd_strings (r_data R s) k) + 1))\<rparr>"
  using incr [of k s "fst (r_incr R k s)" "snd (r_incr R k s)"] by simp

lemma decr_data: "r_data R (snd (r_decr R k s)) =
    (r_data R s)\<lparr>rd_strings := (rd_strings (r_data R s))(k \<mapsto> Num (counter (rd_strings (r_data R s) k) - 1))\<rparr>"
  using decr [of k s "fst (r_decr R k s)" "snd (r_decr R k s)"] by simp

lemma setnx_value: "fst (r_setnx R k v s) \<longleftrightarrow> rd_strings (r_data R s) k = None"
  using setnx [of k v s "fst (r_setnx R k v s)" "snd (r_setnx R k v s)"] by simp

lemma setnx_data: "r_data R (snd (r_setnx R k v s)) =
    (if rd_strings (r_data R s) k = None
     then (r_data R s)\<lparr>rd_strings := (rd_strings (r_data R s))(k \<mapsto> v)\<rparr> else r_data R s)"
  using setnx [of k v s "fst (r_setnx R k v s)" "snd (r_setnx R k v s)"] by simp

text \<open>The first \<open>SET NX\<close> on a key decides its value; every later one finds it.\<close>

lemma setnx_holds: "\<exists>v'. rd_strings (r_data R (snd (r_setnx R k v s))) k = Some v'
    \<and> (fst (r_setnx R k v s) \<longrightarrow> v' = v)"
  by (auto simp: setnx_data setnx_value)

end

section \<open>A store held in memory\<close>

definition mem_redis :: "redis_data redis" where
  "mem_redis =
     \<lparr>r_data = id, r_exec = apply_cmd,
      r_incr = (\<lambda>k d. let n = counter (rd_strings d k) + 1 in (n, d\<lparr>rd_strings := (rd_strings d)(k \<mapsto> Num n)\<rparr>)),
      r_decr = (\<lambda>k d. let n = counter (rd_strings d k) - 1 in (n, d\<lparr>rd_strings := (rd_strings d)(k \<mapsto> Num n)\<rparr>)),
      r_setnx = (\<lambda>k v d. if rd_strings d k = None then (True, d\<lparr>rd_strings := (rd_strings d)(k \<mapsto> v)\<rparr>)
                         else (False, d))\<rparr>"

interpretation mem: shared_store mem_redis
  by unfold_locales (auto simp: mem_redis_def Let_def split: if_splits)

definition empty_data :: redis_data where
  "empty_data = \<lparr>rd_strings = Map.empty, rd_hashes = (\<lambda>k. Map.empty), rd_sets = (\<lambda>k. {}), rd_lists = (\<lambda>k. []),
     rd_zsets = (\<lambda>k. Map.empty), rd_streams = (\<lambda>k. []), rd_acked = (\<lambda>k g. {})\<rparr>"

section \<open>The world of a daemon\<close>

text \<open>
  What a daemon reads and changes: the shared store and the ledger. A step of a daemon ends
  normally or with an exception; what it has written by then stays written.
\<close>

record 's world =
  w_store :: 's
  w_db :: metadata_db

definition empty_world :: "redis_data world" where
  "empty_world = \<lparr>w_store = empty_data, w_db = empty_db\<rparr>"

datatype 'w outcome = Done 'w | Crash py_error 'w

fun and_then :: "'a outcome \<Rightarrow> ('a \<Rightarrow> 'a outcome) \<Rightarrow> 'a outcome" where
  "and_then (Done w) f = f w"
| "and_then (Crash e w) f = Crash e w"

text \<open>A value that Python computes, or the exception it raises, in the world \<open>w\<close>.\<close>

definition try_value :: "py_error + 'a \<Rightarrow> 'w \<Rightarrow> ('a \<Rightarrow> 'w outcome) \<Rightarrow> 'w outcome" where
  "try_value v w f = (case v of Inl e \<Rightarrow> Crash e w | Inr x \<Rightarrow> f x)"

lemma try_value_simps [simp]: "try_value (Inl e) w f = Crash e w" "try_value (Inr x) w f = f x"
  by (simp_all add: try_value_def)

lemma try_value_Done: "try_value v w f = Done w' \<longleftrightarrow> (\<exists>x. v = Inr x \<and> f x = Done w')"
  by (cases v) simp_all

fun outcome_world :: "'w outcome \<Rightarrow> 'w" where
  "outcome_world (Done w) = w"
| "outcome_world (Crash e w) = w"

definition w_exec :: "'s redis \<Rightarrow> store_cmd list \<Rightarrow> 's world \<Rightarrow> 's world" where
  "w_exec R cmds w = w\<lparr>w_store := r_pipeline R cmds (w_store w)\<rparr>"

definition w_hash :: "'s redis \<Rightarrow> 's world \<Rightarrow> string \<Rightarrow> string \<rightharpoonup> rtext" where
  "w_hash R w k = rd_hashes (r_data R (w_store w)) k"

definition w_string :: "'s redis \<Rightarrow> 's world \<Rightarrow> string \<Rightarrow> rtext option" where
  "w_string R w k = rd_strings (r_data R (w_store w)) k"

lemma w_exec_data [simp]: "shared_store R \<Longrightarrow> r_data R (w_store (w_exec R cmds w)) = apply_cmds cmds (r_data R (w_store w))"
  by (simp add: w_exec_def shared_store.pipeline)

lemma w_exec_db [simp]: "w_db (w_exec R cmds w) = w_db w"
  by (simp add: w_exec_def)

section \<open>Reading the fields of a hash\<close>

definition py_bind :: "py_error + 'a \<Rightarrow> ('a \<Rightarrow> py_error + 'b) \<Rightarrow> py_error + 'b" where
  "py_bind v f = (case v of Inl e \<Rightarrow> Inl e | Inr x \<Rightarrow> f x)"

lemma py_bind_simps [simp]: "py_bind (Inl e) f = Inl e" "py_bind (Inr x) f = f x"
  by (simp_all add: py_bind_def)

lemma py_bind_Inr: "py_bind v f = Inr y \<longleftrightarrow> (\<exists>x. v = Inr x \<and> f x = Inr y)"
  by (cases v) simp_all

text \<open>\<open>m[f]\<close> as a text, \<open>int(m.get(f, d))\<close> and \<open>float(m.get(f, d))\<close>.\<close>

definition field_str :: "(string \<rightharpoonup> rtext) \<Rightarrow> string \<Rightarrow> py_error + string" where
  "field_str m f = (case m f of None \<Rightarrow> Inl KeyError | Some (Txt s) \<Rightarrow> Inr s | Some _ \<Rightarrow> Inl TypeError)"

definition field_str_or :: "(string \<rightharpoonup> rtext) \<Rightarrow> string \<Rightarrow> string \<Rightarrow> py_error + string" where
  "field_str_or m f dflt = (if m f = None then Inr dflt else field_str m f)"

definition to_int :: "rtext \<Rightarrow> py_error + int" where
  "to_int v = (case text_int v of None \<Rightarrow> Inl ValueError | Some n \<Rightarrow> Inr n)"

definition to_float :: "rtext \<Rightarrow> py_error + real" where
  "to_float v = (case text_float v of None \<Rightarrow> Inl ValueError | Some x \<Rightarrow> Inr x)"

definition field_int :: "(string \<rightharpoonup> rtext) \<Rightarrow> string \<Rightarrow> int \<Rightarrow> py_error + int" where
  "field_int m f dflt = (case m f of None \<Rightarrow> Inr dflt | Some v \<Rightarrow> to_int v)"

definition field_float :: "(string \<rightharpoonup> rtext) \<Rightarrow> string \<Rightarrow> real \<Rightarrow> py_error + real" where
  "field_float m f dflt = (case m f of None \<Rightarrow> Inr dflt | Some v \<Rightarrow> to_float v)"

text \<open>\<open>v or d\<close> on a text that may be missing.\<close>

definition or_text :: "rtext option \<Rightarrow> rtext \<Rightarrow> rtext" where
  "or_text v dflt = (case v of None \<Rightarrow> dflt | Some (Txt []) \<Rightarrow> dflt | Some t \<Rightarrow> t)"

lemma to_int_Num [simp]: "to_int (Num n) = Inr n"
  by (simp add: to_int_def)

lemma or_text_simps [simp]: "or_text None d = d" "or_text (Some (Num n)) d = Num n" "or_text (Some (Flt x)) d = Flt x"
  by (simp_all add: or_text_def)

end
