(* ===== verification/CandidateBudget.thy ===== *)
theory CandidateBudget
  imports SharedStore Planning
begin

text \<open>
  The reservation of a candidate's place in the budget of its task
  (\<open>ForestWorker._reserve_candidate_budget\<close>): an atomic increment of a shared counter, undone
  when it exceeds the plan's limit. Several workers do this at once, so beside the method run
  alone there is the system of any number of workers whose commands interleave.
\<close>

section \<open>The method\<close>

definition exhausted_cmds :: "string \<Rightarrow> store_cmd list" where
  "exhausted_cmds task_id =
     [CSet (tree_budget_exhausted_key task_id) (Num 1),
      CHSet (root_node_id task_id) [(''planning_status'', Txt ''budget_exhausted'')]]"

definition mark_budget_exhausted :: "'s redis \<Rightarrow> string \<Rightarrow> 's world \<Rightarrow> 's world" where
  "mark_budget_exhausted R task_id w =
     (let w' = w_exec R (exhausted_cmds task_id) w
      in w'\<lparr>w_db := snd (update_task_status task_id ''budget_exhausted'' (w_db w'))\<rparr>)"

definition reserve_incr :: "'s redis \<Rightarrow> string \<Rightarrow> 's world \<Rightarrow> int \<times> 's world" where
  "reserve_incr R task_id w =
     (let (generated, s) = r_incr R (task_budget_key task_id) (w_store w) in (generated, w\<lparr>w_store := s\<rparr>))"

definition reserve_decr :: "'s redis \<Rightarrow> string \<Rightarrow> 's world \<Rightarrow> 's world" where
  "reserve_decr R task_id w = w\<lparr>w_store := snd (r_decr R (task_budget_key task_id) (w_store w))\<rparr>"

definition reserve_candidate_budget :: "'s redis \<Rightarrow> string \<Rightarrow> task_plan \<Rightarrow> 's world \<Rightarrow> bool \<times> 's world" where
  "reserve_candidate_budget R task_id plan w =
     (let (generated, w) = reserve_incr R task_id w
      in if generated > tp_max_capsules plan
         then (False, mark_budget_exhausted R task_id (reserve_decr R task_id w))
         else (True, w_exec R [CHSet (root_node_id task_id) [(''generated_capsules'', Num generated)]] w))"

definition budget_used :: "'s redis \<Rightarrow> string \<Rightarrow> 's world \<Rightarrow> int" where
  "budget_used R task_id w = counter (w_string R w (task_budget_key task_id))"

section \<open>The counter\<close>

lemma exhausted_key_neq [simp]: "tree_budget_exhausted_key t \<noteq> task_budget_key t"
  "task_budget_key t \<noteq> tree_budget_exhausted_key t"
  by (simp_all add: key_defs)

lemma reserve_incr_value:
  "shared_store R \<Longrightarrow> fst (reserve_incr R t w) = budget_used R t w + 1"
  by (simp add: reserve_incr_def split_beta shared_store.incr_value budget_used_def w_string_def)

lemma reserve_incr_used:
  "shared_store R \<Longrightarrow> budget_used R t (snd (reserve_incr R t w)) = budget_used R t w + 1"
  by (simp add: reserve_incr_def split_beta shared_store.incr_data budget_used_def w_string_def)

lemma reserve_decr_used:
  "shared_store R \<Longrightarrow> budget_used R t (reserve_decr R t w) = budget_used R t w - 1"
  by (simp add: reserve_decr_def shared_store.decr_data budget_used_def w_string_def)

lemma mark_exhausted_data:
  "shared_store R \<Longrightarrow> r_data R (w_store (mark_budget_exhausted R t w)) = apply_cmds (exhausted_cmds t) (r_data R (w_store w))"
  by (simp add: mark_budget_exhausted_def Let_def)

lemma mark_exhausted_used:
  "shared_store R \<Longrightarrow> budget_used R t (mark_budget_exhausted R t w) = budget_used R t w"
  by (simp add: budget_used_def w_string_def mark_exhausted_data exhausted_cmds_def)

lemma w_exec_hset_used:
  "shared_store R \<Longrightarrow> budget_used R t (w_exec R [CHSet k fs] w) = budget_used R t w"
  by (simp add: budget_used_def w_string_def)

lemma reserve_used:
  assumes "shared_store R" and "reserve_candidate_budget R t plan w = (ok, w')"
  shows "ok \<longleftrightarrow> budget_used R t w < tp_max_capsules plan"
    and "budget_used R t w' = budget_used R t w + of_bool ok"
  using assms
  by (auto simp: reserve_candidate_budget_def split_beta reserve_incr_value reserve_incr_used reserve_decr_used
      mark_exhausted_used w_exec_hset_used split: if_splits)

section \<open>Many workers\<close>

text \<open>
  The state of one worker's call: before its increment, after it with the number it got, after the
  decrement of a refused call, and returned. Between two commands of one worker the others may
  execute any of theirs.
\<close>

datatype phase = Trying | Counted int | Undone | Returned bool

inductive reserve_step ::
    "'s redis \<Rightarrow> string \<Rightarrow> task_plan \<Rightarrow> 's world \<times> phase list \<Rightarrow> 's world \<times> phase list \<Rightarrow> bool"
  for R task_id plan where
  count: "i < length ps \<Longrightarrow> ps ! i = Trying \<Longrightarrow> reserve_incr R task_id w = (n, w')
    \<Longrightarrow> reserve_step R task_id plan (w, ps) (w', ps[i := Counted n])"
| undo: "i < length ps \<Longrightarrow> ps ! i = Counted n \<Longrightarrow> n > tp_max_capsules plan
    \<Longrightarrow> reserve_step R task_id plan (w, ps) (reserve_decr R task_id w, ps[i := Undone])"
| refuse: "i < length ps \<Longrightarrow> ps ! i = Undone
    \<Longrightarrow> reserve_step R task_id plan (w, ps) (mark_budget_exhausted R task_id w, ps[i := Returned False])"
| grant: "i < length ps \<Longrightarrow> ps ! i = Counted n \<Longrightarrow> n \<le> tp_max_capsules plan
    \<Longrightarrow> reserve_step R task_id plan (w, ps)
      (w_exec R [CHSet (root_node_id task_id) [(''generated_capsules'', Num n)]] w, ps[i := Returned True])"

inductive_cases reserve_stepE: "reserve_step R task_id plan c c'"

text \<open>The calls that have a place, and those whose increment is still to be undone.\<close>

fun has_place :: "task_plan \<Rightarrow> phase \<Rightarrow> bool" where
  "has_place plan (Counted n) = (n \<le> tp_max_capsules plan)"
| "has_place plan (Returned ok) = ok"
| "has_place plan _ = False"

fun over :: "task_plan \<Rightarrow> phase \<Rightarrow> bool" where
  "over plan (Counted n) = (n > tp_max_capsules plan)"
| "over plan _ = False"

fun refused :: "phase \<Rightarrow> bool" where
  "refused Undone = True"
| "refused (Returned ok) = (\<not> ok)"
| "refused _ = False"

definition how_many :: "('a \<Rightarrow> bool) \<Rightarrow> 'a list \<Rightarrow> int" where
  "how_many P xs = sum_list (map (\<lambda>x. of_bool (P x)) xs)"

lemma how_many_update:
  "i < length xs \<Longrightarrow> how_many P (xs[i := x]) = how_many P xs - of_bool (P (xs ! i)) + of_bool (P x)"
  by (induction xs arbitrary: i) (auto simp: how_many_def split: nat.split)

lemma how_many_nonneg: "0 \<le> how_many P xs"
  by (induction xs) (simp_all add: how_many_def)

lemma how_many_pos: "x \<in> set xs \<Longrightarrow> P x \<Longrightarrow> 0 < how_many P xs"
proof (induction xs)
  case (Cons y xs)
  then show ?case
    using how_many_nonneg [of P xs] by (auto simp: how_many_def)
qed simp

lemma how_many_filter: "how_many P xs = int (length (filter P xs))"
  by (induction xs) (simp_all add: how_many_def)

definition budget_inv :: "'s redis \<Rightarrow> string \<Rightarrow> task_plan \<Rightarrow> 's world \<times> phase list \<Rightarrow> bool" where
  "budget_inv R task_id plan c \<longleftrightarrow> (case c of (w, ps) \<Rightarrow>
     budget_used R task_id w = how_many (has_place plan) ps + how_many (over plan) ps
     \<and> how_many (has_place plan) ps \<le> tp_max_capsules plan
     \<and> ((\<exists>p \<in> set ps. over plan p \<or> refused p) \<longrightarrow> how_many (has_place plan) ps = tp_max_capsules plan))"

lemma set_list_update_bex:
  "(\<exists>p \<in> set (ps[i := x]). Q p) \<Longrightarrow> (\<exists>p \<in> set ps. Q p) \<or> Q x"
  using set_update_subset_insert [of ps i x] by auto

lemma budget_inv_step:
  assumes R: "shared_store R" and "reserve_step R t plan c c'" and inv: "budget_inv R t plan c"
  shows "budget_inv R t plan c'"
  using assms(2)
proof (cases rule: reserve_step.cases)
  case (count i ps w n w')
  have n: "n = budget_used R t w + 1" "budget_used R t w' = budget_used R t w + 1"
    using reserve_incr_value [OF R, of t w] reserve_incr_used [OF R, of t w] count(5) by simp_all
  have p: "how_many (has_place plan) (ps[i := Counted n])
      = how_many (has_place plan) ps + of_bool (n \<le> tp_max_capsules plan)"
    "how_many (over plan) (ps[i := Counted n]) = how_many (over plan) ps + of_bool (n > tp_max_capsules plan)"
    using count(3,4) by (simp_all add: how_many_update)
  note old = inv [unfolded count budget_inv_def prod.case]
  have overs: "how_many (over plan) ps > 0 \<Longrightarrow> \<exists>p \<in> set ps. over plan p"
    by (simp add: how_many_filter filter_empty_conv)
  show ?thesis
  proof (cases "n \<le> tp_max_capsules plan")
    case True
    have none: "\<not> (\<exists>p \<in> set ps. over plan p \<or> refused p)"
      using old True n how_many_nonneg [of "over plan" ps] by linarith
    then have "how_many (over plan) ps = 0"
      using overs how_many_nonneg [of "over plan" ps] by fastforce
    moreover have "\<not> (\<exists>p \<in> set (ps[i := Counted n]). over plan p \<or> refused p)"
      using set_list_update_bex [of ps i "Counted n" "\<lambda>p. over plan p \<or> refused p"] none True by auto
    ultimately show ?thesis
      unfolding count budget_inv_def prod.case p using old n True by simp
  next
    case False
    then have "how_many (has_place plan) ps = tp_max_capsules plan"
      using old overs n how_many_nonneg [of "over plan" ps] by (cases "how_many (over plan) ps > 0") auto
    then show ?thesis
      unfolding count budget_inv_def prod.case p using old n False by simp
  qed
next
  case (undo i ps n w)
  have "how_many (has_place plan) (ps[i := Undone]) = how_many (has_place plan) ps"
    "how_many (over plan) (ps[i := Undone]) = how_many (over plan) ps - 1"
    using undo(3-5) by (simp_all add: how_many_update)
  moreover have "\<exists>p \<in> set ps. over plan p \<or> refused p"
    using undo(3-5) by (metis nth_mem over.simps(1))
  ultimately show ?thesis
    using inv R unfolding undo budget_inv_def prod.case by (simp add: reserve_decr_used)
next
  case (refuse i ps w)
  have "how_many (has_place plan) (ps[i := Returned False]) = how_many (has_place plan) ps"
    "how_many (over plan) (ps[i := Returned False]) = how_many (over plan) ps"
    using refuse(3,4) by (simp_all add: how_many_update)
  moreover have "\<exists>p \<in> set ps. over plan p \<or> refused p"
    using refuse(3,4) by (metis nth_mem refused.simps(1))
  ultimately show ?thesis
    using inv R unfolding refuse budget_inv_def prod.case by (simp add: mark_exhausted_used)
next
  case (grant i ps n w)
  have "how_many (has_place plan) (ps[i := Returned True]) = how_many (has_place plan) ps"
    "how_many (over plan) (ps[i := Returned True]) = how_many (over plan) ps"
    using grant(3-5) by (simp_all add: how_many_update)
  moreover have "(\<exists>p \<in> set (ps[i := Returned True]). over plan p \<or> refused p)
      \<Longrightarrow> \<exists>p \<in> set ps. over plan p \<or> refused p"
    using set_list_update_bex [of ps i "Returned True" "\<lambda>p. over plan p \<or> refused p"] by auto
  ultimately show ?thesis
    using inv R unfolding grant budget_inv_def prod.case by (simp add: w_exec_hset_used)
qed

lemma budget_inv_steps:
  "(reserve_step R t plan)\<^sup>*\<^sup>* c c' \<Longrightarrow> shared_store R \<Longrightarrow> budget_inv R t plan c \<Longrightarrow> budget_inv R t plan c'"
  by (induction rule: rtranclp_induct) (blast intro: budget_inv_step)+

text \<open>
  C12. However the commands of any number of workers interleave, at most the plan's number of
  candidates is granted a place, and no worker is refused unless that many places are taken:
  a refusal never costs the task a candidate. Here every place goes to one of the calls
  considered: the budget starts unused.
\<close>

theorem budget_never_overrun:
  assumes "shared_store R" and "0 \<le> tp_max_capsules plan" and "budget_used R task_id w = 0"
    and "(reserve_step R task_id plan)\<^sup>*\<^sup>* (w, replicate n Trying) (w', ps)"
  shows "int (length (filter (\<lambda>p. p = Returned True) ps)) \<le> tp_max_capsules plan
    \<and> (Returned False \<in> set ps \<longrightarrow> how_many (has_place plan) ps = tp_max_capsules plan)
    \<and> (set ps \<subseteq> {Returned True, Returned False} \<longrightarrow>
        budget_used R task_id w' = int (length (filter (\<lambda>p. p = Returned True) ps))
        \<and> int (length (filter (\<lambda>p. p = Returned True) ps)) = min (int n) (tp_max_capsules plan))"
proof -
  have zero: "how_many P (replicate n Trying) = 0" if "\<not> P Trying" for P
    using that by (simp add: how_many_filter)
  have "budget_inv R task_id plan (w, replicate n Trying)"
    using assms(2,3) by (auto simp: budget_inv_def zero)
  from budget_inv_steps [OF assms(4,1) this]
  have inv: "budget_used R task_id w' = how_many (has_place plan) ps + how_many (over plan) ps"
    "how_many (has_place plan) ps \<le> tp_max_capsules plan"
    "(\<exists>p \<in> set ps. over plan p \<or> refused p) \<Longrightarrow> how_many (has_place plan) ps = tp_max_capsules plan"
    by (auto simp: budget_inv_def)
  have len: "length ps = n"
  proof -
    have "length (snd c') = length (snd c)" if "(reserve_step R task_id plan)\<^sup>*\<^sup>* c c'" for c c'
      using that by (induction rule: rtranclp_induct) (auto elim: reserve_step.cases)
    from this [OF assms(4)] show ?thesis by simp
  qed
  have "length (filter (\<lambda>p. p = Returned True) ps) \<le> length (filter (has_place plan) ps)"
    by (induction ps) auto
  then have granted: "int (length (filter (\<lambda>p. p = Returned True) ps)) \<le> tp_max_capsules plan"
    using inv(2) by (simp add: how_many_filter)
  have full: "Returned False \<in> set ps \<Longrightarrow> how_many (has_place plan) ps = tp_max_capsules plan"
    by (rule inv(3)) (auto intro: bexI [of _ "Returned False"])
  have final: "budget_used R task_id w' = int (length (filter (\<lambda>p. p = Returned True) ps))
      \<and> int (length (filter (\<lambda>p. p = Returned True) ps)) = min (int n) (tp_max_capsules plan)"
    if ended: "set ps \<subseteq> {Returned True, Returned False}"
  proof -
    have same: "filter (has_place plan) ps = filter (\<lambda>p. p = Returned True) ps"
      using ended by (intro filter_cong) auto
    have "filter (over plan) ps = []"
      using ended by (auto simp: filter_empty_conv)
    then have used: "budget_used R task_id w' = int (length (filter (\<lambda>p. p = Returned True) ps))"
      using inv(1) same by (simp add: how_many_filter)
    show ?thesis
    proof (cases "Returned False \<in> set ps")
      case True
      have "length (filter (has_place plan) ps) \<le> length ps" by simp
      with full [OF True] used len same show ?thesis by (simp add: how_many_filter)
    next
      case False
      with ended have "filter (\<lambda>p. p = Returned True) ps = ps" by (auto simp: filter_id_conv)
      with used len granted show ?thesis by simp
    qed
  qed
  show ?thesis using granted full final by blast
qed

text \<open>Two workers and one place: both count, the second one is over and is refused.\<close>

definition one_place_plan :: task_plan where
  "one_place_plan = \<lparr>tp_strategy = ''focused'', tp_summary = [], tp_focus_lines = [1], tp_fallback_lines = [1],
     tp_ucb_exploration = 105 / 100, tp_max_children = 2, tp_max_capsules = 1, tp_max_depth = 3\<rparr>"

lemma two_workers_run:
  obtains w' where "(reserve_step mem_redis ''t'' one_place_plan)\<^sup>*\<^sup>* (empty_world, replicate 2 Trying)
    (w', [Returned True, Returned False])"
proof -
  let ?step = "reserve_step mem_redis ''t'' one_place_plan"
  have start: "budget_used mem_redis ''t'' empty_world = 0"
    by (simp add: budget_used_def w_string_def empty_world_def empty_data_def mem_redis_def)
  define w1 where "w1 = snd (reserve_incr mem_redis ''t'' empty_world)"
  define w2 where "w2 = snd (reserve_incr mem_redis ''t'' w1)"
  have n1: "reserve_incr mem_redis ''t'' empty_world = (1, w1)"
    using reserve_incr_value [OF mem.shared_store_axioms, of "''t''" empty_world] start
    by (simp add: w1_def prod_eq_iff)
  have n2: "reserve_incr mem_redis ''t'' w1 = (2, w2)"
    using reserve_incr_value [OF mem.shared_store_axioms, of "''t''" w1]
      reserve_incr_used [OF mem.shared_store_axioms, of "''t''" empty_world] start
    by (simp add: w1_def w2_def prod_eq_iff)
  have "?step (empty_world, [Trying, Trying]) (w1, [Trying, Trying][0 := Counted 1])"
    by (rule reserve_step.count) (simp_all add: n1)
  moreover have "?step (w1, [Counted 1, Trying]) (w2, [Counted 1, Trying][1 := Counted 2])"
    by (rule reserve_step.count) (simp_all add: n2)
  moreover have "?step (w2, [Counted 1, Counted 2])
      (reserve_decr mem_redis ''t'' w2, [Counted 1, Counted 2][1 := Undone])"
    by (rule reserve_step.undo [where n = 2]) (simp_all add: one_place_plan_def)
  moreover have "?step (reserve_decr mem_redis ''t'' w2, [Counted 1, Undone])
      (mark_budget_exhausted mem_redis ''t'' (reserve_decr mem_redis ''t'' w2), [Counted 1, Undone][1 := Returned False])"
    by (rule reserve_step.refuse) simp_all
  moreover have "?step (w, [Counted 1, Returned False])
      (w_exec mem_redis [CHSet (root_node_id ''t'') [(''generated_capsules'', Num 1)]] w,
       [Counted 1, Returned False][0 := Returned True])" for w
    by (rule reserve_step.grant) (simp_all add: one_place_plan_def)
  ultimately have "?step\<^sup>*\<^sup>* (empty_world, [Trying, Trying])
      (w_exec mem_redis [CHSet (root_node_id ''t'') [(''generated_capsules'', Num 1)]]
        (mark_budget_exhausted mem_redis ''t'' (reserve_decr mem_redis ''t'' w2)), [Returned True, Returned False])"
    by (simp add: numeral_2_eq_2) (meson rtranclp.rtrancl_refl rtranclp.rtrancl_into_rtrancl)
  then show thesis
    by (intro that) (simp add: numeral_2_eq_2)
qed

theorem budget_never_overrun_witness:
  "\<exists>w'. (reserve_step mem_redis ''t'' one_place_plan)\<^sup>*\<^sup>* (empty_world, replicate 2 Trying) (w', [Returned True, Returned False])
    \<and> budget_used mem_redis ''t'' w' = 1"
proof -
  obtain w' where run: "(reserve_step mem_redis ''t'' one_place_plan)\<^sup>*\<^sup>* (empty_world, replicate 2 Trying)
      (w', [Returned True, Returned False])"
    by (rule two_workers_run)
  have "budget_used mem_redis ''t'' empty_world = 0"
    by (simp add: budget_used_def w_string_def empty_world_def empty_data_def mem_redis_def)
  from budget_never_overrun [OF mem.shared_store_axioms _ this run] show ?thesis
    using run by (auto simp: one_place_plan_def)
qed

end
