(* ===== verification/Settings.thy ===== *)
theory Settings
  imports Planning PyText
begin

text \<open>
  The settings (\<open>settings.py\<close>): the base file, the profile merged over it, and the environment
  over both. A TOML table is a dictionary of JSON values, and the files and the environment are
  parameters. A value of another type than its field declares, which Python would only meet later,
  is refused when the settings are built.
\<close>

section \<open>The records\<close>

record repo_config =
  rc_language :: string
  rc_package_manager :: string

record omega_settings =
  om_redis :: string
  om_cas_endpoint :: string
  om_cas_bucket :: string
  om_cas_access_key :: string
  om_cas_secret_key :: string
  om_executor_host :: string
  om_executor_base_port :: int
  om_executor_cores :: int
  om_telemetry_host :: string
  om_telemetry_port :: int
  om_worker_heartbeat_ttl_seconds :: int

record policy_settings =
  ps_deny_edit_tests :: bool
  ps_deny_disable_asserts :: bool
  ps_require_hardware_isolation :: bool

record app_config =
  ac_repo :: repo_config
  ac_postgres_url :: string
  ac_omega :: omega_settings
  ac_budgets :: budget_settings
  ac_policy :: policy_settings
  ac_profile :: string

section \<open>Merging\<close>

type_synonym toml = "(string \<times> json) list"

function merge_dicts :: "toml \<Rightarrow> toml \<Rightarrow> toml" where
  "merge_dicts merged [] = merged"
| "merge_dicts merged ((key, value) # override) =
     merge_dicts
       (dict_set key
         (case (value, map_of merged key) of
            (JObj v, Some (JObj b)) \<Rightarrow> JObj (merge_dicts b v)
          | _ \<Rightarrow> value) merged)
       override"
  by pat_completeness auto
termination
  by (relation "measure (\<lambda>(b, v). size (JObj v))") auto

section \<open>The environment\<close>

text \<open>\<open>int(text)\<close>: blanks around, a sign, digits with single underscores between them.\<close>

fun underscored_digits :: "string \<Rightarrow> bool" where
  "underscored_digits [] = False"
| "underscored_digits [c] = is_digit c"
| "underscored_digits (c # d # s) =
     (if is_digit c then (if d = CHR ''_'' then underscored_digits s else underscored_digits (d # s)) else False)"

definition unsigned_int :: "string \<Rightarrow> int option" where
  "unsigned_int s = (if underscored_digits s \<and> length (filter is_digit s) \<le> max_str_digits then Some (int (digits_val (filter is_digit s))) else None)"

definition py_int :: "string \<Rightarrow> py_error + int" where
  "py_int s =
     (let t = py_strip s;
          n = (if t \<noteq> [] \<and> hd t = CHR ''-'' then map_option uminus (unsigned_int (tl t))
               else if t \<noteq> [] \<and> hd t = CHR ''+'' then unsigned_int (tl t)
               else unsigned_int t)
      in case n of None \<Rightarrow> Inl ValueError | Some m \<Rightarrow> Inr m)"

definition env_overrides :: "(string \<times> string) list" where
  "env_overrides =
     [(''postgres_url'', ''OMEGA_POSTGRES_URL''), (''redis'', ''OMEGA_REDIS_URL''),
      (''cas_endpoint'', ''OMEGA_CAS_ENDPOINT''), (''cas_bucket'', ''OMEGA_CAS_BUCKET''),
      (''cas_access_key'', ''OMEGA_CAS_ACCESS_KEY''), (''cas_secret_key'', ''OMEGA_CAS_SECRET_KEY''),
      (''executor_host'', ''OMEGA_EXECUTOR_HOST''), (''executor_base_port'', ''OMEGA_EXECUTOR_BASE_PORT''),
      (''executor_cores'', ''OMEGA_EXECUTOR_CORES''), (''telemetry_host'', ''OMEGA_TELEMETRY_HOST''),
      (''telemetry_port'', ''OMEGA_TELEMETRY_PORT'')]"

definition ends_with :: "string \<Rightarrow> string \<Rightarrow> bool" where
  "ends_with s suffix \<longleftrightarrow> is_prefix (rev suffix) (rev s)"

definition env_value :: "string \<Rightarrow> string \<Rightarrow> py_error + json" where
  "env_value key value =
     (if ends_with key ''_port'' \<or> ends_with key ''_cores''
      then (case py_int value of Inl e \<Rightarrow> Inl e | Inr n \<Rightarrow> Inr (JInt n))
      else Inr (JStr value))"

fun apply_overrides ::
    "(string \<Rightarrow> string option) \<Rightarrow> (string \<times> string) list \<Rightarrow> toml \<times> toml \<Rightarrow> py_error + toml \<times> toml" where
  "apply_overrides env [] tables = Inr tables"
| "apply_overrides env ((key, variable) # overrides) (metadata, omega) =
     (case env variable of
        None \<Rightarrow> apply_overrides env overrides (metadata, omega)
      | Some value \<Rightarrow>
          if key = ''postgres_url'' then apply_overrides env overrides (dict_set key (JStr value) metadata, omega)
          else (case env_value key value of
                  Inl e \<Rightarrow> Inl e
                | Inr j \<Rightarrow> apply_overrides env overrides (metadata, dict_set key j omega)))"

section \<open>Building the settings\<close>

definition repo_from :: "toml \<Rightarrow> repo_config option" where
  "repo_from t = do {
     m \<leftarrow> kwargs [''language'', ''package_manager''] [] (JObj t);
     language \<leftarrow> arg js_str m ''language'';
     package_manager \<leftarrow> arg js_str m ''package_manager'';
     Some \<lparr>rc_language = language, rc_package_manager = package_manager\<rparr> }"

definition metadata_from :: "toml \<Rightarrow> string option" where
  "metadata_from t = do { m \<leftarrow> kwargs [''postgres_url''] [] (JObj t); arg js_str m ''postgres_url'' }"

definition omega_from :: "toml \<Rightarrow> omega_settings option" where
  "omega_from t = do {
     m \<leftarrow> kwargs [''redis'', ''cas_endpoint'', ''cas_bucket'', ''cas_access_key'', ''cas_secret_key'', ''executor_host'',
            ''executor_base_port'', ''executor_cores'', ''telemetry_host'', ''telemetry_port'', ''worker_heartbeat_ttl_seconds'']
            [] (JObj t);
     redis \<leftarrow> arg js_str m ''redis'';
     endpoint \<leftarrow> arg js_str m ''cas_endpoint'';
     bucket \<leftarrow> arg js_str m ''cas_bucket'';
     access_key \<leftarrow> arg js_str m ''cas_access_key'';
     secret_key \<leftarrow> arg js_str m ''cas_secret_key'';
     executor_host \<leftarrow> arg js_str m ''executor_host'';
     base_port \<leftarrow> arg js_int m ''executor_base_port'';
     cores \<leftarrow> arg js_int m ''executor_cores'';
     telemetry_host \<leftarrow> arg js_str m ''telemetry_host'';
     telemetry_port \<leftarrow> arg js_int m ''telemetry_port'';
     ttl \<leftarrow> arg js_int m ''worker_heartbeat_ttl_seconds'';
     Some \<lparr>om_redis = redis, om_cas_endpoint = endpoint, om_cas_bucket = bucket, om_cas_access_key = access_key,
       om_cas_secret_key = secret_key, om_executor_host = executor_host, om_executor_base_port = base_port,
       om_executor_cores = cores, om_telemetry_host = telemetry_host, om_telemetry_port = telemetry_port,
       om_worker_heartbeat_ttl_seconds = ttl\<rparr> }"

definition budgets_from :: "toml \<Rightarrow> budget_settings option" where
  "budgets_from t = do {
     m \<leftarrow> kwargs [''max_capsules'', ''max_wall_seconds'', ''max_diff_lines'', ''max_touched_files'', ''max_depth'',
            ''max_children'', ''suspicious_line_count''] [] (JObj t);
     capsules \<leftarrow> arg js_int m ''max_capsules'';
     wall \<leftarrow> arg js_int m ''max_wall_seconds'';
     diff \<leftarrow> arg js_int m ''max_diff_lines'';
     touched \<leftarrow> arg js_int m ''max_touched_files'';
     depth \<leftarrow> arg js_int m ''max_depth'';
     children \<leftarrow> arg js_int m ''max_children'';
     lines' \<leftarrow> arg js_int m ''suspicious_line_count'';
     Some \<lparr>bs_max_capsules = capsules, bs_max_wall_seconds = wall, bs_max_diff_lines = diff, bs_max_touched_files = touched,
       bs_max_depth = depth, bs_max_children = children, bs_suspicious_line_count = lines'\<rparr> }"

definition policy_from :: "toml \<Rightarrow> policy_settings option" where
  "policy_from t = do {
     m \<leftarrow> kwargs [''deny_edit_tests'', ''deny_disable_asserts'', ''require_hardware_isolation''] [] (JObj t);
     edit \<leftarrow> arg js_bool m ''deny_edit_tests'';
     asserts \<leftarrow> arg js_bool m ''deny_disable_asserts'';
     isolation \<leftarrow> arg js_bool m ''require_hardware_isolation'';
     Some \<lparr>ps_deny_edit_tests = edit, ps_deny_disable_asserts = asserts, ps_require_hardware_isolation = isolation\<rparr> }"

definition section_of :: "toml \<Rightarrow> string \<Rightarrow> py_error + toml" where
  "section_of t name =
     (case map_of t name of
        None \<Rightarrow> Inl KeyError
      | Some j \<Rightarrow> (case js_obj j of None \<Rightarrow> Inl TypeError | Some s \<Rightarrow> Inr s))"

definition or_type_error :: "'a option \<Rightarrow> py_error + 'a" where
  "or_type_error v = (case v of None \<Rightarrow> Inl TypeError | Some x \<Rightarrow> Inr x)"

definition bind_value :: "py_error + 'a \<Rightarrow> ('a \<Rightarrow> py_error + 'b) \<Rightarrow> py_error + 'b" where
  "bind_value v f = (case v of Inl e \<Rightarrow> Inl e | Inr x \<Rightarrow> f x)"

lemma bind_value_Inr: "bind_value v f = Inr y \<longleftrightarrow> (\<exists>x. v = Inr x \<and> f x = Inr y)"
  by (cases v) (simp_all add: bind_value_def)

lemma or_type_error_Inr [simp]: "or_type_error v = Inr x \<longleftrightarrow> v = Some x"
  by (auto simp: or_type_error_def split: option.splits)

text \<open>The two files: the base, and the profile's, None where it does not exist.\<close>

definition merged_config :: "toml \<Rightarrow> toml option \<Rightarrow> string \<Rightarrow> toml" where
  "merged_config base_config profile_config profile =
     (if profile \<noteq> ''omega'' then (case profile_config of None \<Rightarrow> base_config | Some p \<Rightarrow> merge_dicts base_config p)
      else base_config)"

definition load_config ::
    "(string \<Rightarrow> string option) \<Rightarrow> py_error + toml \<Rightarrow> py_error + toml option \<Rightarrow> string \<Rightarrow> py_error + app_config" where
  "load_config env base_file profile_file profile =
     bind_value base_file (\<lambda>base_config.
     bind_value (if profile \<noteq> ''omega'' then profile_file else Inr None) (\<lambda>profile_config.
       let merged = merged_config base_config profile_config profile
       in bind_value (section_of merged ''metadata'') (\<lambda>metadata.
          bind_value (section_of merged ''omega'') (\<lambda>omega.
          bind_value (apply_overrides env env_overrides (metadata, omega)) (\<lambda>(metadata, omega).
          bind_value (section_of merged ''repo'') (\<lambda>repo.
          bind_value (or_type_error (repo_from repo)) (\<lambda>repo.
          bind_value (or_type_error (metadata_from metadata)) (\<lambda>postgres_url.
          bind_value (or_type_error (omega_from omega)) (\<lambda>omega.
          bind_value (section_of merged ''budgets'') (\<lambda>budgets.
          bind_value (or_type_error (budgets_from budgets)) (\<lambda>budgets.
          bind_value (section_of merged ''policy'') (\<lambda>policy.
          bind_value (or_type_error (policy_from policy)) (\<lambda>policy.
            Inr \<lparr>ac_repo = repo, ac_postgres_url = postgres_url, ac_omega = omega, ac_budgets = budgets,
                 ac_policy = policy, ac_profile = profile\<rparr>)))))))))))))"

end
