(* ===== verification/TreeSearch.thy ===== *)
theory TreeSearch
  imports SharedStore Settings
begin

text \<open>
  The descent of the search tree (\<open>ForestWorker.distributed_select\<close>): from the root, into the
  child of highest upper confidence bound, until a node without children or a child that was
  never visited. The loop follows links in the store and ends only when these do not go round in
  circles, so it is a partial function: None stands for not returning. A node's children are
  visited in the order \<open>sorted\<close> gives them.
\<close>

section \<open>The plan of a task\<close>

text \<open>The plan in the root's hash, or the legacy plan of a root without one.\<close>

definition worker_task_plan :: "budget_settings \<Rightarrow> (string \<rightharpoonup> rtext) \<Rightarrow> py_error + task_plan" where
  "worker_task_plan budgets root_data =
     (case or_text (root_data ''plan_json'') (Txt []) of
        Txt [] \<Rightarrow>
          (case text_json (case root_data ''suspicious_lines'' of None \<Rightarrow> Doc (JArr []) | Some v \<Rightarrow> v) of
             None \<Rightarrow> Inl ValueError
           | Some j \<Rightarrow>
               (case js_list js_int j of
                  None \<Rightarrow> Inl TypeError
                | Some suspicious_lines \<Rightarrow> Inr (legacy_task_plan suspicious_lines budgets)))
      | plan_json \<Rightarrow>
          (case text_json plan_json of
             None \<Rightarrow> Inl ValueError
           | Some j \<Rightarrow> (case plan_from_json j of None \<Rightarrow> Inl TypeError | Some plan \<Rightarrow> Inr plan)))"

lemma worker_task_plan_stored:
  "root_data ''plan_json'' = Some (Doc (plan_to_json plan)) \<Longrightarrow> worker_task_plan budgets root_data = Inr plan"
  by (simp add: worker_task_plan_def or_text_def plan_decode)

section \<open>One level\<close>

datatype scan_result = Unvisited string | Best "string option"

definition child_ucb :: "real \<Rightarrow> int \<Rightarrow> (string \<rightharpoonup> rtext) \<Rightarrow> int \<Rightarrow> py_error + real" where
  "child_ucb exploration parent_visits child_data visits =
     (case field_float child_data ''value_sum'' 0 of
        Inl e \<Rightarrow> Inl e
      | Inr value_sum \<Rightarrow>
          let reward = value_sum / of_int visits;
              spread = ln (of_int (max parent_visits 1)) / of_int visits
          in if spread < 0 then Inl ValueError else Inr (reward + exploration * sqrt spread))"

fun scan_children ::
    "(string \<Rightarrow> string \<rightharpoonup> rtext) \<Rightarrow> real \<Rightarrow> int \<Rightarrow> (string \<times> real) option \<Rightarrow> string list
       \<Rightarrow> py_error + scan_result" where
  "scan_children hash exploration parent_visits best [] = Inr (Best (map_option fst best))"
| "scan_children hash exploration parent_visits best (child_id # children) =
     (case field_int (hash child_id) ''visits'' 0 of
        Inl e \<Rightarrow> Inl e
      | Inr visits \<Rightarrow>
          if visits = 0 then Inr (Unvisited child_id)
          else case child_ucb exploration parent_visits (hash child_id) visits of
            Inl e \<Rightarrow> Inl e
          | Inr ucb \<Rightarrow>
              scan_children hash exploration parent_visits
                (case best of
                   None \<Rightarrow> Some (child_id, ucb)
                 | Some (b, best_ucb) \<Rightarrow> if best_ucb < ucb then Some (child_id, ucb) else best)
                children)"

section \<open>The descent\<close>

partial_function (option) select_from ::
    "(string \<Rightarrow> string \<rightharpoonup> rtext) \<Rightarrow> (string \<Rightarrow> string set) \<Rightarrow> real \<Rightarrow> string \<Rightarrow> (py_error + string) option" where
  "select_from hash kids exploration current =
     (let children = sorted_list_of_set (kids (node_children_key current))
      in if children = [] then Some (Inr current)
         else case to_int (or_text (hash current ''visits'') (Num 1)) of
           Inl e \<Rightarrow> Some (Inl e)
         | Inr parent_visits \<Rightarrow>
             (case scan_children hash exploration parent_visits None children of
                Inl e \<Rightarrow> Some (Inl e)
              | Inr (Unvisited child_id) \<Rightarrow> Some (Inr child_id)
              | Inr (Best None) \<Rightarrow> Some (Inr current)
              | Inr (Best (Some best_node)) \<Rightarrow> select_from hash kids exploration best_node))"

definition distributed_select ::
    "'s redis \<Rightarrow> budget_settings \<Rightarrow> string \<Rightarrow> 's world \<Rightarrow> (py_error + string) option" where
  "distributed_select R budgets task_id w =
     (let d = r_data R (w_store w)
      in case worker_task_plan budgets (rd_hashes d (root_node_id task_id)) of
        Inl e \<Rightarrow> Some (Inl e)
      | Inr task_plan \<Rightarrow>
          select_from (rd_hashes d) (rd_sets d) (tp_ucb_exploration task_plan) (root_node_id task_id))"

section \<open>The child of highest bound\<close>

text \<open>\<open>ucb_of hash c pv ch x\<close>: the child \<open>ch\<close> was visited and has the bound \<open>x\<close>.\<close>

definition ucb_of :: "(string \<Rightarrow> string \<rightharpoonup> rtext) \<Rightarrow> real \<Rightarrow> int \<Rightarrow> string \<Rightarrow> real \<Rightarrow> bool" where
  "ucb_of hash exploration parent_visits child x \<longleftrightarrow>
     (\<exists>visits. field_int (hash child) ''visits'' 0 = Inr visits \<and> visits \<noteq> 0
        \<and> child_ucb exploration parent_visits (hash child) visits = Inr x)"

lemma scan_children_Best:
  "scan_children hash c pv best children = Inr (Best b) \<Longrightarrow>
    (\<forall>child \<in> set children. \<exists>x. ucb_of hash c pv child x)
    \<and> (case b of
        None \<Rightarrow> best = None \<and> children = []
      | Some n \<Rightarrow> \<exists>x. ((n \<in> set children \<and> ucb_of hash c pv n x) \<or> best = Some (n, x))
          \<and> (\<forall>child \<in> set children. \<forall>y. ucb_of hash c pv child y \<longrightarrow> y \<le> x)
          \<and> (\<forall>m y. best = Some (m, y) \<longrightarrow> y \<le> x))"
proof (induction children arbitrary: best)
  case Nil
  then show ?case by (auto split: option.splits)
next
  case (Cons ch children)
  obtain visits where v: "field_int (hash ch) ''visits'' 0 = Inr visits" "visits \<noteq> 0"
    using Cons.prems by (auto split: sum.splits if_splits)
  obtain u where u: "child_ucb c pv (hash ch) visits = Inr u"
    using Cons.prems v by (auto split: sum.splits)
  let ?best = "case best of None \<Rightarrow> Some (ch, u) | Some (m, y) \<Rightarrow> if y < u then Some (ch, u) else best"
  have ch: "ucb_of hash c pv ch x \<longleftrightarrow> x = u" for x
    using v u by (auto simp: ucb_of_def)
  have "scan_children hash c pv ?best children = Inr (Best b)"
    using Cons.prems v u by simp
  note IH = Cons.IH [OF this]
  have some: "?best \<noteq> None" by (auto split: option.splits)
  have all: "\<forall>child \<in> set (ch # children). \<exists>x. ucb_of hash c pv child x"
    using IH ch by auto
  obtain n where b: "b = Some n" using IH some by (cases b) auto
  with IH obtain x where x: "(n \<in> set children \<and> ucb_of hash c pv n x) \<or> ?best = Some (n, x)"
    "\<forall>child \<in> set children. \<forall>y. ucb_of hash c pv child y \<longrightarrow> y \<le> x"
    "\<forall>m y. ?best = Some (m, y) \<longrightarrow> y \<le> x" by auto
  have "(n \<in> set (ch # children) \<and> ucb_of hash c pv n x) \<or> best = Some (n, x)"
    using x(1) ch by (auto split: option.splits if_splits)
  moreover have "u \<le> x" "\<forall>m y. best = Some (m, y) \<longrightarrow> y \<le> x"
    using x(3) by (auto split: option.splits if_splits)
  ultimately show ?case using all b x(2) ch by auto
qed

lemma scan_children_Unvisited:
  "scan_children hash c pv best children = Inr (Unvisited n) \<Longrightarrow>
    n \<in> set children \<and> field_int (hash n) ''visits'' 0 = Inr 0"
proof (induction children arbitrary: best)
  case (Cons ch children)
  from Cons.prems obtain visits where v: "field_int (hash ch) ''visits'' 0 = Inr visits"
    by (auto split: sum.splits)
  show ?case
  proof (cases "visits = 0")
    case True
    with v Cons.prems show ?thesis by simp
  next
    case False
    with v Cons show ?thesis by (auto split: sum.splits)
  qed
qed simp

text \<open>
  The paths the descent takes: every step goes from a node to a child that has the highest bound
  among its children, all of which were visited.
\<close>

inductive ucb_path ::
    "(string \<Rightarrow> string \<rightharpoonup> rtext) \<Rightarrow> (string \<Rightarrow> string set) \<Rightarrow> real \<Rightarrow> string \<Rightarrow> string \<Rightarrow> bool"
  for hash kids c where
  stay: "ucb_path hash kids c n n"
| descend: "to_int (or_text (hash n ''visits'') (Num 1)) = Inr pv
    \<Longrightarrow> m \<in> kids (node_children_key n) \<Longrightarrow> ucb_of hash c pv m x
    \<Longrightarrow> \<forall>child \<in> kids (node_children_key n). \<exists>y. ucb_of hash c pv child y \<and> y \<le> x
    \<Longrightarrow> ucb_path hash kids c m n' \<Longrightarrow> ucb_path hash kids c n n'"

inductive selectable :: "(string \<Rightarrow> string \<rightharpoonup> rtext) \<Rightarrow> (string \<Rightarrow> string set) \<Rightarrow> string \<Rightarrow> string \<Rightarrow> bool"
  for hash kids where
  leaf: "kids (node_children_key n) = {} \<Longrightarrow> selectable hash kids n n"
| unvisited: "m \<in> kids (node_children_key n) \<Longrightarrow> field_int (hash m) ''visits'' 0 = Inr 0
    \<Longrightarrow> selectable hash kids n m"

lemma select_from_path:
  assumes "select_from hash kids c n = Some r" and "\<And>k. finite (kids k)" and "r = Inr leaf"
  shows "\<exists>n'. ucb_path hash kids c n n' \<and> selectable hash kids n' leaf"
  using assms
proof (induction hash kids c n r arbitrary: leaf
    rule: select_from.raw_induct [rotated 1, consumes 1, case_names step])
  case (step rec hash kids c n r)
  let ?children = "sorted_list_of_set (kids (node_children_key n))"
  have set: "set ?children = kids (node_children_key n)" using step.prems(1) by simp
  show ?case
  proof (cases "?children = []")
    case True
    with step.hyps step.prems set have "leaf = n" "kids (node_children_key n) = {}" by auto
    then show ?thesis by (blast intro: ucb_path.stay selectable.leaf)
  next
    case False
    with step.hyps step.prems(2) obtain pv where pv: "to_int (or_text (hash n ''visits'') (Num 1)) = Inr pv"
      by (auto simp: Let_def split: sum.splits)
    show ?thesis
    proof (cases "scan_children hash c pv None ?children")
      case (Inl e)
      with False pv step.hyps step.prems(2) show ?thesis by (auto simp: Let_def)
    next
      case (Inr s)
      show ?thesis
      proof (cases s)
        case (Unvisited m)
        with False pv Inr step.hyps step.prems(2) have "leaf = m" by (auto simp: Let_def)
        with scan_children_Unvisited [of hash c pv None ?children m] Inr Unvisited set show ?thesis
          by (auto intro: ucb_path.stay selectable.unvisited)
      next
        case (Best b)
        with Inr have scan: "scan_children hash c pv None ?children = Inr (Best b)" by simp
        obtain m where b: "b = Some m"
          using scan_children_Best [OF scan] False by (cases b) auto
        have "rec hash kids c m = Some (Inr leaf)"
          using False pv scan b step.hyps step.prems(2) by (simp add: Let_def)
        then obtain n' where n': "ucb_path hash kids c m n'" "selectable hash kids n' leaf"
          using step.IH step.prems by blast
        from scan_children_Best [OF scan] b obtain x where "m \<in> set ?children" "ucb_of hash c pv m x"
          and "\<forall>child \<in> set ?children. \<forall>y. ucb_of hash c pv child y \<longrightarrow> y \<le> x"
          and "\<forall>child \<in> set ?children. \<exists>y. ucb_of hash c pv child y"
          by auto
        then have "m \<in> kids (node_children_key n)" "ucb_of hash c pv m x"
          "\<forall>child \<in> kids (node_children_key n). \<exists>y. ucb_of hash c pv child y \<and> y \<le> x"
          unfolding set by blast+
        with pv n' show ?thesis by (blast intro: ucb_path.descend)
      qed
    qed
  qed
qed

text \<open>
  C23. Where the selection returns a node, it has descended from the root by children of highest
  upper confidence bound among fully visited siblings, and the node is a leaf or the first visit
  is still owed to it.
\<close>

theorem selection_follows_best_bounds:
  assumes "distributed_select R budgets task_id w = Some (Inr node)"
    and "\<forall>k. finite (rd_sets (r_data R (w_store w)) k)"
    and "worker_task_plan budgets (w_hash R w (root_node_id task_id)) = Inr plan"
  shows "\<exists>n'. ucb_path (w_hash R w) (rd_sets (r_data R (w_store w))) (tp_ucb_exploration plan) (root_node_id task_id) n'
    \<and> selectable (w_hash R w) (rd_sets (r_data R (w_store w))) n' node"
proof -
  have "select_from (w_hash R w) (rd_sets (r_data R (w_store w))) (tp_ucb_exploration plan) (root_node_id task_id)
      = Some (Inr node)"
    using assms(1,3) by (simp add: distributed_select_def Let_def w_hash_def [abs_def])
  then show ?thesis by (rule select_from_path) (use assms(2) in simp_all)
qed

section \<open>The descent ends\<close>

lemma select_from_ends:
  fixes rank :: "string \<Rightarrow> nat"
  assumes "\<And>k. finite (kids k)" and "\<And>n m. m \<in> kids (node_children_key n) \<Longrightarrow> rank m < rank n"
  shows "select_from hash kids c n \<noteq> None"
proof (induction "rank n" arbitrary: n rule: less_induct)
  case less
  let ?children = "sorted_list_of_set (kids (node_children_key n))"
  have "select_from hash kids c m \<noteq> None" if "m \<in> set ?children" for m
    using less assms that by simp
  then show ?case
    using scan_children_Best [of hash c _ None ?children]
    by (subst select_from.simps)
      (fastforce simp: Let_def split: sum.splits scan_result.splits option.splits)
qed

text \<open>A tree with a root, visited twice, and two visited children, of which the second was better and is
  already expanded.\<close>

definition sample_hash :: "string \<Rightarrow> string \<rightharpoonup> rtext" where
  "sample_hash n =
     (if n = root_node_id ''t'' then [''visits'' \<mapsto> Num 1, ''value_sum'' \<mapsto> Flt 30, ''depth'' \<mapsto> Num 0]
      else if n = ''x'' then [''visits'' \<mapsto> Num 1, ''value_sum'' \<mapsto> Flt 10, ''depth'' \<mapsto> Num 1,
        ''expanded'' \<mapsto> Txt ''False'']
      else if n = ''y'' then [''visits'' \<mapsto> Num 1, ''value_sum'' \<mapsto> Flt 20, ''depth'' \<mapsto> Num 1,
        ''expanded'' \<mapsto> Txt ''True'']
      else Map.empty)"

definition sample_tree :: "redis_data world" where
  "sample_tree = \<lparr>w_store = empty_data\<lparr>rd_hashes := sample_hash,
      rd_sets := (\<lambda>k. {})(node_children_key (root_node_id ''t'') := {''x'', ''y''})\<rparr>,
    w_db = empty_db\<rparr>"

definition sample_budgets :: budget_settings where
  "sample_budgets = \<lparr>bs_max_capsules = 24, bs_max_wall_seconds = 300, bs_max_diff_lines = 20,
     bs_max_touched_files = 1, bs_max_depth = 3, bs_max_children = 4, bs_suspicious_line_count = 3\<rparr>"

lemma sample_tree_simps:
  "rd_sets (r_data mem_redis (w_store sample_tree)) = (\<lambda>k. {})(node_children_key (root_node_id ''t'') := {''x'', ''y''})"
  "rd_hashes (r_data mem_redis (w_store sample_tree)) = sample_hash"
  by (simp_all add: sample_tree_def mem_redis_def)

lemma sample_plan: "worker_task_plan sample_budgets (sample_hash (root_node_id ''t'')) = Inr (legacy_task_plan [] sample_budgets)"
  by (simp add: worker_task_plan_def sample_hash_def)

lemma sample_children: "sorted_list_of_set {''x'', ''y''} = [''x'', ''y'']"
  using sorted_list_of_set_sort_remdups [of "[''x'', ''y'']"] by simp

lemma sample_selection: "distributed_select mem_redis sample_budgets ''t'' sample_tree = Some (Inr ''y'')"
proof -
  have neq: "root_node_id ''t'' \<noteq> ''x''" "root_node_id ''t'' \<noteq> ''y''" by (simp_all add: key_defs)
  show ?thesis
    unfolding distributed_select_def Let_def sample_tree_simps sample_plan
    apply (simp only: sum.case)
    apply (subst select_from.simps)
    apply (simp add: sample_children sample_hash_def field_int_def child_ucb_def field_float_def to_float_def Let_def neq
        neq [symmetric])
    apply (subst select_from.simps)
    apply (simp add: key_defs)
    done
qed

theorem selection_follows_best_bounds_witness:
  "\<exists>n'. ucb_path (w_hash mem_redis sample_tree) (rd_sets (r_data mem_redis (w_store sample_tree))) (135 / 100) (root_node_id ''t'') n'
    \<and> selectable (w_hash mem_redis sample_tree) (rd_sets (r_data mem_redis (w_store sample_tree))) n' ''y''"
  using selection_follows_best_bounds [OF sample_selection, of "legacy_task_plan [] sample_budgets"]
  by (simp add: sample_tree_simps w_hash_def sample_plan) (simp add: legacy_task_plan_def)

end
