(* ===== verification/PyAst.thy ===== *)
theory PyAst
  imports PyText "HOL-Library.Product_Lexorder"
begin

text \<open>
  Abstract syntax trees as \<open>ast.parse\<close> delivers them, as far as the control plane looks at them:
  the node types its checks name are constructors, every other node is \<open>Node\<close> with its type's
  name and its child nodes in field order. The childless operator and context nodes, which no
  check inspects as nodes, are not children. \<open>ast.walk\<close> is the breadth-first traversal of the
  standard library. The parser itself is a parameter of the definitions that call it.
\<close>

text \<open>\<open>lineno\<close>, \<open>col_offset\<close>, \<open>end_lineno\<close>, \<open>end_col_offset\<close>; columns count UTF-8 bytes.\<close>

type_synonym location = "int \<times> int \<times> int \<times> int"

datatype cmpop = Lt | LtE | Gt | GtE | Eq | NotEq | Is | IsNot | In | NotIn

datatype const_value = CBool bool | CInt int | COther string

datatype unaryop = USub | UOther string

datatype operator = Add | Sub | BOther string

datatype pyast =
    Name string
  | Constant const_value
  | UnaryOp unaryop pyast
  | BinOp pyast operator pyast
  | Compare location pyast "cmpop list" "pyast list"
  | Attribute pyast string
  | Try "pyast list" "pyast list" "pyast list" "pyast list"
  | ExceptHandler "pyast option" "pyast list"
  | Node string "pyast list"

fun children :: "pyast \<Rightarrow> pyast list" where
  "children (UnaryOp op e) = [e]"
| "children (BinOp l op r) = [l, r]"
| "children (Compare loc l ops cs) = l # cs"
| "children (Attribute e attr) = [e]"
| "children (Try body handlers orelse final) = body @ handlers @ orelse @ final"
| "children (ExceptHandler type body) = (case type of None \<Rightarrow> [] | Some e \<Rightarrow> [e]) @ body"
| "children (Node kind cs) = cs"
| "children (Name x) = []"
| "children (Constant c) = []"

text \<open>The number of nodes of a tree; each child has fewer than its parent.\<close>

fun node_count :: "pyast \<Rightarrow> nat" where
  "node_count (UnaryOp op e) = 1 + node_count e"
| "node_count (BinOp l op r) = 1 + node_count l + node_count r"
| "node_count (Compare loc l ops cs) = 1 + node_count l + sum_list (map node_count cs)"
| "node_count (Attribute e attr) = 1 + node_count e"
| "node_count (Try body handlers orelse final) =
     1 + sum_list (map node_count (body @ handlers @ orelse @ final))"
| "node_count (ExceptHandler type body) =
     1 + (case type of None \<Rightarrow> 0 | Some e \<Rightarrow> node_count e) + sum_list (map node_count body)"
| "node_count (Node kind cs) = 1 + sum_list (map node_count cs)"
| "node_count (Name x) = 1"
| "node_count (Constant c) = 1"

lemma node_count_children: "node_count t = 1 + sum_list (map node_count (children t))"
  by (cases t) (simp_all split: option.splits)

text \<open>\<open>ast.walk\<close>: a queue, extended by the children of each node taken from its front.\<close>

function walk_queue :: "pyast list \<Rightarrow> pyast list" where
  "walk_queue [] = []"
| "walk_queue (n # todo) = n # walk_queue (todo @ children n)"
  by pat_completeness auto
termination
  by (relation "measure (\<lambda>todo. sum_list (map node_count todo))") (simp_all add: node_count_children)

definition ast_walk :: "pyast \<Rightarrow> pyast list" where
  "ast_walk t = walk_queue [t]"

inductive occurs :: "pyast \<Rightarrow> pyast \<Rightarrow> bool" where
  occurs_self: "occurs t t"
| occurs_child: "c \<in> set (children t) \<Longrightarrow> occurs c n \<Longrightarrow> occurs t n"

lemma occurs_unfold: "occurs t n \<longleftrightarrow> n = t \<or> (\<exists>c \<in> set (children t). occurs c n)"
  by (subst occurs.simps) auto

lemma set_walk_queue: "set (walk_queue todo) = {n. \<exists>t \<in> set todo. occurs t n}"
proof (induction todo rule: walk_queue.induct)
  case 1
  show ?case by simp
next
  case (2 n todo)
  have "{m. \<exists>t \<in> set (n # todo). occurs t m}
      = {m. occurs n m} \<union> {m. \<exists>t \<in> set todo. occurs t m}" by auto
  also have "{m. occurs n m} = insert n {m. \<exists>c \<in> set (children n). occurs c m}"
    by (rule set_eqI) (simp add: occurs_unfold [of n])
  finally show ?case using 2 by auto
qed

lemma set_ast_walk: "set (ast_walk t) = {n. occurs t n}"
  unfolding ast_walk_def set_walk_queue by simp

text \<open>\<open>ast.dump\<close> prints a tree without its locations: two dumps agree when the trees do up to them.\<close>

fun unlocated :: "pyast \<Rightarrow> pyast" where
  "unlocated (UnaryOp op e) = UnaryOp op (unlocated e)"
| "unlocated (BinOp l op r) = BinOp (unlocated l) op (unlocated r)"
| "unlocated (Compare loc l ops cs) = Compare (0, 0, 0, 0) (unlocated l) ops (map unlocated cs)"
| "unlocated (Attribute e attr) = Attribute (unlocated e) attr"
| "unlocated (Try body handlers orelse final) =
     Try (map unlocated body) (map unlocated handlers) (map unlocated orelse) (map unlocated final)"
| "unlocated (ExceptHandler type body) = ExceptHandler (map_option unlocated type) (map unlocated body)"
| "unlocated (Node kind cs) = Node kind (map unlocated cs)"
| "unlocated (Name x) = Name x"
| "unlocated (Constant c) = Constant c"

definition dump_eq :: "pyast \<Rightarrow> pyast \<Rightarrow> bool" where
  "dump_eq s t \<longleftrightarrow> unlocated s = unlocated t"

end
