(* ===== verification/Patcher.thy ===== *)
theory Patcher
  imports PyAst "HOL-Library.Multiset"
begin

text \<open>
  The patch generator (\<open>tree_sitter_engine.py\<close>): each comparison on a suspicious line is
  answered with the source in which its operator is exchanged for the neighbouring one. The
  parser is the parameter \<open>parse\<close>, and the order in which Python iterates over the set of
  candidates (it depends on the interpreter's string hashes) the parameter \<open>set_order\<close>. A Python
  set of strings is a list without duplicates, in the order of insertion.
\<close>

section \<open>Indexing and slicing with Python's negative indices\<close>

definition py_index :: "'a list \<Rightarrow> int \<Rightarrow> nat option" where
  "py_index xs i =
     (let j = (if 0 \<le> i then i else int (length xs) + i)
      in if 0 \<le> j \<and> j < int (length xs) then Some (nat j) else None)"

definition py_nth :: "'a list \<Rightarrow> int \<Rightarrow> py_error + 'a" where
  "py_nth xs i = (case py_index xs i of None \<Rightarrow> Inl IndexError | Some j \<Rightarrow> Inr (xs ! j))"

definition py_list_set :: "'a list \<Rightarrow> int \<Rightarrow> 'a \<Rightarrow> py_error + 'a list" where
  "py_list_set xs i v = (case py_index xs i of None \<Rightarrow> Inl IndexError | Some j \<Rightarrow> Inr (xs[j := v]))"

definition py_drop :: "int \<Rightarrow> 'a list \<Rightarrow> 'a list" where
  "py_drop k xs = (if 0 \<le> k then drop (nat k) xs else drop (nat (int (length xs) + k)) xs)"

lemma py_index_bound: "py_index xs i = Some j \<Longrightarrow> j < length xs"
  by (auto simp: py_index_def Let_def split: if_splits)

section \<open>The tables\<close>

definition OPERATOR_SWAPS :: "(cmpop \<times> string) list" where
  "OPERATOR_SWAPS =
     [(Lt, ''<=''), (LtE, ''<''), (Gt, ''>=''), (GtE, ''>''), (Eq, ''!=''), (NotEq, ''=='')]"

definition operator_tokens :: "(cmpop \<times> string) list" where
  "operator_tokens =
     [(Lt, ''<''), (LtE, ''<=''), (Gt, ''>''), (GtE, ''>=''), (Eq, ''==''), (NotEq, ''!='')]"

section \<open>The operations\<close>

fun is_compare :: "pyast \<Rightarrow> bool" where
  "is_compare (Compare loc l ops cs) = True"
| "is_compare _ = False"

fun compare_lineno :: "pyast \<Rightarrow> int" where
  "compare_lineno (Compare (lineno, rest) l ops cs) = lineno"
| "compare_lineno _ = - 1"

definition comparison_lines :: "(string \<Rightarrow> py_error + pyast) \<Rightarrow> string \<Rightarrow> py_error + int list" where
  "comparison_lines parse code =
     (case parse code of
        Inl e \<Rightarrow> Inl e
      | Inr tree \<Rightarrow>
          Inr (sorted_list_of_set
            (set (filter (\<lambda>line. 0 < line) (map compare_lineno (filter is_compare (ast_walk tree)))))))"

text \<open>\<open>ast.get_source_segment\<close> for a node on one line: its columns count bytes.\<close>

definition get_source_segment :: "string \<Rightarrow> int \<Rightarrow> int \<Rightarrow> int \<Rightarrow> py_error + string" where
  "get_source_segment code lineno col end_col =
     (case py_nth (source_lines code) (lineno - 1) of
        Inl e \<Rightarrow> Inl e
      | Inr line \<Rightarrow>
          (case utf8_decode (py_drop col (py_take end_col (utf8_encode line))) of
             None \<Rightarrow> Inl UnicodeDecodeError
           | Some segment \<Rightarrow> Inr segment))"

definition replace_operator ::
    "string \<Rightarrow> location \<Rightarrow> cmpop list \<Rightarrow> string \<Rightarrow> py_error + string option" where
  "replace_operator code loc ops new_op_text =
     (case loc of (lineno, col_offset, end_lineno, end_col_offset) \<Rightarrow>
        if end_lineno \<noteq> lineno then Inr None
        else case get_source_segment code lineno col_offset end_col_offset of
          Inl e \<Rightarrow> Inl e
        | Inr segment \<Rightarrow>
            if segment = [] then Inr None
            else case ops of
              [] \<Rightarrow> Inl IndexError
            | op # _ \<Rightarrow>
                (case map_of operator_tokens op of
                   None \<Rightarrow> Inr None
                 | Some original_op \<Rightarrow>
                     (case str_find segment original_op of
                        None \<Rightarrow> Inr None
                      | Some relative_idx \<Rightarrow>
                          let lines = splitlines_keepends code;
                              line_idx = lineno - 1;
                              start_col = col_offset + int relative_idx;
                              end_col = start_col + int (length original_op)
                          in case py_nth lines line_idx of
                               Inl e \<Rightarrow> Inl e
                             | Inr line \<Rightarrow>
                                 map_sum id (Some \<circ> concat)
                                   (py_list_set lines line_idx
                                      (py_take start_col line @ new_op_text @ py_drop end_col line)))))"

definition set_add :: "'a \<Rightarrow> 'a list \<Rightarrow> 'a list" where
  "set_add x xs = (if x \<in> set xs then xs else xs @ [x])"

fun patch_loop ::
    "string \<Rightarrow> int list \<Rightarrow> int \<Rightarrow> string list \<Rightarrow> pyast list \<Rightarrow> py_error + string list" where
  "patch_loop code line_filter max_candidates candidates [] = Inr candidates"
| "patch_loop code line_filter max_candidates candidates (Compare loc l [op] cs # nodes) =
     (if fst loc \<notin> set line_filter then patch_loop code line_filter max_candidates candidates nodes
      else case map_of OPERATOR_SWAPS op of
        None \<Rightarrow> patch_loop code line_filter max_candidates candidates nodes
      | Some replacement \<Rightarrow>
          (case replace_operator code loc [op] replacement of
             Inl e \<Rightarrow> Inl e
           | Inr candidate \<Rightarrow>
               let candidates' =
                     (case candidate of
                        None \<Rightarrow> candidates
                      | Some c \<Rightarrow> if c \<noteq> [] \<and> c \<noteq> code then set_add c candidates else candidates)
               in if max_candidates \<le> int (length candidates') then Inr candidates'
                  else patch_loop code line_filter max_candidates candidates' nodes))"
| "patch_loop code line_filter max_candidates candidates (node # nodes) =
     patch_loop code line_filter max_candidates candidates nodes"

definition generate_targeted_patches ::
    "(string \<Rightarrow> py_error + pyast) \<Rightarrow> (string list \<Rightarrow> string list) \<Rightarrow> string \<Rightarrow> int list \<Rightarrow> int
       \<Rightarrow> py_error + string list" where
  "generate_targeted_patches parse set_order code suspicious_lines max_candidates =
     (case parse code of
        Inl e \<Rightarrow> Inl e
      | Inr tree \<Rightarrow>
          map_sum id set_order (patch_loop code suspicious_lines max_candidates [] (ast_walk tree)))"

section \<open>One replacement edits one operator\<close>

text \<open>
  \<open>edits_comparison code loc op new c\<close>: \<open>c\<close> is \<open>code\<close> with one line changed, the one the location
  \<open>loc\<close> names; in it one occurrence of the token of \<open>op\<close> has become \<open>new\<close>, namely the first one that
  starts in the columns of \<open>loc\<close>, and it also ends there.
\<close>

definition edits_comparison :: "string \<Rightarrow> location \<Rightarrow> cmpop \<Rightarrow> string \<Rightarrow> string \<Rightarrow> bool" where
  "edits_comparison code loc op new c \<longleftrightarrow> (case loc of (lineno, col, end_lineno, end_col) \<Rightarrow>
     let lines = splitlines_keepends code; j = nat (lineno - 1)
     in end_lineno = lineno \<and> 1 \<le> lineno \<and> j < length lines
      \<and> (\<exists>tok front back. map_of operator_tokens op = Some tok \<and> lines ! j = front @ tok @ back
          \<and> nat col \<le> length front \<and> length front + length tok \<le> nat end_col
          \<and> (\<forall>q. nat col \<le> q \<and> q < length front \<longrightarrow> take (length tok) (drop q (lines ! j)) \<noteq> tok)
          \<and> c = concat (take j lines) @ (front @ new @ back) @ concat (drop (Suc j) lines)))"

definition nonneg_location :: "location \<Rightarrow> bool" where
  "nonneg_location loc \<longleftrightarrow> (case loc of (lineno, col, end_lineno, end_col) \<Rightarrow> 1 \<le> lineno \<and> 0 \<le> col \<and> 0 \<le> end_col)"

lemma get_source_segment_ascii:
  assumes "ascii code" and "0 \<le> col" and "0 \<le> end_col"
    and "get_source_segment code lineno col end_col = Inr segment"
  obtains j where "py_index (source_lines code) (lineno - 1) = Some j"
    and "segment = drop (nat col) (take (nat end_col) (source_lines code ! j))"
proof -
  obtain j where j: "py_index (source_lines code) (lineno - 1) = Some j"
    using assms(4) by (auto simp: get_source_segment_def py_nth_def split: option.splits)
  let ?line = "source_lines code ! j"
  have "?line \<in> set (source_lines code)"
    using py_index_bound [OF j] by simp
  then have "set ?line \<subseteq> set (concat (source_lines code))" by auto
  then have "ascii ?line"
    using assms(1) unfolding source_lines_def concat_split_lines by (auto simp: ascii_def)
  then have "utf8_encode ?line = ?line" "ascii (drop (nat col) (take (nat end_col) ?line))"
    by (simp_all add: utf8_encode_ascii ascii_drop ascii_take)
  then have "segment = drop (nat col) (take (nat end_col) ?line)"
    using assms j by (simp add: get_source_segment_def py_nth_def py_drop_def utf8_decode_ascii)
  with j show thesis by (rule that)
qed

lemma concat_list_update:
  "j < length xs \<Longrightarrow> concat (xs[j := v]) = concat (take j xs) @ v @ concat (drop (Suc j) xs)"
  by (simp add: upd_conv_take_nth_drop)

lemma concat_nth: "j < length xs \<Longrightarrow> concat xs = concat (take j xs) @ xs ! j @ concat (drop (Suc j) xs)"
  by (metis append_take_drop_id concat.simps(2) concat_append Cons_nth_drop_Suc)

lemma take_of_slice:
  assumes "take (length t) (drop p (take n ys)) = t"
  shows "take (length t) (drop p ys) = t"
proof (cases "p + length t \<le> n")
  case True
  then have "min (length t) (n - p) = length t" by arith
  with assms show ?thesis by (simp add: drop_take)
next
  case False
  have "length t = length (take (length t) (drop p (take n ys)))" using assms by simp
  then have "length t \<le> n - p" by simp
  with False have "length t = 0" by arith
  then show ?thesis by simp
qed

text \<open>A place in a part of a line is the same place in the line, where the token is found at all.\<close>

lemma found_in_line:
  assumes segment: "segment = drop a (take b line)" and i: "str_find segment tok = Some i" and "tok \<noteq> []"
  shows "line = take (a + i) line @ tok @ drop (a + i + length tok) line" and "a + i + length tok \<le> b"
    and "a + i \<le> length line"
    and "\<And>q. a \<le> q \<Longrightarrow> q < a + i \<Longrightarrow> take (length tok) (drop q line) \<noteq> tok"
proof -
  have found: "take (length tok) (drop i segment) = tok" "i + length tok \<le> length segment"
    using str_find_Some [OF i] by simp_all
  have drop_i: "drop i segment = drop (a + i) (take b line)" by (simp add: segment add.commute)
  with found have at: "take (length tok) (drop (a + i) line) = tok" by (metis take_of_slice)
  then show "line = take (a + i) line @ tok @ drop (a + i + length tok) line"
    by (metis append_take_drop_id drop_drop add.commute)
  show le: "a + i + length tok \<le> b" "a + i \<le> length line" using found(2) \<open>tok \<noteq> []\<close> [folded length_greater_0_conv] unfolding segment length_drop length_take by linarith+
  show "take (length tok) (drop q line) \<noteq> tok" if "a \<le> q" "q < a + i" for q
  proof
    assume "take (length tok) (drop q line) = tok"
    moreover have "take (length tok) (drop (q - a) segment) = take (length tok) (drop q line)"
      using that le by (simp add: segment drop_take min_absorb1)
    ultimately show False using str_find_first [OF i, of "q - a"] that by simp
  qed
qed

lemma operator_token_nonempty: "map_of operator_tokens op = Some tok \<Longrightarrow> tok \<noteq> []"
  by (cases op) (auto simp: operator_tokens_def)

lemma replace_operator_edits:
  assumes "ascii code" and "no_exotic_breaks code" and "nonneg_location loc"
    and result: "replace_operator code loc (op # ops) new = Inr (Some c)"
  shows "edits_comparison code loc op new c"
proof -
  obtain lineno col end_lineno end_col where loc: "loc = (lineno, col, end_lineno, end_col)"
    by (cases loc)
  have nn: "1 \<le> lineno" "0 \<le> col" "0 \<le> end_col" using assms(3) loc by (simp_all add: nonneg_location_def)
  obtain segment tok i where seg: "get_source_segment code lineno col end_col = Inr segment"
    and tok: "map_of operator_tokens op = Some tok" and i: "str_find segment tok = Some i" and one: "end_lineno = lineno"
    using result by (auto simp: replace_operator_def loc split: if_splits sum.splits option.splits)
  from get_source_segment_ascii [OF assms(1) nn(2,3) seg] obtain j
    where j: "py_index (splitlines_keepends code) (lineno - 1) = Some j"
      and s: "segment = drop (nat col) (take (nat end_col) (splitlines_keepends code ! j))"
    by (metis assms(2) splitlines_eq_source_lines)
  define lines line p where "lines = splitlines_keepends code"
    and "line = lines ! j" and "p = nat col + i"
  have jb: "j < length lines" using py_index_bound [OF j] by (simp add: lines_def)
  have jl: "nat (lineno - 1) = j" using j nn(1) by (auto simp: py_index_def Let_def split: if_splits)
  note line = found_in_line [OF s [folded lines_def, folded line_def] i operator_token_nonempty [OF tok], folded p_def]
  have "c = concat (lines[j := take p line @ new @ drop (p + length tok) line])"
  proof -
    have p: "nat (col + int i) = p" "nat (col + int i + int (length tok)) = p + length tok"
      using nn by (simp_all add: p_def nat_add_distrib)
    show ?thesis
      using result seg tok i j nn p
      by (auto simp: replace_operator_def loc py_nth_def py_list_set_def py_drop_def Let_def lines_def line_def
          split: if_splits)
  qed
  then have "c = concat (take j lines) @ (take p line @ new @ drop (p + length tok) line) @ concat (drop (Suc j) lines)"
    using jb by (simp add: concat_list_update)
  then show ?thesis
    unfolding edits_comparison_def loc prod.case Let_def jl lines_def [symmetric]
    using one nn(1) jb tok line
    by (intro conjI exI [of _ tok] exI [of _ "take p line"] exI [of _ "drop (p + length tok) line"])
      (simp_all add: line_def [symmetric] p_def)
qed

section \<open>The candidates\<close>

lemma set_set_add [simp]: "set (set_add x xs) = insert x (set xs)"
  by (auto simp: set_add_def)

lemma distinct_set_add [simp]: "distinct xs \<Longrightarrow> distinct (set_add x xs)"
  by (auto simp: set_add_def)

lemma length_set_add: "length (set_add x xs) \<le> Suc (length xs)"
  by (simp add: set_add_def)

text \<open>\<open>patch_of code lines node c\<close>: the loop would add \<open>c\<close> to the candidates for \<open>node\<close>.\<close>

inductive patch_of :: "string \<Rightarrow> int list \<Rightarrow> pyast \<Rightarrow> string \<Rightarrow> bool" where
  "fst loc \<in> set lines \<Longrightarrow> map_of OPERATOR_SWAPS op = Some new
   \<Longrightarrow> replace_operator code loc [op] new = Inr (Some c) \<Longrightarrow> c \<noteq> [] \<Longrightarrow> c \<noteq> code
   \<Longrightarrow> patch_of code lines (Compare loc l [op] cs) c"

inductive_cases patch_of_Compare: "patch_of code lines (Compare loc l [op] cs) c"
inductive_cases patch_of_any: "patch_of code lines node c"

definition add_candidate :: "string \<Rightarrow> string list \<Rightarrow> string option \<Rightarrow> string list" where
  "add_candidate code candidates candidate =
     (case candidate of
        None \<Rightarrow> candidates
      | Some c \<Rightarrow> if c \<noteq> [] \<and> c \<noteq> code then set_add c candidates else candidates)"

lemma patch_loop_cases:
  assumes "patch_loop code lines k cands (n # ns) = Inr cs"
  obtains (skip) "patch_loop code lines k cands ns = Inr cs" and "\<And>c. \<not> patch_of code lines n c"
  | (tried) loc l op rest new r where "n = Compare loc l [op] rest" and "fst loc \<in> set lines"
      and "map_of OPERATOR_SWAPS op = Some new" and "replace_operator code loc [op] new = Inr r"
      and "if k \<le> int (length (add_candidate code cands r)) then cs = add_candidate code cands r
           else patch_loop code lines k (add_candidate code cands r) ns = Inr cs"
proof (cases "\<exists>loc l op rest. n = Compare loc l [op] rest")
  case False
  then have "patch_loop code lines k cands ns = Inr cs"
    using assms by (cases "(code, lines, k, cands, n # ns)" rule: patch_loop.cases) auto
  moreover have "\<not> patch_of code lines n c" for c
    using False by (auto elim: patch_of_any)
  ultimately show thesis by (rule skip)
next
  case True
  then obtain loc l op rest where n: "n = Compare loc l [op] rest" by blast
  show thesis
  proof (cases "fst loc \<in> set lines \<and> map_of OPERATOR_SWAPS op \<noteq> None")
    case False
    then have "patch_loop code lines k cands ns = Inr cs"
      using assms by (auto simp: n split: if_splits)
    moreover have "\<not> patch_of code lines n c" for c
      using False by (auto simp: n elim: patch_of_Compare)
    ultimately show thesis by (rule skip)
  next
    case True
    then obtain new where new: "map_of OPERATOR_SWAPS op = Some new" and line: "fst loc \<in> set lines" by auto
    obtain r where r: "replace_operator code loc [op] new = Inr r"
      using assms new line by (cases "replace_operator code loc [op] new") (auto simp: n)
    show thesis
      using assms new line r
      by (intro tried [OF n line new r]) (simp add: n add_candidate_def Let_def split: if_splits)
  qed
qed

lemma set_add_candidate:
  assumes "n = Compare loc l [op] rest" "fst loc \<in> set lines" "map_of OPERATOR_SWAPS op = Some new"
    "replace_operator code loc [op] new = Inr r"
  shows "set (add_candidate code cands r) = set cands \<union> {c. patch_of code lines n c}"
  using assms
  by (auto simp: add_candidate_def split: option.splits intro: patch_of.intros elim: patch_of_Compare)

lemma patch_loop_sound:
  "patch_loop code lines k cands ns = Inr cs \<Longrightarrow> c \<in> set cs
   \<Longrightarrow> c \<in> set cands \<or> (\<exists>n \<in> set ns. patch_of code lines n c)"
proof (induction ns arbitrary: cands)
  case Nil
  then show ?case by simp
next
  case (Cons n ns)
  from Cons.prems(1) show ?case
  proof (cases rule: patch_loop_cases)
    case skip
    with Cons.IH [OF skip(1) Cons.prems(2)] show ?thesis by auto
  next
    case (tried loc l op rest new r)
    note add = set_add_candidate [OF tried(1-4), of cands]
    show ?thesis
      using Cons.IH [of "add_candidate code cands r"] Cons.prems(2) tried(5) add
      by (auto split: if_splits)
  qed
qed

lemma patch_loop_complete:
  "patch_loop code lines k cands ns = Inr cs \<Longrightarrow> int (length cs) < k
   \<Longrightarrow> c \<in> set cands \<or> (\<exists>n \<in> set ns. patch_of code lines n c) \<Longrightarrow> c \<in> set cs"
proof (induction ns arbitrary: cands)
  case Nil
  then show ?case by simp
next
  case (Cons n ns)
  from Cons.prems(1) show ?case
  proof (cases rule: patch_loop_cases)
    case skip
    then have "c \<in> set cands \<or> (\<exists>n \<in> set ns. patch_of code lines n c)"
      using Cons.prems(3) by auto
    with Cons.IH [OF skip(1) Cons.prems(2)] show ?thesis .
  next
    case (tried loc l op rest new r)
    then have "patch_loop code lines k (add_candidate code cands r) ns = Inr cs"
      using Cons.prems(2) by (auto split: if_splits)
    moreover have "c \<in> set (add_candidate code cands r) \<or> (\<exists>n \<in> set ns. patch_of code lines n c)"
      using Cons.prems(3) set_add_candidate [OF tried(1-4), of cands] by auto
    ultimately show ?thesis
      using Cons.IH Cons.prems(2) by blast
  qed
qed

lemma patch_loop_bounded:
  "patch_loop code lines k cands ns = Inr cs \<Longrightarrow> distinct cands \<Longrightarrow> length cands < max 1 (nat k)
   \<Longrightarrow> distinct cs \<and> length cs \<le> max 1 (nat k)"
proof (induction ns arbitrary: cands)
  case Nil
  then show ?case by simp
next
  case (Cons n ns)
  from Cons.prems(1) show ?case
  proof (cases rule: patch_loop_cases)
    case skip
    with Cons show ?thesis by blast
  next
    case (tried loc l op rest new r)
    let ?cands = "add_candidate code cands r"
    have d: "distinct ?cands" "length ?cands \<le> Suc (length cands)"
      using Cons.prems(2) by (auto simp: add_candidate_def length_set_add split: option.splits)
    show ?thesis
    proof (cases "k \<le> int (length ?cands)")
      case True
      with tried(5) d Cons.prems(3) show ?thesis by auto
    next
      case False
      then have "length ?cands < max 1 (nat k)" by linarith
      with False tried(5) Cons.IH [of ?cands] d show ?thesis by auto
    qed
  qed
qed

lemma generate_targeted_patches_cases:
  assumes "generate_targeted_patches parse set_order code lines k = Inr cs"
  obtains tree cands where "parse code = Inr tree" and "patch_loop code lines k [] (ast_walk tree) = Inr cands"
    and "cs = set_order cands"
  using assms
  by (cases "parse code"; cases "patch_loop code lines k [] (ast_walk (projr (parse code)))")
    (auto simp: generate_targeted_patches_def)

text \<open>
  C25. Every candidate the patcher offers differs from the source in one line only, which is a
  suspicious one and the line of a two-operand comparison of the tree; in that line one occurrence
  of the comparison's operator token, the first one within the columns of the comparison, has been
  exchanged for the token that the swap table names. (Where the left operand holds the same
  characters, as in \<open>a >> b > c\<close>, this first occurrence is not the operator itself: see
  \<open>shift_is_edited_for_the_comparison\<close>.) The source is ASCII without form feeds and other breaks the
  tokeniser does not know, and the parser numbers lines from 1 and columns from 0.
\<close>

theorem patches_exchange_one_operator:
  assumes "ascii code" and "no_exotic_breaks code" and "parse code = Inr tree"
    and "\<forall>loc l ops cs. occurs tree (Compare loc l ops cs) \<longrightarrow> nonneg_location loc"
    and "\<forall>xs. set (set_order xs) = set xs"
    and "generate_targeted_patches parse set_order code suspicious_lines k = Inr candidates"
    and "c \<in> set candidates"
  shows "c \<noteq> code \<and> (\<exists>loc l op cs new. occurs tree (Compare loc l [op] cs) \<and> fst loc \<in> set suspicious_lines
    \<and> map_of OPERATOR_SWAPS op = Some new \<and> edits_comparison code loc op new c)"
proof -
  obtain cands where loop: "patch_loop code suspicious_lines k [] (ast_walk tree) = Inr cands"
    and "c \<in> set cands"
    using generate_targeted_patches_cases [OF assms(6)] assms(3,5,7) by (metis sum.inject(2))
  then obtain n where n: "occurs tree n" and "patch_of code suspicious_lines n c"
    using patch_loop_sound [OF loop] by (auto simp: set_ast_walk)
  from this(2) show ?thesis
  proof (cases rule: patch_of.cases)
    case (1 loc op new l cs)
    then have "edits_comparison code loc op new c"
      using replace_operator_edits [OF assms(1,2)] assms(4) n by blast
    with 1 n show ?thesis by blast
  qed
qed

definition less_tree :: pyast where
  "less_tree = Node ''Module'' [Node ''Expr'' [Compare (1, 0, 1, 5) (Name ''a'') [Lt] [Name ''b'']]]"

definition less_parse :: "string \<Rightarrow> py_error + pyast" where
  "less_parse code = (if code = ''a < b'' then Inr less_tree else Inl SyntaxError)"

lemma occurs_less_tree: "occurs less_tree n \<longleftrightarrow> n \<in> set (ast_walk less_tree)"
  by (simp add: set_ast_walk)

lemma less_tree_walk: "ast_walk less_tree =
    [less_tree, Node ''Expr'' [Compare (1, 0, 1, 5) (Name ''a'') [Lt] [Name ''b'']],
     Compare (1, 0, 1, 5) (Name ''a'') [Lt] [Name ''b''], Name ''a'', Name ''b'']"
  by (simp add: ast_walk_def less_tree_def)

lemma less_patches:
  "generate_targeted_patches less_parse id ''a < b'' [1] 4 = Inr [''a <= b'']"
  unfolding generate_targeted_patches_def less_parse_def
  by (simp add: less_tree_walk less_tree_def) code_simp

theorem patches_exchange_one_operator_witness:
  "\<exists>loc l op cs new. occurs less_tree (Compare loc l [op] cs) \<and> fst loc = 1 \<and> map_of OPERATOR_SWAPS op = Some new
     \<and> edits_comparison ''a < b'' loc op new ''a <= b''"
proof -
  have "\<forall>loc l ops cs. occurs less_tree (Compare loc l ops cs) \<longrightarrow> nonneg_location loc"
    by (simp add: occurs_less_tree less_tree_walk) (simp add: less_tree_def nonneg_location_def)
  moreover have "ascii ''a < b''" "no_exotic_breaks ''a < b''" by code_simp+
  moreover have "less_parse ''a < b'' = Inr less_tree" by (simp add: less_parse_def)
  ultimately have "''a <= b'' \<noteq> ''a < b'' \<and> (\<exists>loc l op cs new. occurs less_tree (Compare loc l [op] cs)
      \<and> fst loc \<in> set [1] \<and> map_of OPERATOR_SWAPS op = Some new \<and> edits_comparison ''a < b'' loc op new ''a <= b'')"
    by (intro patches_exchange_one_operator [where set_order = id, OF _ _ _ _ _ less_patches]) simp_all
  then show ?thesis by simp
qed

text \<open>
  C34. The patcher offers at most the requested number of candidates (one when none are asked
  for), without repetition; when it offers fewer it has tried every comparison it handles, and
  every differing rewrite of a suspicious one is among them.
\<close>

theorem patches_bounded_and_complete:
  assumes "parse code = Inr tree" and "\<forall>xs. mset (set_order xs) = mset xs"
    and "generate_targeted_patches parse set_order code suspicious_lines k = Inr candidates"
  shows "distinct candidates \<and> length candidates \<le> max 1 (nat k)
    \<and> (int (length candidates) < k \<longrightarrow>
        set candidates = {c. \<exists>n. occurs tree n \<and> patch_of code suspicious_lines n c})"
proof -
  obtain cands where loop: "patch_loop code suspicious_lines k [] (ast_walk tree) = Inr cands"
    and c: "candidates = set_order cands"
    using generate_targeted_patches_cases [OF assms(3)] assms(1) by (metis sum.inject(2))
  have same: "set candidates = set cands" "length candidates = length cands" "distinct candidates = distinct cands"
    using assms(2) c by (metis set_mset_mset, metis size_mset, metis mset_eq_imp_distinct_iff)
  have "int (length cands) < k \<Longrightarrow> set cands = {c. \<exists>n. occurs tree n \<and> patch_of code suspicious_lines n c}"
    using patch_loop_sound [OF loop] patch_loop_complete [OF loop] by (auto simp: set_ast_walk)
  moreover have "distinct cands \<and> length cands \<le> max 1 (nat k)"
    by (rule patch_loop_bounded [OF loop]) simp_all
  ultimately show ?thesis using same by simp
qed

theorem patches_bounded_and_complete_witness:
  "{c. \<exists>n. occurs less_tree n \<and> patch_of ''a < b'' [1] n c} = {''a <= b''}"
  using patches_bounded_and_complete [OF _ _ less_patches, of less_tree] by (simp add: less_parse_def)

section \<open>Where the operator is looked for\<close>

lemma split_lines_single:
  "\<forall>c \<in> set s. \<not> brk c \<and> code_point c \<noteq> 13 \<Longrightarrow> s \<noteq> [] \<Longrightarrow> split_lines brk cur s = [rev cur @ s]"
  by (induction brk cur s rule: split_lines.induct) (auto split: if_splits)

lemma str_find_skip:
  "t \<noteq> [] \<Longrightarrow> hd t \<notin> set l \<Longrightarrow> str_find (l @ t @ r) t = Some (length l)"
proof (induction l)
  case Nil
  then have "is_prefix t (t @ r)" by (simp add: is_prefix_iff)
  with Nil show ?case by (cases t) auto
next
  case (Cons a l)
  then have "\<not> is_prefix t (a # l @ t @ r)" by (cases t) auto
  with Cons show ?case by simp
qed

text \<open>
  The operator is searched in the text of the whole comparison: in \<open>l >> m > r\<close> the first
  \<open>>\<close> belongs to the shift, so the candidate is \<open>l >=> m > r\<close>, which is no expression.
\<close>

theorem shift_is_edited_for_the_comparison:
  assumes "code = l @ ''>>'' @ m @ ''>'' @ r" and "CHR ''>'' \<notin> set l"
    and "\<forall>c \<in> set code. 32 \<le> code_point c \<and> code_point c < 128"
  shows "replace_operator code (1, 0, 1, int (length code)) [Gt] ''>='' = Inr (Some (l @ ''>=>'' @ m @ ''>'' @ r))"
proof -
  have a: "ascii code" using assms(3) by (auto simp: ascii_def)
  have ne: "code \<noteq> []" using assms(1) by simp
  have src: "source_lines code = [code]" "splitlines_keepends code = [code]"
    unfolding source_lines_def splitlines_keepends_def
    by (subst split_lines_single; use assms(3) ne in \<open>force simp: is_source_break_def is_str_break_def\<close>)+
  have "get_source_segment code 1 0 (int (length code)) = Inr code"
    using a by (simp add: get_source_segment_def src py_nth_def py_index_def py_drop_def utf8_encode_ascii utf8_decode_ascii)
  moreover have "str_find code ''>'' = Some (length l)"
    using str_find_skip [of "''>''" l "''>'' @ m @ ''>'' @ r"] assms(1,2) by simp
  ultimately have "replace_operator code (1, 0, 1, int (length code)) [Gt] ''>='' =
      Inr (Some (take (length l) code @ ''>='' @ drop (Suc (length l)) code))"
    using ne src by (simp add: replace_operator_def operator_tokens_def py_nth_def py_list_set_def
        py_index_def py_drop_def nat_add_distrib Let_def)
  then show ?thesis by (simp add: assms(1))
qed

theorem shift_is_edited_for_the_comparison_witness:
  "replace_operator ''a >> b > c'' (1, 0, 1, 10) [Gt] ''>='' = Inr (Some ''a >=> b > c'')"
  using shift_is_edited_for_the_comparison [of "''a >> b > c''" "''a ''" "'' b ''" "'' c''"] by simp

text \<open>
  Columns of the tree count bytes, the patcher applies them to characters: after one two-byte
  character on the line the token is written one character too far to the right.
\<close>

theorem wide_character_shifts_the_edit:
  assumes "192 \<le> code_point c" and "code_point c < 256"
  shows "replace_operator (c # ''=b<1'') (1, 3, 1, 6) [Lt] ''<='' = Inr (Some (c # ''=b<<=''))"
proof -
  have brk: "\<not> is_source_break c" "\<not> is_str_break c" "code_point c \<noteq> 13"
    using assms(1) by (auto simp: is_source_break_def is_str_break_def)
  have src: "source_lines (c # ''=b<1'') = [c # ''=b<1'']" "splitlines_keepends (c # ''=b<1'') = [c # ''=b<1'']"
    unfolding source_lines_def splitlines_keepends_def using brk
    by (auto simp: split_lines_single is_source_break_def is_str_break_def)
  have "utf8_encode (c # ''=b<1'') = char_of (192 + code_point c div 64) # char_of (128 + code_point c mod 64) # ''=b<1''"
    using assms(1) by (simp add: utf8_encode_def utf8_char_def)
  then have "get_source_segment (c # ''=b<1'') 1 3 6 = Inr ''b<1''"
    by (simp add: get_source_segment_def src py_nth_def py_index_def py_drop_def)
  then show ?thesis
    by (simp add: replace_operator_def operator_tokens_def src py_nth_def py_list_set_def py_index_def py_drop_def)
qed

theorem wide_character_shifts_the_edit_witness:
  "replace_operator (CHR 0xE9 # ''=b<1'') (1, 3, 1, 6) [Lt] ''<='' = Inr (Some (CHR 0xE9 # ''=b<<=''))"
  using wide_character_shifts_the_edit [of "CHR 0xE9"] by simp

end
