(* ===== verification/SmtOracle.thy ===== *)
theory SmtOracle
  imports Patcher
begin

text \<open>
  The equivalence oracle (\<open>smt_oracle.py\<close>). Z3 is the parameter \<open>z3\<close>, a record of the calls the
  oracle makes: an operator that raises is None. What the oracle relies on of Z3 is \<open>z3_laws\<close>:
  an operator that succeeds denotes the operation, booleans counting as 0 and 1 where an integer
  is expected, and a solver that answers unsat is right. The parser in its two modes is a
  parameter.
\<close>

section \<open>The solver's interface\<close>

record 'e z3_api =
  z_int :: "string \<Rightarrow> 'e"
  z_bool_val :: "bool \<Rightarrow> 'e"
  z_int_val :: "int \<Rightarrow> 'e"
  z_neg :: "'e \<Rightarrow> 'e option"
  z_add :: "'e \<Rightarrow> 'e \<Rightarrow> 'e option"
  z_sub :: "'e \<Rightarrow> 'e \<Rightarrow> 'e option"
  z_lt :: "'e \<Rightarrow> 'e \<Rightarrow> 'e option"
  z_le :: "'e \<Rightarrow> 'e \<Rightarrow> 'e option"
  z_gt :: "'e \<Rightarrow> 'e \<Rightarrow> 'e option"
  z_ge :: "'e \<Rightarrow> 'e \<Rightarrow> 'e option"
  z_eq :: "'e \<Rightarrow> 'e \<Rightarrow> 'e option"
  z_ne :: "'e \<Rightarrow> 'e \<Rightarrow> 'e option"
  z_unsat :: "'e \<Rightarrow> bool"

text \<open>\<open>value \<rho> e\<close> is the integer that the term \<open>e\<close> denotes, a boolean term denoting 0 or 1.\<close>

definition z3_laws :: "'e z3_api \<Rightarrow> ((string \<Rightarrow> int) \<Rightarrow> 'e \<Rightarrow> int) \<Rightarrow> bool" where
  "z3_laws z3 val \<longleftrightarrow>
     (\<forall>\<rho> x. val \<rho> (z_int z3 x) = \<rho> x) \<and> (\<forall>\<rho> b. val \<rho> (z_bool_val z3 b) = of_bool b)
   \<and> (\<forall>\<rho> i. val \<rho> (z_int_val z3 i) = i)
   \<and> (\<forall>\<rho> a e. z_neg z3 a = Some e \<longrightarrow> val \<rho> e = - val \<rho> a)
   \<and> (\<forall>\<rho> a b e. z_add z3 a b = Some e \<longrightarrow> val \<rho> e = val \<rho> a + val \<rho> b)
   \<and> (\<forall>\<rho> a b e. z_sub z3 a b = Some e \<longrightarrow> val \<rho> e = val \<rho> a - val \<rho> b)
   \<and> (\<forall>\<rho> a b e. z_lt z3 a b = Some e \<longrightarrow> val \<rho> e = of_bool (val \<rho> a < val \<rho> b))
   \<and> (\<forall>\<rho> a b e. z_le z3 a b = Some e \<longrightarrow> val \<rho> e = of_bool (val \<rho> a \<le> val \<rho> b))
   \<and> (\<forall>\<rho> a b e. z_gt z3 a b = Some e \<longrightarrow> val \<rho> e = of_bool (val \<rho> a > val \<rho> b))
   \<and> (\<forall>\<rho> a b e. z_ge z3 a b = Some e \<longrightarrow> val \<rho> e = of_bool (val \<rho> a \<ge> val \<rho> b))
   \<and> (\<forall>\<rho> a b e. z_eq z3 a b = Some e \<longrightarrow> val \<rho> e = of_bool (val \<rho> a = val \<rho> b))
   \<and> (\<forall>\<rho> a b e. z_ne z3 a b = Some e \<longrightarrow> val \<rho> e = of_bool (val \<rho> a \<noteq> val \<rho> b))
   \<and> (\<forall>\<rho> e. z_unsat z3 e \<longrightarrow> val \<rho> e = 0)"

section \<open>Translation of an expression\<close>

definition get_symbol :: "'e z3_api \<Rightarrow> (string \<times> 'e) list \<Rightarrow> string \<Rightarrow> 'e \<times> (string \<times> 'e) list" where
  "get_symbol z3 symbols name =
     (case map_of symbols name of
        Some e \<Rightarrow> (e, symbols)
      | None \<Rightarrow> (z_int z3 name, dict_set name (z_int z3 name) symbols))"

fun compare_op :: "'e z3_api \<Rightarrow> cmpop \<Rightarrow> ('e \<Rightarrow> 'e \<Rightarrow> 'e option) option" where
  "compare_op z3 Lt = Some (z_lt z3)"
| "compare_op z3 LtE = Some (z_le z3)"
| "compare_op z3 Gt = Some (z_gt z3)"
| "compare_op z3 GtE = Some (z_ge z3)"
| "compare_op z3 Eq = Some (z_eq z3)"
| "compare_op z3 NotEq = Some (z_ne z3)"
| "compare_op z3 _ = None"

fun binary_op :: "'e z3_api \<Rightarrow> operator \<Rightarrow> ('e \<Rightarrow> 'e \<Rightarrow> 'e option) option" where
  "binary_op z3 Add = Some (z_add z3)"
| "binary_op z3 Sub = Some (z_sub z3)"
| "binary_op z3 (BOther name) = None"

definition apply_op :: "('e \<Rightarrow> 'e \<Rightarrow> 'e option) option \<Rightarrow> 'e \<Rightarrow> 'e \<Rightarrow> 'e option" where
  "apply_op f a b = Option.bind f (\<lambda>g. g a b)"

text \<open>None where the code raises; the caller catches whatever is raised.\<close>

fun ast_to_z3 :: "'e z3_api \<Rightarrow> pyast \<Rightarrow> (string \<times> 'e) list \<Rightarrow> ('e \<times> (string \<times> 'e) list) option" where
  "ast_to_z3 z3 (Name x) symbols = Some (get_symbol z3 symbols x)"
| "ast_to_z3 z3 (Constant (CBool b)) symbols = Some (z_bool_val z3 b, symbols)"
| "ast_to_z3 z3 (Constant (CInt i)) symbols = Some (z_int_val z3 i, symbols)"
| "ast_to_z3 z3 (UnaryOp USub operand) symbols =
     (case ast_to_z3 z3 operand symbols of
        None \<Rightarrow> None
      | Some (e, symbols') \<Rightarrow> map_option (\<lambda>r. (r, symbols')) (z_neg z3 e))"
| "ast_to_z3 z3 (BinOp l op r) symbols =
     (case ast_to_z3 z3 l symbols of
        None \<Rightarrow> None
      | Some (left, symbols') \<Rightarrow>
          (case ast_to_z3 z3 r symbols' of
             None \<Rightarrow> None
           | Some (right, symbols'') \<Rightarrow>
               map_option (\<lambda>e. (e, symbols'')) (apply_op (binary_op z3 op) left right)))"
| "ast_to_z3 z3 (Compare loc l [op] [r]) symbols =
     (case ast_to_z3 z3 l symbols of
        None \<Rightarrow> None
      | Some (left, symbols') \<Rightarrow>
          (case ast_to_z3 z3 r symbols' of
             None \<Rightarrow> None
           | Some (right, symbols'') \<Rightarrow>
               map_option (\<lambda>e. (e, symbols'')) (apply_op (compare_op z3 op) left right)))"
| "ast_to_z3 z3 _ symbols = None"

section \<open>The comparison that changed\<close>

definition comparison_nodes :: "pyast \<Rightarrow> (location \<times> pyast) list" where
  "comparison_nodes tree =
     foldl (\<lambda>items node. case node of Compare loc l ops cs \<Rightarrow> dict_set loc node items | _ \<Rightarrow> items)
       [] (ast_walk tree)"

definition oracle_parse ::
    "(string \<Rightarrow> py_error + pyast) \<Rightarrow> (string \<Rightarrow> py_error + pyast) \<Rightarrow> string \<Rightarrow> py_error + pyast" where
  "oracle_parse parse parse_eval code =
     (case parse code of Inl SyntaxError \<Rightarrow> parse_eval code | r \<Rightarrow> r)"

definition changed_comparison ::
    "(string \<Rightarrow> py_error + pyast) \<Rightarrow> (string \<Rightarrow> py_error + pyast) \<Rightarrow> string \<Rightarrow> string
       \<Rightarrow> py_error + (pyast \<times> pyast) option" where
  "changed_comparison parse parse_eval orig_code mut_code =
     (case oracle_parse parse parse_eval orig_code of
        Inl e \<Rightarrow> Inl e
      | Inr orig_tree \<Rightarrow>
          (case oracle_parse parse parse_eval mut_code of
             Inl e \<Rightarrow> Inl e
           | Inr mut_tree \<Rightarrow>
               let orig_nodes = comparison_nodes orig_tree;
                   mut_nodes = comparison_nodes mut_tree;
                   common = sorted_list_of_set
                     (set (filter (\<lambda>k. k \<in> set (dict_keys mut_nodes)) (dict_keys orig_nodes)));
                   node_at = (\<lambda>nodes location. the (map_of nodes location))
               in Inr (map_option (\<lambda>location. (node_at orig_nodes location, node_at mut_nodes location))
                    (find (\<lambda>location. \<not> dump_eq (node_at orig_nodes location) (node_at mut_nodes location)) common))))"

definition is_semantically_equivalent ::
    "(string \<Rightarrow> py_error + pyast) \<Rightarrow> (string \<Rightarrow> py_error + pyast) \<Rightarrow> 'e z3_api \<Rightarrow> string \<Rightarrow> string
       \<Rightarrow> py_error + bool" where
  "is_semantically_equivalent parse parse_eval z3 orig_code mut_code =
     (if py_strip orig_code = py_strip mut_code then Inr True
      else case changed_comparison parse parse_eval orig_code mut_code of
        Inl e \<Rightarrow> Inl e
      | Inr None \<Rightarrow> Inr False
      | Inr (Some (original, mutated)) \<Rightarrow>
          (case ast_to_z3 z3 original [] of
             None \<Rightarrow> Inr False
           | Some (z3_original, symbols) \<Rightarrow>
               (case ast_to_z3 z3 mutated symbols of
                  None \<Rightarrow> Inr False
                | Some (z3_mutated, symbols') \<Rightarrow>
                    (case z_ne z3 z3_original z3_mutated of
                       None \<Rightarrow> Inl (RuntimeError ''z3'')
                     | Some e \<Rightarrow> Inr (z_unsat z3 e)))))"

section \<open>Meaning of the translated expressions\<close>

text \<open>The value Python computes when every name is bound to an integer; True and False are 1 and 0.\<close>

fun compare_value :: "cmpop \<Rightarrow> int \<Rightarrow> int \<Rightarrow> bool option" where
  "compare_value Lt a b = Some (a < b)"
| "compare_value LtE a b = Some (a \<le> b)"
| "compare_value Gt a b = Some (a > b)"
| "compare_value GtE a b = Some (a \<ge> b)"
| "compare_value Eq a b = Some (a = b)"
| "compare_value NotEq a b = Some (a \<noteq> b)"
| "compare_value _ a b = None"

fun binary_value :: "operator \<Rightarrow> int \<Rightarrow> int \<Rightarrow> int option" where
  "binary_value Add a b = Some (a + b)"
| "binary_value Sub a b = Some (a - b)"
| "binary_value (BOther name) a b = None"

fun py_value :: "(string \<Rightarrow> int) \<Rightarrow> pyast \<Rightarrow> int option" where
  "py_value \<rho> (Name x) = Some (\<rho> x)"
| "py_value \<rho> (Constant (CBool b)) = Some (of_bool b)"
| "py_value \<rho> (Constant (CInt i)) = Some i"
| "py_value \<rho> (UnaryOp USub e) = map_option uminus (py_value \<rho> e)"
| "py_value \<rho> (BinOp l op r) =
     Option.bind (py_value \<rho> l) (\<lambda>a. Option.bind (py_value \<rho> r) (\<lambda>b. binary_value op a b))"
| "py_value \<rho> (Compare loc l [op] [r]) =
     Option.bind (py_value \<rho> l) (\<lambda>a. Option.bind (py_value \<rho> r) (\<lambda>b. map_option of_bool (compare_value op a b)))"
| "py_value \<rho> _ = None"

definition symbols_ok :: "'e z3_api \<Rightarrow> (string \<times> 'e) list \<Rightarrow> bool" where
  "symbols_ok z3 symbols \<longleftrightarrow> (\<forall>x e. map_of symbols x = Some e \<longrightarrow> e = z_int z3 x)"

lemma symbols_ok_Nil [simp]: "symbols_ok z3 []"
  by (simp add: symbols_ok_def)

lemma get_symbol_ok:
  "symbols_ok z3 symbols \<Longrightarrow> get_symbol z3 symbols x = (e, symbols') \<Longrightarrow> e = z_int z3 x \<and> symbols_ok z3 symbols'"
  by (auto simp: get_symbol_def symbols_ok_def split: option.splits if_splits)

lemma compare_op_value:
  "z3_laws z3 val \<Longrightarrow> apply_op (compare_op z3 op) a b = Some e
   \<Longrightarrow> Some (val \<rho> e) = map_option of_bool (compare_value op (val \<rho> a) (val \<rho> b))"
  unfolding z3_laws_def apply_op_def by (cases op) simp_all

lemma binary_op_value:
  "z3_laws z3 val \<Longrightarrow> apply_op (binary_op z3 op) a b = Some e
   \<Longrightarrow> Some (val \<rho> e) = binary_value op (val \<rho> a) (val \<rho> b)"
  unfolding z3_laws_def apply_op_def by (cases op) simp_all

lemma ast_to_z3_value:
  "ast_to_z3 z3 node symbols = Some (e, symbols') \<Longrightarrow> z3_laws z3 val \<Longrightarrow> symbols_ok z3 symbols
    \<Longrightarrow> symbols_ok z3 symbols' \<and> (\<forall>\<rho>. py_value \<rho> node = Some (val \<rho> e))"
proof (induction z3 node symbols arbitrary: e symbols' rule: ast_to_z3.induct)
  case (1 z3 x symbols)
  then show ?case
    using get_symbol_ok [of z3 symbols x] by (simp add: z3_laws_def)
next
  case (4 z3 operand symbols)
  from "4.prems"(1) obtain a s where a: "ast_to_z3 z3 operand symbols = Some (a, s)" "z_neg z3 a = Some e" "symbols' = s"
    by (auto split: option.splits)
  have "val \<rho> e = - val \<rho> a" for \<rho>
    using "4.prems"(2) a(2) by (simp add: z3_laws_def)
  with "4.IH" [OF a(1) "4.prems"(2,3)] a(3) show ?case by simp
next
  case (5 z3 l op r symbols)
  from "5.prems"(1) obtain a s b s' where ab: "ast_to_z3 z3 l symbols = Some (a, s)"
    "ast_to_z3 z3 r s = Some (b, s')" "apply_op (binary_op z3 op) a b = Some e" "symbols' = s'"
    by (auto split: option.splits)
  note l = "5.IH"(1) [OF ab(1) "5.prems"(2,3)]
  note r = "5.IH"(2) [OF ab(1) refl ab(2) "5.prems"(2) conjunct1 [OF l]]
  show ?case
    using l r ab(4) binary_op_value [OF "5.prems"(2) ab(3)] by simp
next
  case (6 z3 loc l op r symbols)
  from "6.prems"(1) obtain a s b s' where ab: "ast_to_z3 z3 l symbols = Some (a, s)"
    "ast_to_z3 z3 r s = Some (b, s')" "apply_op (compare_op z3 op) a b = Some e" "symbols' = s'"
    by (auto split: option.splits)
  note l = "6.IH"(1) [OF ab(1) "6.prems"(2,3)]
  note r = "6.IH"(2) [OF ab(1) refl ab(2) "6.prems"(2) conjunct1 [OF l]]
  show ?case
    using l r ab(4) compare_op_value [OF "6.prems"(2) ab(3)] by simp
qed (simp_all add: z3_laws_def)

lemma map_of_comparison_fold:
  "map_of (foldl (\<lambda>items node. case node of Compare loc l ops cs \<Rightarrow> dict_set loc node items | _ \<Rightarrow> items) items nodes) loc
     = Some n \<Longrightarrow> (\<exists>l ops cs. n = Compare loc l ops cs \<and> Compare loc l ops cs \<in> set nodes) \<or> map_of items loc = Some n"
proof (induction nodes arbitrary: items)
  case (Cons m nodes)
  from Cons.IH [OF Cons.prems [simplified]] show ?case
    by (cases m) (auto split: if_splits)
qed simp

lemma comparison_nodes_at:
  "map_of (comparison_nodes tree) loc = Some n \<Longrightarrow> \<exists>l ops cs. n = Compare loc l ops cs \<and> occurs tree n"
  using map_of_comparison_fold [of "[]" "ast_walk tree" loc n]
  unfolding comparison_nodes_def set_ast_walk by auto

lemma changed_comparison_Some:
  assumes "changed_comparison parse parse_eval orig mut = Inr (Some (n, m))"
  obtains ot mt loc where "oracle_parse parse parse_eval orig = Inr ot" and "oracle_parse parse parse_eval mut = Inr mt"
    and "map_of (comparison_nodes ot) loc = Some n" and "map_of (comparison_nodes mt) loc = Some m" and "\<not> dump_eq n m"
proof -
  obtain ot where ot: "oracle_parse parse parse_eval orig = Inr ot"
    using assms by (auto simp: changed_comparison_def split: sum.splits)
  obtain mt where mt: "oracle_parse parse parse_eval mut = Inr mt"
    using assms ot by (auto simp: changed_comparison_def split: sum.splits)
  let ?common = "sorted_list_of_set (set (filter (\<lambda>k. k \<in> set (dict_keys (comparison_nodes mt))) (dict_keys (comparison_nodes ot))))"
  obtain loc where loc: "find (\<lambda>loc. \<not> dump_eq (the (map_of (comparison_nodes ot) loc)) (the (map_of (comparison_nodes mt) loc))) ?common
      = Some loc" and n: "n = the (map_of (comparison_nodes ot) loc)" "m = the (map_of (comparison_nodes mt) loc)"
    using assms ot mt by (auto simp: changed_comparison_def Let_def)
  then have "loc \<in> set ?common" and d: "\<not> dump_eq n m"
    using find_SomeD [OF loc] by simp_all
  then have "loc \<in> set (dict_keys (comparison_nodes ot))" "loc \<in> set (dict_keys (comparison_nodes mt))" by simp_all
  then have "map_of (comparison_nodes ot) loc = Some n" "map_of (comparison_nodes mt) loc = Some m"
    using n by (metis list.set_map map_of_eq_None_iff option.collapse)+
  with ot mt d show thesis by (intro that)
qed

lemma equivalence_verdict_cases:
  assumes "z3_laws z3 val" and "py_strip orig \<noteq> py_strip mut"
    and "is_semantically_equivalent parse parse_eval z3 orig mut = Inr True"
  obtains ot mt loc l ops cs l' ops' cs' where
    "oracle_parse parse parse_eval orig = Inr ot" and "oracle_parse parse parse_eval mut = Inr mt"
    and "occurs ot (Compare loc l ops cs)" and "occurs mt (Compare loc l' ops' cs')"
    and "\<not> dump_eq (Compare loc l ops cs) (Compare loc l' ops' cs')"
    and "\<forall>\<rho>. \<exists>v. py_value \<rho> (Compare loc l ops cs) = Some v \<and> py_value \<rho> (Compare loc l' ops' cs') = Some v"
proof -
  obtain n m e1 s1 e2 s2 e where c: "changed_comparison parse parse_eval orig mut = Inr (Some (n, m))"
    and t: "ast_to_z3 z3 n [] = Some (e1, s1)" "ast_to_z3 z3 m s1 = Some (e2, s2)"
    and ne: "z_ne z3 e1 e2 = Some e" "z_unsat z3 e"
    using assms(2,3) by (auto simp: is_semantically_equivalent_def split: sum.splits option.splits)
  obtain ot mt loc where trees: "oracle_parse parse parse_eval orig = Inr ot" "oracle_parse parse parse_eval mut = Inr mt"
    and at: "map_of (comparison_nodes ot) loc = Some n" "map_of (comparison_nodes mt) loc = Some m"
    and d: "\<not> dump_eq n m"
    by (rule changed_comparison_Some [OF c])
  note v1 = ast_to_z3_value [OF t(1) assms(1) symbols_ok_Nil]
  note v2 = ast_to_z3_value [OF t(2) assms(1) conjunct1 [OF v1]]
  have "val \<rho> e1 = val \<rho> e2" for \<rho>
  proof -
    have "val \<rho> e = of_bool (val \<rho> e1 \<noteq> val \<rho> e2)" "val \<rho> e = 0"
      using assms(1) ne unfolding z3_laws_def by blast+
    then show ?thesis by (simp split: if_splits)
  qed
  then have "\<forall>\<rho>. \<exists>v. py_value \<rho> n = Some v \<and> py_value \<rho> m = Some v"
    using v1 v2 by simp
  with trees d comparison_nodes_at [OF at(1)] comparison_nodes_at [OF at(2)] that show thesis by blast
qed

text \<open>
  C24. When the oracle calls two texts equivalent that differ in more than surrounding blanks, it
  has found a comparison that the two trees hold at the same place with different contents, and
  these two compute the same value under every binding of the names to integers.
\<close>

theorem equivalence_verdict_is_sound:
  assumes "z3_laws z3 val" and "py_strip orig \<noteq> py_strip mut"
    and "is_semantically_equivalent parse parse_eval z3 orig mut = Inr True"
  shows "\<exists>ot mt loc l ops cs l' ops' cs'.
    oracle_parse parse parse_eval orig = Inr ot \<and> oracle_parse parse parse_eval mut = Inr mt
    \<and> occurs ot (Compare loc l ops cs) \<and> occurs mt (Compare loc l' ops' cs')
    \<and> \<not> dump_eq (Compare loc l ops cs) (Compare loc l' ops' cs')
    \<and> (\<forall>\<rho>. \<exists>v. py_value \<rho> (Compare loc l ops cs) = Some v \<and> py_value \<rho> (Compare loc l' ops' cs') = Some v)"
  by (rule equivalence_verdict_cases [OF assms]) blast

text \<open>A solver that recognises a disequation of two identical terms, and nothing else.\<close>

datatype zexp =
    ZVar string | ZBool bool | ZInt int | ZNeg zexp | ZAdd zexp zexp | ZSub zexp zexp
  | ZLt zexp zexp | ZLe zexp zexp | ZEq zexp zexp | ZNe zexp zexp

fun zval :: "(string \<Rightarrow> int) \<Rightarrow> zexp \<Rightarrow> int" where
  "zval \<rho> (ZVar x) = \<rho> x"
| "zval \<rho> (ZBool b) = of_bool b"
| "zval \<rho> (ZInt i) = i"
| "zval \<rho> (ZNeg a) = - zval \<rho> a"
| "zval \<rho> (ZAdd a b) = zval \<rho> a + zval \<rho> b"
| "zval \<rho> (ZSub a b) = zval \<rho> a - zval \<rho> b"
| "zval \<rho> (ZLt a b) = of_bool (zval \<rho> a < zval \<rho> b)"
| "zval \<rho> (ZLe a b) = of_bool (zval \<rho> a \<le> zval \<rho> b)"
| "zval \<rho> (ZEq a b) = of_bool (zval \<rho> a = zval \<rho> b)"
| "zval \<rho> (ZNe a b) = of_bool (zval \<rho> a \<noteq> zval \<rho> b)"

fun zunsat :: "zexp \<Rightarrow> bool" where
  "zunsat (ZNe a b) = (a = b)"
| "zunsat e = False"

definition syntactic_z3 :: "zexp z3_api" where
  "syntactic_z3 = \<lparr>z_int = ZVar, z_bool_val = ZBool, z_int_val = ZInt, z_neg = Some \<circ> ZNeg,
     z_add = (\<lambda>a b. Some (ZAdd a b)), z_sub = (\<lambda>a b. Some (ZSub a b)),
     z_lt = (\<lambda>a b. Some (ZLt a b)), z_le = (\<lambda>a b. Some (ZLe a b)),
     z_gt = (\<lambda>a b. Some (ZLt b a)), z_ge = (\<lambda>a b. Some (ZLe b a)),
     z_eq = (\<lambda>a b. Some (ZEq a b)), z_ne = (\<lambda>a b. Some (ZNe a b)), z_unsat = zunsat\<rparr>"

lemma syntactic_z3_laws: "z3_laws syntactic_z3 zval"
proof -
  have "zunsat e \<Longrightarrow> zval \<rho> e = 0" for \<rho> e
    by (cases e) simp_all
  then show ?thesis unfolding z3_laws_def by (auto simp: syntactic_z3_def)
qed

definition expr_tree :: "location \<Rightarrow> pyast \<Rightarrow> cmpop \<Rightarrow> pyast \<Rightarrow> pyast" where
  "expr_tree loc l op r = Node ''Module'' [Node ''Expr'' [Compare loc l [op] [r]]]"

definition flipped_parse :: "string \<Rightarrow> py_error + pyast" where
  "flipped_parse code =
     (if code = ''a < b'' then Inr (expr_tree (1, 0, 1, 5) (Name ''a'') Lt (Name ''b''))
      else if code = ''b > a'' then Inr (expr_tree (1, 0, 1, 5) (Name ''b'') Gt (Name ''a''))
      else Inl SyntaxError)"

lemma flipped_verdict:
  "is_semantically_equivalent flipped_parse flipped_parse syntactic_z3 ''a < b'' ''b > a'' = Inr True"
  by code_simp

theorem equivalence_verdict_is_sound_witness:
  "\<exists>loc l ops cs l' ops' cs'. \<not> dump_eq (Compare loc l ops cs) (Compare loc l' ops' cs')
    \<and> (\<forall>\<rho>. \<exists>v. py_value \<rho> (Compare loc l ops cs) = Some v \<and> py_value \<rho> (Compare loc l' ops' cs') = Some v)"
proof -
  have "py_strip ''a < b'' \<noteq> py_strip ''b > a''" by code_simp
  from equivalence_verdict_is_sound [OF syntactic_z3_laws this flipped_verdict] show ?thesis by blast
qed

section \<open>What the oracle filters\<close>

text \<open>
  The oracle never discards a candidate of the patcher when the text holds one comparison.
  Comparisons are matched by their exact extent: exchanging an ordering operator moves the end of
  the comparison, so that no comparison is found at the same place in both trees, whether or not
  the two are equivalent, and \<open>==\<close> and \<open>!=\<close>, which have one length, never are.
\<close>

theorem oracle_filters_no_single_comparison_swap:
  assumes "z3_laws z3 val" and "py_strip orig \<noteq> py_strip mut"
    and "map_of OPERATOR_SWAPS op = Some t'" and "map_of operator_tokens op = Some t"
    and "map_of operator_tokens op' = Some t'"
    and "oracle_parse parse parse_eval orig = Inr ot" and "oracle_parse parse parse_eval mut = Inr mt"
    and "\<forall>k a ops cs. occurs ot (Compare k a ops cs) \<longrightarrow> Compare k a ops cs = Compare (row, col, row', col') l [op] [r]"
    and "\<forall>k a ops cs. occurs mt (Compare k a ops cs)
      \<longrightarrow> Compare k a ops cs = Compare (row, col, row', col' + int (length t') - int (length t)) l' [op'] [r']"
    and "\<forall>\<rho>. py_value \<rho> l' = py_value \<rho> l \<and> py_value \<rho> r' = py_value \<rho> r"
  shows "is_semantically_equivalent parse parse_eval z3 orig mut \<noteq> Inr True"
proof
  assume "is_semantically_equivalent parse parse_eval z3 orig mut = Inr True"
  from assms(1,2) this show False
  proof (rule equivalence_verdict_cases)
    fix ot' mt' loc a ops cs a' ops' cs'
    assume v: "oracle_parse parse parse_eval orig = Inr ot'" "oracle_parse parse parse_eval mut = Inr mt'"
      "occurs ot' (Compare loc a ops cs)" "occurs mt' (Compare loc a' ops' cs')"
      and eq: "\<forall>\<rho>. \<exists>v. py_value \<rho> (Compare loc a ops cs) = Some v \<and> py_value \<rho> (Compare loc a' ops' cs') = Some v"
    have trees: "ot' = ot" "mt' = mt" using v(1,2) assms(6,7) by simp_all
    have n: "Compare loc a ops cs = Compare (row, col, row', col') l [op] [r]"
      "Compare loc a' ops' cs' = Compare (row, col, row', col' + int (length t') - int (length t)) l' [op'] [r']"
      using v(3,4) assms(8,9) trees by blast+
    then have "length t' = length t" by auto
    with assms(3-5) have op: "op = Eq \<and> op' = NotEq \<or> op = NotEq \<and> op' = Eq"
      by (auto simp: OPERATOR_SWAPS_def operator_tokens_def split: if_splits)
    define \<rho> :: "string \<Rightarrow> int" where "\<rho> = (\<lambda>x. 0)"
    obtain v where "py_value \<rho> (Compare (row, col, row', col') l [op] [r]) = Some v"
      "py_value \<rho> (Compare (row, col, row', col' + int (length t') - int (length t)) l' [op'] [r']) = Some v"
      using eq n by metis
    then show False
      using op assms(10) by (auto simp: bind_eq_Some_conv of_bool_def split: if_splits)
  qed
qed

definition increment_parse :: "string \<Rightarrow> py_error + pyast" where
  "increment_parse code =
     (let sum = BinOp (Name ''x'') Add (Constant (CInt 1))
      in if code = ''x < x + 1'' then Inr (expr_tree (1, 0, 1, 9) (Name ''x'') Lt sum)
         else if code = ''x <= x + 1'' then Inr (expr_tree (1, 0, 1, 10) (Name ''x'') LtE sum)
         else Inl SyntaxError)"

lemma expr_tree_walk:
  "ast_walk (expr_tree loc l op r) = [expr_tree loc l op r, Node ''Expr'' [Compare loc l [op] [r]],
     Compare loc l [op] [r]] @ walk_queue [l, r]"
  by (simp add: ast_walk_def expr_tree_def)

lemma occurs_expr_tree:
  "occurs (expr_tree loc l op r) n \<longleftrightarrow> n \<in> set (ast_walk (expr_tree loc l op r))"
  by (simp add: set_ast_walk)

theorem oracle_filters_no_single_comparison_swap_witness:
  "is_semantically_equivalent increment_parse increment_parse syntactic_z3 ''x < x + 1'' ''x <= x + 1'' \<noteq> Inr True
   \<and> (\<forall>\<rho> loc loc'. py_value \<rho> (Compare loc (Name ''x'') [Lt] [BinOp (Name ''x'') Add (Constant (CInt 1))])
        = py_value \<rho> (Compare loc' (Name ''x'') [LtE] [BinOp (Name ''x'') Add (Constant (CInt 1))]))"
proof -
  let ?sum = "BinOp (Name ''x'') Add (Constant (CInt 1))"
  have strip: "py_strip ''x < x + 1'' \<noteq> py_strip ''x <= x + 1''" by code_simp
  have parse: "oracle_parse increment_parse increment_parse ''x < x + 1''
      = Inr (expr_tree (1, 0, 1, 9) (Name ''x'') Lt ?sum)"
    "oracle_parse increment_parse increment_parse ''x <= x + 1'' = Inr (expr_tree (1, 0, 1, 10) (Name ''x'') LtE ?sum)"
    by (simp_all add: oracle_parse_def increment_parse_def Let_def)
  have only: "occurs (expr_tree loc (Name ''x'') op ?sum) (Compare k a ops cs)
      \<Longrightarrow> Compare k a ops cs = Compare loc (Name ''x'') [op] [?sum]" for loc op k a ops cs
    by (simp add: occurs_expr_tree expr_tree_walk) (simp add: expr_tree_def)
  have before: "\<forall>k a ops cs. occurs (expr_tree (1, 0, 1, 9) (Name ''x'') Lt ?sum) (Compare k a ops cs)
      \<longrightarrow> Compare k a ops cs = Compare (1, 0, 1, 9) (Name ''x'') [Lt] [?sum]"
    using only by blast
  have shift: "(9::int) + int (length ''<='') - int (length ''<'') = 10" by simp
  have after: "\<forall>k a ops cs. occurs (expr_tree (1, 0, 1, 10) (Name ''x'') LtE ?sum) (Compare k a ops cs)
      \<longrightarrow> Compare k a ops cs
        = Compare (1, 0, 1, 9 + int (length ''<='') - int (length ''<'')) (Name ''x'') [LtE] [?sum]"
    unfolding shift using only by blast
  have "is_semantically_equivalent increment_parse increment_parse syntactic_z3 ''x < x + 1'' ''x <= x + 1'' \<noteq> Inr True"
    by (rule oracle_filters_no_single_comparison_swap [OF syntactic_z3_laws strip _ _ _ parse before after])
      (simp_all add: OPERATOR_SWAPS_def operator_tokens_def)
  then show ?thesis by simp
qed

end
