(* ===== verification/ForestWorker.thy ===== *)
theory ForestWorker
  imports CandidateBudget TreeSearch SmtOracle
begin

text \<open>
  The worker (\<open>forest_worker.py\<close>): one iteration selects a node of a task, locks it, and expands
  it: it asks the patcher for candidates, drops those the oracle calls equivalent, reserves
  budget for each of the others, stores it as a child node, records it in the ledger and queues
  its execution. An exception ends the worker; what it had written stays.
\<close>

section \<open>What the worker uses\<close>

record ('s, 'e) worker_env =
  we_redis :: "'s redis"
  we_worker_id :: string
  we_omega :: omega_settings
  we_budgets :: budget_settings
  we_parse :: "string \<Rightarrow> py_error + pyast"
  we_parse_eval :: "string \<Rightarrow> py_error + pyast"
  we_set_order :: "string list \<Rightarrow> string list"
  we_z3 :: "'e z3_api"
  we_sha256 :: "string \<Rightarrow> string"
  we_md5_prefix :: "string \<Rightarrow> int"
  we_run_id :: "string \<Rightarrow> string"
  we_time :: real
  we_generation_seconds :: real

text \<open>
  \<open>we_md5_prefix\<close> is the number that the first eight hex digits of the MD5 digest write,
  \<open>we_run_id\<close> the random identifier drawn for a candidate, \<open>we_time\<close> and
  \<open>we_generation_seconds\<close> the clock readings.
\<close>

section \<open>Dispatching one candidate\<close>

definition select_executor_core :: "('s, 'e) worker_env \<Rightarrow> string \<Rightarrow> py_error + int" where
  "select_executor_core env candidate_id =
     (if om_executor_cores (we_omega env) = 0 then Inl ZeroDivisionError
      else Inr (we_md5_prefix env candidate_id mod om_executor_cores (we_omega env)))"

definition queue_execution :: "('s, 'e) worker_env \<Rightarrow> execution_request \<Rightarrow> 's world \<Rightarrow> 's world outcome" where
  "queue_execution env request w =
     (let executor_port = om_executor_base_port (we_omega env) + er_executor_core request
      in case record_execution_queued
           \<lparr>eq_run_id = er_run_id request, eq_candidate_id = er_candidate_id request,
            eq_task_id = er_task_id request, eq_executor_core = er_executor_core request,
            eq_executor_host = om_executor_host (we_omega env), eq_executor_port = executor_port,
            eq_meta = [''worker_id'' \<mapsto> JStr (we_worker_id env)]\<rparr> (w_db w) of
        Inl e \<Rightarrow> Crash DatabaseError w
      | Inr db \<Rightarrow>
          let w = w\<lparr>w_db := snd (update_candidate_status (er_candidate_id request) ''queued'' None db)\<rparr>
          in Done (w_exec (we_redis env) [CXAdd STREAM_DISPATCH (Doc (request_to_json request))] w))"

definition candidate_summary :: "string \<Rightarrow> int \<Rightarrow> string" where
  "candidate_summary source_relpath node_depth =
     ''comparison operator mutation in '' @ source_relpath @ '' at depth '' @ nat_str (nat node_depth)"

definition dispatch_capsule :: "('s, 'e) worker_env \<Rightarrow> task_capsule \<Rightarrow> 's world \<Rightarrow> 's world outcome" where
  "dispatch_capsule env capsule w =
     try_value (select_executor_core env (tc_id capsule)) w (\<lambda>executor_core.
       queue_execution env
         \<lparr>er_run_id = tc_run_id capsule, er_candidate_id = tc_id capsule, er_task_id = tc_tree_id capsule,
          er_executor_core = executor_core, er_capsule = capsule, er_created_at = we_time env,
          er_preferred_executor_core = Some executor_core\<rparr> w)"

section \<open>Storing one candidate\<close>

text \<open>What expansion has read when it starts on the candidates.\<close>

record expansion =
  ex_task_id :: string
  ex_node_id :: string
  ex_node :: "string \<rightharpoonup> rtext"
  ex_code :: string
  ex_depth :: int
  ex_plan :: task_plan
  ex_target_lines :: "int list"
  ex_repo_snapshot :: "(string \<times> string) list"
  ex_repo_snapshot_digest :: string
  ex_repo_snapshot_bytes :: int
  ex_repo_snapshot_files :: int

text \<open>The mapping of the child's \<open>hset\<close>; a missing field of the parent is a \<open>KeyError\<close>.\<close>

definition child_fields :: "expansion \<Rightarrow> string \<Rightarrow> py_error + (string \<times> rtext) list" where
  "child_fields ex candidate =
     (let node = ex_node ex;
          get = (\<lambda>f. case node f of None \<Rightarrow> Inl KeyError | Some v \<Rightarrow> Inr v);
          get_or = (\<lambda>f dflt. case node f of None \<Rightarrow> dflt | Some v \<Rightarrow> v)
      in py_bind (get ''test_code'') (\<lambda>test_code. py_bind (get ''source_path'') (\<lambda>source_path.
         py_bind (get ''test_path'') (\<lambda>test_path. py_bind (get ''repo_path'') (\<lambda>repo_path.
           Inr [(''tree_id'', Txt (ex_task_id ex)), (''code'', Txt candidate), (''test_code'', test_code),
             (''source_path'', source_path), (''test_path'', test_path),
             (''source_relpath'', get_or ''source_relpath'' (Txt '''')),
             (''test_relpath'', get_or ''test_relpath'' (Txt '''')), (''repo_path'', repo_path),
             (''parent'', Txt (ex_node_id ex)), (''visits'', Num 0), (''value_sum'', Flt 0),
             (''tests_failed'', get_or ''tests_failed'' (Num 999)),
             (''tests_passed'', get_or ''tests_passed'' (Num 0)), (''is_terminal'', Txt ''False''),
             (''expanded'', Txt ''False''), (''depth'', Num (ex_depth ex + 1)),
             (''suspicious_lines'', Doc (JArr (map JInt (ex_target_lines ex))))])))))"

definition candidate_record :: "('s, 'e) worker_env \<Rightarrow> expansion \<Rightarrow> string \<Rightarrow> string \<Rightarrow> nat \<Rightarrow> candidate_row" where
  "candidate_record env ex source_relpath source_path smt_pruned =
     \<lparr>cr_task_id = ex_task_id ex, cr_parent_id = Some (ex_node_id ex), cr_patch_kind = ''comparison_swap'',
      cr_status = ''generated'', cr_source_relpath = source_relpath,
      cr_files_touched = (if source_relpath \<noteq> [] then [source_relpath] else []),
      cr_diff_summary = candidate_summary (if source_relpath \<noteq> [] then source_relpath else source_path) (ex_depth ex + 1),
      cr_static_score = 1, cr_rank_score = None, cr_created_at = we_time env,
      cr_metadata = [''suspicious_lines'' \<mapsto> JArr (map JInt (ex_target_lines ex)),
        ''planning_strategy'' \<mapsto> JStr (tp_strategy (ex_plan ex)),
        ''generation_seconds'' \<mapsto> JFloat (we_generation_seconds env),
        ''smt_pruned_before_dispatch'' \<mapsto> JInt (int smt_pruned),
        ''target_lines_considered'' \<mapsto> JArr (map JInt (ex_target_lines ex))]\<rparr>"

definition candidate_id :: "('s, 'e) worker_env \<Rightarrow> expansion \<Rightarrow> string \<Rightarrow> string" where
  "candidate_id env ex candidate = tree_node_id (ex_task_id ex) (we_sha256 env (candidate @ ex_node_id ex))"

definition candidate_capsule :: "('s, 'e) worker_env \<Rightarrow> expansion \<Rightarrow> string \<Rightarrow> py_error + task_capsule" where
  "candidate_capsule env ex candidate =
     py_bind (field_str_or (ex_node ex) ''source_relpath'' '''') (\<lambda>source_relpath.
     py_bind (field_str (ex_node ex) ''source_path'') (\<lambda>source_path.
     py_bind (field_str (ex_node ex) ''test_path'') (\<lambda>test_path.
     py_bind (field_str (ex_node ex) ''test_code'') (\<lambda>test_code.
     py_bind (field_str_or (ex_node ex) ''test_relpath'' '''') (\<lambda>test_relpath.
       Inr \<lparr>tc_id = candidate_id env ex candidate, tc_tree_id = ex_task_id ex, tc_source_path = source_path,
         tc_test_path = test_path, tc_code = candidate, tc_test_code = test_code,
         tc_run_id = we_run_id env candidate, tc_source_relpath = source_relpath,
         tc_test_relpath = test_relpath, tc_repo_snapshot = ex_repo_snapshot ex,
         tc_repo_snapshot_digest = ex_repo_snapshot_digest ex,
         tc_repo_snapshot_bytes = ex_repo_snapshot_bytes ex,
         tc_repo_snapshot_files = ex_repo_snapshot_files ex\<rparr>)))))"

text \<open>The ledger's part and the dispatch of a candidate whose node is stored.\<close>

definition record_and_dispatch ::
    "('s, 'e) worker_env \<Rightarrow> expansion \<Rightarrow> nat \<Rightarrow> task_capsule \<Rightarrow> 's world \<Rightarrow> 's world outcome" where
  "record_and_dispatch env ex smt_pruned capsule w =
     (case record_candidate (tc_id capsule)
        (candidate_record env ex (tc_source_relpath capsule) (tc_source_path capsule) smt_pruned) (w_db w) of
        Inl e \<Rightarrow> Crash DatabaseError w
      | Inr db \<Rightarrow>
          dispatch_capsule env capsule (w\<lparr>w_db := snd (update_task_status (ex_task_id ex) ''running'' db)\<rparr>))"

definition store_cmds :: "('s, 'e) worker_env \<Rightarrow> expansion \<Rightarrow> string \<Rightarrow> (string \<times> rtext) list \<Rightarrow> store_cmd list" where
  "store_cmds env ex candidate fs =
     [CHSet (candidate_id env ex candidate) fs,
      CSAdd (node_children_key (ex_node_id ex)) (candidate_id env ex candidate)]"

text \<open>
  A candidate whose place is reserved: the child node, then the ledger, then the dispatch stream.
\<close>

definition store_candidate ::
    "('s, 'e) worker_env \<Rightarrow> expansion \<Rightarrow> nat \<Rightarrow> string \<Rightarrow> 's world \<Rightarrow> 's world outcome" where
  "store_candidate env ex smt_pruned candidate w =
     try_value (child_fields ex candidate) w (\<lambda>fs.
       let w = w_exec (we_redis env) (store_cmds env ex candidate fs) w
       in try_value (candidate_capsule env ex candidate) w (\<lambda>capsule.
            record_and_dispatch env ex smt_pruned capsule w))"

section \<open>The loop over the candidates\<close>

text \<open>The world with the numbers of candidates stored and of candidates the oracle dropped.\<close>

type_synonym 's expansion_state = "nat \<times> nat \<times> 's world"

fun expand_candidates ::
    "('s, 'e) worker_env \<Rightarrow> expansion \<Rightarrow> string list \<Rightarrow> 's expansion_state \<Rightarrow> 's expansion_state outcome" where
  "expand_candidates env ex [] st = Done st"
| "expand_candidates env ex (candidate # candidates) (generated, smt_pruned, w) =
     (case is_semantically_equivalent (we_parse env) (we_parse_eval env) (we_z3 env) (ex_code ex) candidate of
        Inl e \<Rightarrow> Crash e (generated, smt_pruned, w)
      | Inr True \<Rightarrow> expand_candidates env ex candidates (generated, Suc smt_pruned, w)
      | Inr False \<Rightarrow>
          (case reserve_candidate_budget (we_redis env) (ex_task_id ex) (ex_plan ex) w of
             (False, w) \<Rightarrow> Done (generated, smt_pruned, w)
           | (True, w) \<Rightarrow>
               (case store_candidate env ex smt_pruned candidate w of
                  Crash e w \<Rightarrow> Crash e (generated, smt_pruned, w)
                | Done w \<Rightarrow> expand_candidates env ex candidates (Suc generated, smt_pruned, w))))"

section \<open>Expansion of a node\<close>

definition terminal_cmds :: "string \<Rightarrow> store_cmd list" where
  "terminal_cmds node_id = [CHSet node_id [(''is_terminal'', Txt ''True''), (''expanded'', Txt ''True'')]]"

text \<open>The candidates of the plan's lines, or of every comparison when these have none.\<close>

definition expansion_candidates :: "('s, 'e) worker_env \<Rightarrow> expansion_plan \<Rightarrow> string \<Rightarrow> py_error + string list" where
  "expansion_candidates env eplan code =
     (let generate = (\<lambda>lines. generate_targeted_patches (we_parse env) (we_set_order env) code lines
            (ep_max_candidates eplan))
      in case generate (ep_target_lines eplan) of
           Inl e \<Rightarrow> Inl e
         | Inr candidates \<Rightarrow>
             if candidates = [] \<and> ep_allow_comparison_fallback eplan
             then case comparison_lines (we_parse env) code of Inl e \<Rightarrow> Inl e | Inr lines \<Rightarrow> generate lines
             else Inr candidates)"

definition read_snapshot :: "(string \<rightharpoonup> rtext) \<Rightarrow> py_error + (string \<times> string) list" where
  "read_snapshot root_data =
     (case text_json (case root_data ''repo_snapshot'' of None \<Rightarrow> Doc (JObj []) | Some v \<Rightarrow> v) of
        None \<Rightarrow> Inl ValueError
      | Some j \<Rightarrow> (case js_dict js_str j of None \<Rightarrow> Inl TypeError | Some d \<Rightarrow> Inr d))"

definition snapshot_number :: "(string \<rightharpoonup> rtext) \<Rightarrow> string \<Rightarrow> py_error + int" where
  "snapshot_number root_data f = to_int (or_text (root_data f) (Num 0))"

definition finish_expansion :: "('s, 'e) worker_env \<Rightarrow> expansion \<Rightarrow> 's expansion_state \<Rightarrow> 's world" where
  "finish_expansion env ex st =
     (case st of (generated, smt_pruned, w) \<Rightarrow>
        w_exec (we_redis env)
          (CHSet (ex_node_id ex) [(''expanded'', Txt ''True'')]
            # (if generated = 0 then [CHSet (ex_node_id ex) [(''is_terminal'', Txt ''True'')]] else []))
          (w\<lparr>w_db := merge_task_metadata (ex_task_id ex)
              [''latest_expansion'' \<mapsto> JObj
                [(''node_id'', JStr (ex_node_id ex)), (''strategy'', JStr (tp_strategy (ex_plan ex))),
                 (''generation_seconds'', JFloat (we_generation_seconds env)),
                 (''generated_candidates'', JInt (int generated)), (''smt_pruned'', JInt (int smt_pruned))]]
              (w_db w)\<rparr>))"

definition generated_so_far :: "('s, 'e) worker_env \<Rightarrow> string \<Rightarrow> (string \<rightharpoonup> rtext) \<Rightarrow> 's world \<Rightarrow> py_error + int" where
  "generated_so_far env task_id root_data w =
     to_int (or_text (w_string (we_redis env) w (task_budget_key task_id))
       (or_text (root_data ''generated_capsules'') (Num 0)))"

definition run_expansion :: "('s, 'e) worker_env \<Rightarrow> expansion \<Rightarrow> string list \<Rightarrow> 's world \<Rightarrow> 's world outcome" where
  "run_expansion env ex candidates w =
     (case expand_candidates env ex candidates (0, 0, w) of
        Crash e (generated, smt_pruned, w) \<Rightarrow> Crash e w
      | Done st \<Rightarrow> Done (finish_expansion env ex st))"

text \<open>Expansion with budget left: the candidates, the snapshot of the root, the loop, the marks.\<close>

definition expand_with ::
    "('s, 'e) worker_env \<Rightarrow> string \<Rightarrow> string \<Rightarrow> (string \<rightharpoonup> rtext) \<Rightarrow> (string \<rightharpoonup> rtext) \<Rightarrow> int \<Rightarrow> task_plan
       \<Rightarrow> expansion_plan \<Rightarrow> 's world \<Rightarrow> 's world outcome" where
  "expand_with env task_id node_id node root_data depth plan eplan w =
     try_value (field_str node ''code'') w (\<lambda>code.
     try_value (expansion_candidates env eplan code) w (\<lambda>candidates.
     try_value (read_snapshot root_data) w (\<lambda>snapshot.
     try_value (field_str_or root_data ''repo_snapshot_digest'' '''') w (\<lambda>digest.
     try_value (snapshot_number root_data ''repo_snapshot_bytes'') w (\<lambda>bytes.
     try_value (snapshot_number root_data ''repo_snapshot_files'') w (\<lambda>files.
       let ex = \<lparr>ex_task_id = task_id, ex_node_id = node_id, ex_node = node, ex_code = code, ex_depth = depth,
             ex_plan = plan, ex_target_lines = ep_target_lines eplan, ex_repo_snapshot = snapshot,
             ex_repo_snapshot_digest = digest, ex_repo_snapshot_bytes = bytes, ex_repo_snapshot_files = files\<rparr>
       in run_expansion env ex candidates w))))))"

definition expand :: "('s, 'e) worker_env \<Rightarrow> string \<Rightarrow> string \<Rightarrow> 's world \<Rightarrow> 's world outcome" where
  "expand env task_id node_id w =
     (let R = we_redis env; node = w_hash R w node_id
      in if node = Map.empty \<or> node ''is_terminal'' = Some (Txt ''True'') \<or> node ''expanded'' = Some (Txt ''True'')
         then Done w
         else
           let root_data = w_hash R w (root_node_id task_id)
           in try_value (worker_task_plan (we_budgets env) root_data) w (\<lambda>plan.
              try_value (field_int node ''depth'' 0) w (\<lambda>depth.
                if tp_max_depth plan \<le> depth then Done (w_exec R (terminal_cmds node_id) w)
                else try_value (generated_so_far env task_id root_data w) w (\<lambda>generated_capsules.
                  let eplan = expansion_plan plan depth generated_capsules
                  in if ep_max_candidates eplan = 0
                     then Done (w_exec R (terminal_cmds node_id) (mark_budget_exhausted R task_id w))
                     else expand_with env task_id node_id node root_data depth plan eplan w))))"

section \<open>One iteration of the worker\<close>

text \<open>
  The lock is taken for ten seconds. Here an iteration runs without a clock and undisturbed; its
  expiry, and other workers in between, are modelled in \<open>NodeLock\<close>.
\<close>

definition with_lock :: "('s, 'e) worker_env \<Rightarrow> string \<Rightarrow> ('s world \<Rightarrow> 's world outcome) \<Rightarrow> 's world \<Rightarrow> 's world outcome" where
  "with_lock env node_id body w =
     (let R = we_redis env; lock_key = node_lock_key node_id;
          (locked, s) = r_setnx R lock_key (Txt (we_worker_id env)) (w_store w);
          w = w\<lparr>w_store := s\<rparr>;
          release = (\<lambda>w. if w_string R w lock_key = Some (Txt (we_worker_id env))
            then w_exec R [CDelete lock_key] w else w)
      in if locked
         then case body w of Done w \<Rightarrow> Done (release w) | Crash e w \<Rightarrow> Crash e (release w)
         else Done w)"

definition visit_task :: "('s, 'e) worker_env \<Rightarrow> string \<Rightarrow> 's world \<Rightarrow> 's world outcome option" where
  "visit_task env task_id w =
     (let R = we_redis env
      in if w_string R w (tree_done_key task_id) \<noteq> None \<or> w_string R w (tree_budget_exhausted_key task_id) \<noteq> None
         then Some (Done w)
         else case distributed_select R (we_budgets env) task_id w of
                None \<Rightarrow> None
              | Some (Inl e) \<Rightarrow> Some (Crash e w)
              | Some (Inr node_id) \<Rightarrow> Some (with_lock env node_id (expand env task_id node_id) w))"

definition update_worker_heartbeat :: "'s redis \<Rightarrow> string \<Rightarrow> real \<Rightarrow> int \<Rightarrow> 's world \<Rightarrow> 's world" where
  "update_worker_heartbeat R worker_id now ttl_seconds w =
     w_exec R [CZAdd WORKER_HEARTBEATS worker_id now,
       CZRemRangeByScore WORKER_HEARTBEATS 0 (now - of_int ttl_seconds)] w"

definition task_ids :: "'s redis \<Rightarrow> string option \<Rightarrow> 's world \<Rightarrow> string list" where
  "task_ids R task_id w =
     (if truthy task_id then [the task_id] else sorted_list_of_set (rd_sets (r_data R (w_store w)) TREE_INDEX))"

fun visit_tasks :: "('s, 'e) worker_env \<Rightarrow> string list \<Rightarrow> 's world \<Rightarrow> 's world outcome option" where
  "visit_tasks env [] w = Some (Done w)"
| "visit_tasks env (t # ts) w =
     (case visit_task env t w of
        None \<Rightarrow> None
      | Some (Crash e w) \<Rightarrow> Some (Crash e w)
      | Some (Done w) \<Rightarrow> visit_tasks env ts w)"

definition worker_iteration :: "('s, 'e) worker_env \<Rightarrow> string option \<Rightarrow> 's world \<Rightarrow> 's world outcome option" where
  "worker_iteration env task_id w =
     (let w = update_worker_heartbeat (we_redis env) (we_worker_id env) (we_time env)
            (om_worker_heartbeat_ttl_seconds (we_omega env)) w
      in visit_tasks env (task_ids (we_redis env) task_id w) w)"

end
