(* ===== verification/ForestWitness.thy ===== *)
theory ForestWitness
  imports ForestWorker
begin

text \<open>
  A small task on which the worker's operations are run: one source line \<open>a < b\<close>, suspicious, with
  its task recorded in the ledger; the store is held in memory.
\<close>

definition compare_parse :: "string \<Rightarrow> py_error + pyast" where
  "compare_parse code =
     (if code = ''a < b'' then Inr (expr_tree (1, 0, 1, 5) (Name ''a'') Lt (Name ''b''))
      else if code = ''a <= b'' then Inr (expr_tree (1, 0, 1, 6) (Name ''a'') LtE (Name ''b''))
      else Inl SyntaxError)"

definition sample_env :: "(redis_data, zexp) worker_env" where
  "sample_env = \<lparr>we_redis = mem_redis, we_worker_id = ''worker_1'',
     we_omega = \<lparr>om_redis = '''', om_cas_endpoint = '''', om_cas_bucket = '''', om_cas_access_key = '''', om_cas_secret_key = '''',
       om_executor_host = ''127.0.0.1'', om_executor_base_port = 5000, om_executor_cores = 2, om_telemetry_host = '''',
       om_telemetry_port = 0, om_worker_heartbeat_ttl_seconds = 30\<rparr>,
     we_budgets = sample_budgets, we_parse = compare_parse, we_parse_eval = compare_parse, we_set_order = id,
     we_z3 = syntactic_z3, we_sha256 = (\<lambda>s. replicate 64 CHR ''a''), we_md5_prefix = (\<lambda>s. 7),
     we_run_id = (\<lambda>s. ''run_1''), we_time = 0, we_generation_seconds = 0\<rparr>"

definition sample_root :: "string \<rightharpoonup> rtext" where
  "sample_root = [''code'' \<mapsto> Txt ''a < b'', ''test_code'' \<mapsto> Txt ''t'', ''source_path'' \<mapsto> Txt ''s.py'',
     ''test_path'' \<mapsto> Txt ''t.py'', ''repo_path'' \<mapsto> Txt ''r'', ''depth'' \<mapsto> Num 0,
     ''suspicious_lines'' \<mapsto> Doc (JArr [JInt 1])]"

definition sample_task :: task_row where
  "sample_task = \<lparr>tr_repo_path = ''r'', tr_source_path = ''s.py'', tr_test_path = ''t.py'', tr_repo_revision = ''0'',
     tr_objective = ''repair'', tr_trigger = ''cli'', tr_profile = ''dev'', tr_status = ''queued'', tr_created_at = 0,
     tr_metadata = Map.empty\<rparr>"

definition sample_world :: "redis_data world" where
  "sample_world = \<lparr>w_store = empty_data\<lparr>rd_hashes := (\<lambda>k. Map.empty)(root_node_id ''t'' := sample_root)\<rparr>,
     w_db = empty_db\<lparr>db_tasks := [(''t'', sample_task)]\<rparr>\<rparr>"

definition sample_plan_of_root :: task_plan where
  "sample_plan_of_root = legacy_task_plan [1] sample_budgets"

lemma sample_root_plan: "worker_task_plan sample_budgets sample_root = Inr sample_plan_of_root"
  by (simp add: worker_task_plan_def sample_root_def or_text_def sample_plan_of_root_def)

lemma sample_expansion_plan: "expansion_plan sample_plan_of_root 0 0 =
    \<lparr>ep_target_lines = [1], ep_max_candidates = 2, ep_allow_comparison_fallback = True, ep_remaining_capsules = 24\<rparr>"
  by (simp add: expansion_plan_def sample_plan_of_root_def legacy_task_plan_def sample_budgets_def remaining_capsules_def
      Let_def)

lemma sample_candidates: "expansion_candidates sample_env
    \<lparr>ep_target_lines = [1], ep_max_candidates = 2, ep_allow_comparison_fallback = True, ep_remaining_capsules = 24\<rparr> ''a < b''
    = Inr [''a <= b'']"
proof -
  have "generate_targeted_patches compare_parse id ''a < b'' [1] 2 = Inr [''a <= b'']" by code_simp
  then show ?thesis by (simp add: expansion_candidates_def sample_env_def)
qed

lemma sample_verdict:
  "is_semantically_equivalent compare_parse compare_parse syntactic_z3 ''a < b'' ''a <= b'' = Inr False"
  by code_simp

definition sample_expansion :: expansion where
  "sample_expansion = \<lparr>ex_task_id = ''t'', ex_node_id = root_node_id ''t'', ex_node = sample_root, ex_code = ''a < b'',
     ex_depth = 0, ex_plan = sample_plan_of_root, ex_target_lines = [1], ex_repo_snapshot = [],
     ex_repo_snapshot_digest = [], ex_repo_snapshot_bytes = 0, ex_repo_snapshot_files = 0\<rparr>"

lemma sample_run:
  "\<exists>w. expand_candidates sample_env sample_expansion [''a <= b''] (0, 0, sample_world) = Done (1, 0, w)"
proof -
  obtain w1 where r: "reserve_candidate_budget mem_redis ''t'' sample_plan_of_root sample_world = (True, w1)"
    and db: "w_db w1 = w_db sample_world"
    by (simp add: reserve_candidate_budget_def reserve_incr_def mem_redis_def sample_world_def Let_def w_exec_def
        sample_plan_of_root_def legacy_task_plan_def sample_budgets_def empty_data_def)
  have "\<exists>w2. store_candidate sample_env sample_expansion 0 ''a <= b'' w1 = Done w2"
    by (simp add: store_candidate_def child_fields_def sample_expansion_def sample_root_def Let_def candidate_capsule_def
        field_str_or_def field_str_def record_and_dispatch_def record_candidate_def has_candidate_def has_task_def
        db sample_world_def empty_db_def candidate_record_def dispatch_capsule_def select_executor_core_def sample_env_def
        queue_execution_def record_execution_queued_def has_execution_def tbl_upsert_def tbl_update_def
        update_task_status_def fetch_task_status_def can_transition_task_status_def)
  with r show ?thesis
    by (simp add: sample_expansion_def sample_env_def sample_verdict) (auto split: outcome.splits)
qed

lemma sample_expand: "\<exists>w. expand sample_env ''t'' (root_node_id ''t'') sample_world = Done w"
proof -
  have node: "w_hash mem_redis sample_world (root_node_id ''t'') = sample_root"
    by (simp add: w_hash_def sample_world_def mem_redis_def)
  have ne: "sample_root \<noteq> Map.empty" 
    by (rule notI, drule fun_cong [where x = "''code''"]) (simp add: sample_root_def)
  have gen: "generated_so_far sample_env ''t'' sample_root sample_world = Inr 0"
    by (simp add: generated_so_far_def w_string_def sample_world_def sample_env_def mem_redis_def empty_data_def sample_root_def)
  have work: "expand_with sample_env ''t'' (root_node_id ''t'') sample_root sample_root 0 sample_plan_of_root
      (expansion_plan sample_plan_of_root 0 0) sample_world
      = run_expansion sample_env sample_expansion [''a <= b''] sample_world"
    unfolding sample_expansion_plan expand_with_def
    using sample_candidates
    by (simp add: field_str_def sample_root_def read_snapshot_def field_str_or_def snapshot_number_def sample_expansion_def Let_def)
  have red: "we_redis sample_env = mem_redis" "we_budgets sample_env = sample_budgets" by (simp_all add: sample_env_def)
  have fields: "sample_root ''is_terminal'' = None" "sample_root ''expanded'' = None" "field_int sample_root ''depth'' 0 = Inr 0"
    by (simp_all add: sample_root_def field_int_def)
  have "expand sample_env ''t'' (root_node_id ''t'') sample_world = run_expansion sample_env sample_expansion [''a <= b''] sample_world"
    using work by (simp add: expand_def Let_def red node ne fields sample_root_plan gen sample_expansion_plan)
      (simp add: sample_plan_of_root_def legacy_task_plan_def sample_budgets_def Let_def)
  then show ?thesis using sample_run by (auto simp: run_expansion_def)
qed


end
