(* ===== verification/ForestProps.thy ===== *)
theory ForestProps
  imports ForestWitness
begin

text \<open>
  Properties of the worker: what one expansion adds to the store and to the dispatch stream and
  how that is accounted in the task's budget, that a finished expansion is not repeated, and that
  the worker can stay on a finished node.
\<close>

section \<open>What storing a candidate changes\<close>

lemma update_db_data [simp]: "w_store (w\<lparr>w_db := db\<rparr>) = w_store w"
  by simp

text \<open>The request that travels to the dispatcher for a candidate.\<close>

definition request_for :: "('s, 'e) worker_env \<Rightarrow> expansion \<Rightarrow> string \<Rightarrow> execution_request \<Rightarrow> bool" where
  "request_for env ex candidate request \<longleftrightarrow>
     er_candidate_id request = candidate_id env ex candidate \<and> er_task_id request = ex_task_id ex
   \<and> er_run_id request = we_run_id env candidate \<and> tc_code (er_capsule request) = candidate
   \<and> tc_id (er_capsule request) = candidate_id env ex candidate \<and> tc_run_id (er_capsule request) = we_run_id env candidate
   \<and> select_executor_core env (candidate_id env ex candidate) = Inr (er_executor_core request)"

lemma dispatch_capsule_cases:
  assumes "shared_store (we_redis env)"
  shows "(\<exists>w' request. dispatch_capsule env capsule w = Done w'
      \<and> r_data (we_redis env) (w_store w') = apply_cmds [CXAdd STREAM_DISPATCH (Doc (request_to_json request))]
          (r_data (we_redis env) (w_store w))
      \<and> er_candidate_id request = tc_id capsule \<and> er_task_id request = tc_tree_id capsule
      \<and> er_run_id request = tc_run_id capsule \<and> er_capsule request = capsule
      \<and> select_executor_core env (tc_id capsule) = Inr (er_executor_core request))
    \<or> (\<exists>e. dispatch_capsule env capsule w = Crash e w)"
  using assms
  by (cases "select_executor_core env (tc_id capsule)")
    (auto simp: dispatch_capsule_def queue_execution_def Let_def split: sum.splits)

lemma record_and_dispatch_cases:
  assumes "shared_store (we_redis env)"
  shows "(\<exists>w' request. record_and_dispatch env ex pruned capsule w = Done w'
      \<and> r_data (we_redis env) (w_store w') = apply_cmds [CXAdd STREAM_DISPATCH (Doc (request_to_json request))]
          (r_data (we_redis env) (w_store w))
      \<and> er_candidate_id request = tc_id capsule \<and> er_task_id request = tc_tree_id capsule
      \<and> er_run_id request = tc_run_id capsule \<and> er_capsule request = capsule
      \<and> select_executor_core env (tc_id capsule) = Inr (er_executor_core request))
    \<or> (\<exists>e w'. record_and_dispatch env ex pruned capsule w = Crash e w' \<and> w_store w' = w_store w)"
proof (cases "record_candidate (tc_id capsule)
    (candidate_record env ex (tc_source_relpath capsule) (tc_source_path capsule) pruned) (w_db w)")
  case (Inl e)
  then show ?thesis by (simp add: record_and_dispatch_def)
next
  case (Inr db)
  let ?w = "w\<lparr>w_db := snd (update_task_status (ex_task_id ex) ''running'' db)\<rparr>"
  have "record_and_dispatch env ex pruned capsule w = dispatch_capsule env capsule ?w"
    using Inr by (simp add: record_and_dispatch_def)
  then show ?thesis
    using dispatch_capsule_cases [OF assms, of capsule ?w] by (metis update_db_data)
qed

lemma candidate_capsule_fields:
  "candidate_capsule env ex candidate = Inr capsule \<Longrightarrow> tc_id capsule = candidate_id env ex candidate
    \<and> tc_tree_id capsule = ex_task_id ex \<and> tc_code capsule = candidate \<and> tc_run_id capsule = we_run_id env candidate"
  by (auto simp: candidate_capsule_def py_bind_Inr)

lemma store_candidate_Done:
  assumes R: "shared_store (we_redis env)" and "store_candidate env ex pruned candidate w = Done w'"
  obtains fs request where "child_fields ex candidate = Inr fs" and "request_for env ex candidate request"
    and "r_data (we_redis env) (w_store w')
      = apply_cmds (store_cmds env ex candidate fs @ [CXAdd STREAM_DISPATCH (Doc (request_to_json request))])
          (r_data (we_redis env) (w_store w))"
proof -
  obtain fs capsule where fs: "child_fields ex candidate = Inr fs" and c: "candidate_capsule env ex candidate = Inr capsule"
    and d: "record_and_dispatch env ex pruned capsule (w_exec (we_redis env) (store_cmds env ex candidate fs) w) = Done w'"
    using assms(2) unfolding store_candidate_def try_value_Done Let_def by blast
  from record_and_dispatch_cases [OF R, of ex pruned capsule "w_exec (we_redis env) (store_cmds env ex candidate fs) w"] d
  obtain request where r: "r_data (we_redis env) (w_store w') = apply_cmds [CXAdd STREAM_DISPATCH (Doc (request_to_json request))]
      (r_data (we_redis env) (w_store (w_exec (we_redis env) (store_cmds env ex candidate fs) w)))"
    "request_for env ex candidate request"
    using candidate_capsule_fields [OF c] by (auto simp: request_for_def)
  show thesis
    using r(1) R by (intro that [OF fs r(2)]) simp
qed

lemma store_candidate_Crash:
  assumes R: "shared_store (we_redis env)" and "store_candidate env ex pruned candidate w = Crash e w'"
  shows "r_data (we_redis env) (w_store w') = r_data (we_redis env) (w_store w)
    \<or> (\<exists>fs. child_fields ex candidate = Inr fs
        \<and> r_data (we_redis env) (w_store w') = apply_cmds (store_cmds env ex candidate fs) (r_data (we_redis env) (w_store w)))"
proof (cases "child_fields ex candidate")
  case (Inl e)
  with assms(2) show ?thesis by (simp add: store_candidate_def)
next
  case (Inr fs)
  let ?w = "w_exec (we_redis env) (store_cmds env ex candidate fs) w"
  have "w_store w' = w_store ?w"
  proof (cases "candidate_capsule env ex candidate")
    case (Inl e)
    with Inr assms(2) show ?thesis by (simp add: store_candidate_def)
  next
    case capsule: (Inr capsule)
    with Inr assms(2) have "record_and_dispatch env ex pruned capsule ?w = Crash e w'"
      by (simp add: store_candidate_def)
    with record_and_dispatch_cases [OF R, of ex pruned capsule ?w] show ?thesis by auto
  qed
  with Inr R show ?thesis by simp
qed

section \<open>Dispatches and the budget\<close>

abbreviation dispatched :: "('s, 'e) worker_env \<Rightarrow> 's world \<Rightarrow> rtext list" where
  "dispatched env w \<equiv> rd_streams (r_data (we_redis env) (w_store w)) STREAM_DISPATCH"

abbreviation children_of :: "('s, 'e) worker_env \<Rightarrow> 's world \<Rightarrow> string \<Rightarrow> string set" where
  "children_of env w n \<equiv> rd_sets (r_data (we_redis env) (w_store w)) (node_children_key n)"

lemma reserve_frame:
  assumes "shared_store R" and "reserve_candidate_budget R t plan w = (ok, w')"
  shows "rd_streams (r_data R (w_store w')) = rd_streams (r_data R (w_store w))"
    and "rd_sets (r_data R (w_store w')) = rd_sets (r_data R (w_store w))"
    and "k \<noteq> root_node_id t \<Longrightarrow> rd_hashes (r_data R (w_store w')) k = rd_hashes (r_data R (w_store w)) k"
  using assms
  by (auto simp: reserve_candidate_budget_def split_beta reserve_incr_def reserve_decr_def mark_exhausted_data
      exhausted_cmds_def shared_store.incr_data shared_store.decr_data split: if_splits)

lemma used_of_strings:
  "rd_strings (r_data R (w_store w)) = rd_strings (r_data R (w_store w')) \<Longrightarrow> budget_used R t w = budget_used R t w'"
  by (simp add: budget_used_def w_string_def)

text \<open>
  \<open>accounted env ex cands w w' leak\<close>: the steps from \<open>w\<close> to \<open>w'\<close> queued one request for each
  place they took of the budget, but for \<open>leak\<close> places.
\<close>

definition accounted ::
    "('s, 'e) worker_env \<Rightarrow> expansion \<Rightarrow> string set \<Rightarrow> execution_request list \<Rightarrow> 's world \<Rightarrow> 's world \<Rightarrow> nat \<Rightarrow> bool" where
  "accounted env ex cands requests w w' leak \<longleftrightarrow>
     dispatched env w' = dispatched env w @ map (Doc \<circ> request_to_json) requests
   \<and> budget_used (we_redis env) (ex_task_id ex) w' = budget_used (we_redis env) (ex_task_id ex) w + int (length requests + leak)
   \<and> budget_used (we_redis env) (ex_task_id ex) w' \<le> max (budget_used (we_redis env) (ex_task_id ex) w) (tp_max_capsules (ex_plan ex))
   \<and> (\<forall>r \<in> set requests. \<exists>c \<in> cands. request_for env ex c r
        \<and> is_semantically_equivalent (we_parse env) (we_parse_eval env) (we_z3 env) (ex_code ex) c = Inr False)"

lemma accounted_refl: "accounted env ex cands [] w w 0"
  by (simp add: accounted_def)

lemma accounted_trans:
  "accounted env ex cands rs w w' 0 \<Longrightarrow> accounted env ex cands rs' w' w'' leak
   \<Longrightarrow> accounted env ex cands (rs @ rs') w w'' leak"
  by (auto simp: accounted_def)

lemma accounted_mono: "accounted env ex cands rs w w' leak \<Longrightarrow> cands \<subseteq> cands' \<Longrightarrow> accounted env ex cands' rs w w' leak"
  unfolding accounted_def by blast

lemma accounted_quiet:
  assumes "accounted env ex cands rs w w' leak" and "rd_strings (r_data (we_redis env) (w_store w'')) (task_budget_key (ex_task_id ex))
      = rd_strings (r_data (we_redis env) (w_store w')) (task_budget_key (ex_task_id ex))"
    and "dispatched env w'' = dispatched env w'"
  shows "accounted env ex cands rs w w'' leak"
  using assms by (simp add: accounted_def budget_used_def w_string_def)

lemma store_after_reserve_accounted:
  assumes R: "shared_store (we_redis env)"
    and reserve: "reserve_candidate_budget (we_redis env) (ex_task_id ex) (ex_plan ex) w = (True, w1)"
    and live: "is_semantically_equivalent (we_parse env) (we_parse_eval env) (we_z3 env) (ex_code ex) c = Inr False"
  shows "(\<exists>w2 request. store_candidate env ex pruned c w1 = Done w2 \<and> accounted env ex {c} [request] w w2 0)
    \<or> (\<exists>e w2. store_candidate env ex pruned c w1 = Crash e w2 \<and> accounted env ex {c} [] w w2 1)"
proof -
  let ?R = "we_redis env" and ?t = "ex_task_id ex"
  have used: "budget_used ?R ?t w1 = budget_used ?R ?t w + 1" "budget_used ?R ?t w < tp_max_capsules (ex_plan ex)"
    using reserve_used [OF R reserve] by simp_all
  have stream: "dispatched env w1 = dispatched env w"
    using reserve_frame(1) [OF R reserve] by simp
  show ?thesis
  proof (cases "store_candidate env ex pruned c w1")
    case (Done w2)
    obtain fs request where r: "request_for env ex c request"
      and d: "r_data ?R (w_store w2) = apply_cmds (store_cmds env ex c fs @ [CXAdd STREAM_DISPATCH (Doc (request_to_json request))])
          (r_data ?R (w_store w1))"
      by (rule store_candidate_Done [OF R Done])
    have "budget_used ?R ?t w2 = budget_used ?R ?t w1"
      by (rule used_of_strings) (simp add: d store_cmds_def)
    moreover have "dispatched env w2 = dispatched env w1 @ [Doc (request_to_json request)]"
      by (simp add: d store_cmds_def)
    ultimately have "accounted env ex {c} [request] w w2 0"
      using used stream r live by (simp add: accounted_def)
    with Done show ?thesis by blast
  next
    case (Crash e w2)
    from store_candidate_Crash [OF R Crash] have "budget_used ?R ?t w2 = budget_used ?R ?t w1"
      by (intro used_of_strings) (auto simp: store_cmds_def)
    moreover from store_candidate_Crash [OF R Crash] have "dispatched env w2 = dispatched env w1"
      by (auto simp: store_cmds_def)
    ultimately have "accounted env ex {c} [] w w2 1"
      using used stream by (simp add: accounted_def)
    with Crash show ?thesis by blast
  qed
qed

lemma refused_accounted:
  assumes R: "shared_store (we_redis env)"
    and reserve: "reserve_candidate_budget (we_redis env) (ex_task_id ex) (ex_plan ex) w = (False, w1)"
  shows "accounted env ex cands [] w w1 0"
  using reserve_used(2) [OF R reserve] reserve_frame(1) [OF R reserve] by (simp add: accounted_def)

lemma expand_candidates_accounted:
  assumes R: "shared_store (we_redis env)"
  shows "expand_candidates env ex cands (g, p, w) = Done (g', p', w') \<Longrightarrow>
      \<exists>requests. accounted env ex (set cands) requests w w' 0 \<and> g' = g + length requests \<and> length requests \<le> length cands"
    and "expand_candidates env ex cands (g, p, w) = Crash e (g', p', w') \<Longrightarrow>
      \<exists>requests leak. accounted env ex (set cands) requests w w' leak \<and> leak \<le> 1 \<and> length requests \<le> length cands"
proof (induction cands arbitrary: g p w)
  case Nil
  { case 1 then show ?case using accounted_refl by (intro exI [of _ "[]"]) auto }
  { case 2 then show ?case by simp }
next
  case (Cons c cands)
  have mono: "accounted env ex (set cands) rs v v' l \<Longrightarrow> accounted env ex (set (c # cands)) rs v v' l" for rs v v' l
    by (rule accounted_mono) auto
  have head: "accounted env ex {c} rs v v' l \<Longrightarrow> accounted env ex (set (c # cands)) rs v v' l" for rs v v' l
    by (rule accounted_mono) auto
  consider (bad) e where "is_semantically_equivalent (we_parse env) (we_parse_eval env) (we_z3 env) (ex_code ex) c = Inl e"
    | (pruned) "is_semantically_equivalent (we_parse env) (we_parse_eval env) (we_z3 env) (ex_code ex) c = Inr True"
    | (live) "is_semantically_equivalent (we_parse env) (we_parse_eval env) (we_z3 env) (ex_code ex) c = Inr False"
    by (metis (full_types) sum.exhaust)
  note verdict = this
  { case 1
    from verdict show ?case
    proof cases
      case bad then show ?thesis using 1 by simp
    next
      case pruned
      with 1 Cons.IH(1) [of g "Suc p" w] obtain rs where "accounted env ex (set cands) rs w w' 0"
        "g' = g + length rs" "length rs \<le> length cands" by auto
      then show ?thesis using mono by fastforce
    next
      case live
      obtain ok w1 where reserve: "reserve_candidate_budget (we_redis env) (ex_task_id ex) (ex_plan ex) w = (ok, w1)"
        by fastforce
      show ?thesis
      proof (cases ok)
        case False
        with 1 live reserve have "w' = w1" "g' = g" by simp_all
        with False refused_accounted [OF R, of ex w w1] reserve show ?thesis
          by (intro exI [of _ "[]"]) simp
      next
        case True
        with 1 live reserve obtain w2 where s: "store_candidate env ex p c w1 = Done w2"
          "expand_candidates env ex cands (Suc g, p, w2) = Done (g', p', w')"
          by (auto split: outcome.splits)
        from store_after_reserve_accounted [OF R, of ex w w1 c p] True reserve live s(1)
        obtain request where r: "accounted env ex {c} [request] w w2 0" by auto
        from Cons.IH(1) [OF s(2)] obtain rs where rs: "accounted env ex (set cands) rs w2 w' 0"
          "g' = Suc g + length rs" "length rs \<le> length cands" by blast
        from accounted_trans [OF head [OF r] mono [OF rs(1)]] rs(2,3) show ?thesis
          by (intro exI [of _ "[request] @ rs"]) simp
      qed
    qed }
  { case 2
    from verdict show ?case
    proof cases
      case bad
      with 2 have "w' = w" by simp
      then show ?thesis using accounted_refl by (intro exI [of _ "[]"] exI [of _ 0]) simp
    next
      case pruned
      with 2 Cons.IH(2) [of g "Suc p" w] obtain rs l where "accounted env ex (set cands) rs w w' l" "l \<le> 1"
        "length rs \<le> length cands" by auto
      then show ?thesis using mono by fastforce
    next
      case live
      obtain ok w1 where reserve: "reserve_candidate_budget (we_redis env) (ex_task_id ex) (ex_plan ex) w = (ok, w1)"
        by fastforce
      with 2 live have ok: "ok" by (cases ok) auto
      note step = store_after_reserve_accounted [OF R reserve [unfolded eq_True [THEN iffD2, OF ok]] live, of p]
      show ?thesis
      proof (cases "store_candidate env ex p c w1")
        case (Crash e' w2)
        with 2 live reserve ok have "w' = w2" by simp
        with step Crash show ?thesis using head by (intro exI [of _ "[]"] exI [of _ 1]) auto
      next
        case (Done w2)
        with step obtain request where r: "accounted env ex {c} [request] w w2 0" by auto
        from Done 2 live reserve ok have "expand_candidates env ex cands (Suc g, p, w2) = Crash e (g', p', w')" by simp
        from Cons.IH(2) [OF this] obtain rs l where rs: "accounted env ex (set cands) rs w2 w' l" "l \<le> 1"
          "length rs \<le> length cands" by blast
        from accounted_trans [OF head [OF r] mono [OF rs(1)]] rs(2,3) show ?thesis
          by (intro exI [of _ "[request] @ rs"] exI [of _ l]) simp
      qed
    qed }
qed

section \<open>Expansion as a whole\<close>

lemma finish_expansion_data:
  "shared_store (we_redis env) \<Longrightarrow> r_data (we_redis env) (w_store (finish_expansion env ex (g, p, w))) =
    apply_cmds (CHSet (ex_node_id ex) [(''expanded'', Txt ''True'')]
      # (if g = 0 then [CHSet (ex_node_id ex) [(''is_terminal'', Txt ''True'')]] else [])) (r_data (we_redis env) (w_store w))"
  by (simp add: finish_expansion_def del: apply_cmds_simps)

lemma expand_with_accounted:
  assumes R: "shared_store (we_redis env)"
    and out: "expand_with env t n node root_data depth plan eplan w = out"
  shows "\<exists>ex cands requests leak. ex_task_id ex = t \<and> ex_plan ex = plan
    \<and> accounted env ex (set cands) requests w (outcome_world out) leak
    \<and> (cands = [] \<or> field_str node ''code'' = Inr (ex_code ex) \<and> expansion_candidates env eplan (ex_code ex) = Inr cands)
    \<and> leak \<le> (case out of Done w' \<Rightarrow> 0 | Crash e w' \<Rightarrow> 1) \<and> length requests \<le> length cands"
proof -
  have idle: ?thesis if "out = Crash e w" for e
  proof -
    obtain ex :: expansion where "ex_task_id ex = t" "ex_plan ex = plan"
      using that by (metis (full_types) expansion.select_convs(1,6))
    with that show ?thesis
      using accounted_refl by (intro exI [of _ ex] exI [of _ "[]"] exI [of _ 0]) simp
  qed
  show ?thesis
  proof (cases "\<exists>e. out = Crash e w")
    case True
    with idle show ?thesis by blast
  next
    case False
    obtain code cands snapshot digest bytes files where
      code: "field_str node ''code'' = Inr code" "expansion_candidates env eplan code = Inr cands"
      and rest: "read_snapshot root_data = Inr snapshot" "field_str_or root_data ''repo_snapshot_digest'' '''' = Inr digest"
        "snapshot_number root_data ''repo_snapshot_bytes'' = Inr bytes" "snapshot_number root_data ''repo_snapshot_files'' = Inr files"
      using out False unfolding expand_with_def try_value_def by (auto split: sum.splits)
    define ex where "ex = \<lparr>ex_task_id = t, ex_node_id = n, ex_node = node, ex_code = code, ex_depth = depth,
             ex_plan = plan, ex_target_lines = ep_target_lines eplan, ex_repo_snapshot = snapshot,
             ex_repo_snapshot_digest = digest, ex_repo_snapshot_bytes = bytes, ex_repo_snapshot_files = files\<rparr>"
    have ex: "ex_task_id ex = t" "ex_plan ex = plan" "ex_code ex = code" "ex_node_id ex = n" by (simp_all add: ex_def)
    have "out = run_expansion env ex cands w"
      using out code rest by (simp add: expand_with_def ex_def Let_def)
    note run = this [unfolded run_expansion_def]
    show ?thesis
    proof (cases "expand_candidates env ex cands (0, 0, w)")
      case (Done st)
      obtain g p w1 where st: "st = (g, p, w1)" by (cases st)
      from expand_candidates_accounted(1) [OF R Done [unfolded st]] obtain requests where
        a: "accounted env ex (set cands) requests w w1 0" "length requests \<le> length cands" by blast
      have "accounted env ex (set cands) requests w (finish_expansion env ex (g, p, w1)) 0"
        by (rule accounted_quiet [OF a(1)]) (simp_all add: finish_expansion_data [OF R])
      with a(2) ex code run Done st show ?thesis
        by (intro exI [of _ ex] exI [of _ cands] exI [of _ requests] exI [of _ 0]) simp
    next
      case (Crash e st)
      obtain g p w1 where st: "st = (g, p, w1)" by (cases st)
      from expand_candidates_accounted(2) [OF R Crash [unfolded st]] obtain requests leak where
        "accounted env ex (set cands) requests w w1 leak" "leak \<le> 1" "length requests \<le> length cands" by blast
      with ex code run Crash st show ?thesis
        by (intro exI [of _ ex] exI [of _ cands] exI [of _ requests] exI [of _ leak]) simp
    qed
  qed
qed

text \<open>An expansion leaves the budget and the dispatch stream as they are, or it works off a plan.\<close>

lemma expand_idle_or_works:
  fixes env w task_id
  defines "quiet \<equiv> \<lambda>v. dispatched env v = dispatched env w
      \<and> budget_used (we_redis env) task_id v = budget_used (we_redis env) task_id w"
  assumes R: "shared_store (we_redis env)"
    and plan: "worker_task_plan (we_budgets env) (w_hash (we_redis env) w (root_node_id task_id)) = Inr plan"
  shows "quiet (outcome_world (expand env task_id node_id w)) \<or> (\<exists>root_data depth eplan.
    expand env task_id node_id w = expand_with env task_id node_id (w_hash (we_redis env) w node_id) root_data depth plan eplan w)"
proof -
  let ?R = "we_redis env" and ?node = "w_hash (we_redis env) w node_id" and ?out = "expand env task_id node_id w"
  show ?thesis
  proof (cases "?node = Map.empty \<or> ?node ''is_terminal'' = Some (Txt ''True'') \<or> ?node ''expanded'' = Some (Txt ''True'')")
    case True
    then have "?out = Done w" by (auto simp: expand_def Let_def)
    then show ?thesis by (simp add: quiet_def)
  next
    case False
    then have out: "?out = try_value (field_int ?node ''depth'' 0) w (\<lambda>depth.
                if tp_max_depth plan \<le> depth then Done (w_exec ?R (terminal_cmds node_id) w)
                else try_value (generated_so_far env task_id (w_hash ?R w (root_node_id task_id)) w) w (\<lambda>generated_capsules.
                  let eplan = expansion_plan plan depth generated_capsules
                  in if ep_max_candidates eplan = 0
                     then Done (w_exec ?R (terminal_cmds node_id) (mark_budget_exhausted ?R task_id w))
                     else expand_with env task_id node_id ?node (w_hash ?R w (root_node_id task_id)) depth plan eplan w))"
      using plan by (simp add: expand_def Let_def)
    have q: "quiet w" "quiet (w_exec ?R (terminal_cmds node_id) w)"
      "quiet (w_exec ?R (terminal_cmds node_id) (mark_budget_exhausted ?R task_id w))"
      using R by (simp_all add: quiet_def terminal_cmds_def budget_used_def w_string_def mark_exhausted_data exhausted_cmds_def)
    show ?thesis
    proof (cases "field_int ?node ''depth'' 0")
      case (Inl e)
      with out q show ?thesis by simp
    next
      case d: (Inr depth)
      show ?thesis
      proof (cases "generated_so_far env task_id (w_hash ?R w (root_node_id task_id)) w")
        case (Inl e)
        with out d q show ?thesis by simp
      next
        case (Inr generated)
        with out d q show ?thesis
          by (cases "tp_max_depth plan \<le> depth"; cases "ep_max_candidates (expansion_plan plan depth generated) = 0")
            (auto simp: Let_def)
      qed
    qed
  qed
qed

text \<open>
  C8. An expansion queues exactly as many executions as it takes places in the task's budget; an
  exception in the middle costs at most one place more. The budget never grows beyond the plan's
  number of candidates, and every queued request carries a candidate that the patcher generated
  from the node's code and that the oracle did not find equivalent to it.
\<close>

theorem expansion_accounts_for_its_dispatches:
  assumes "shared_store (we_redis env)"
    and "worker_task_plan (we_budgets env) (w_hash (we_redis env) w (root_node_id task_id)) = Inr plan"
    and "expand env task_id node_id w = out"
  shows "\<exists>ex requests leak.
    dispatched env (outcome_world out) = dispatched env w @ map (Doc \<circ> request_to_json) requests
    \<and> budget_used (we_redis env) task_id (outcome_world out)
        = budget_used (we_redis env) task_id w + int (length requests + leak)
    \<and> leak \<le> (case out of Done w' \<Rightarrow> 0 | Crash e w' \<Rightarrow> 1)
    \<and> budget_used (we_redis env) task_id (outcome_world out) \<le> max (budget_used (we_redis env) task_id w) (tp_max_capsules plan)
    \<and> (\<forall>r \<in> set requests. \<exists>code c eplan cands.
        field_str (w_hash (we_redis env) w node_id) ''code'' = Inr code
        \<and> expansion_candidates env eplan code = Inr cands \<and> c \<in> set cands \<and> request_for env ex c r
        \<and> is_semantically_equivalent (we_parse env) (we_parse_eval env) (we_z3 env) code c = Inr False)"
proof -
  let ?R = "we_redis env" and ?node = "w_hash (we_redis env) w node_id"
  consider (idle) "dispatched env (outcome_world out) = dispatched env w" "budget_used ?R task_id (outcome_world out) = budget_used ?R task_id w"
    | (work) root_data depth eplan where "out = expand_with env task_id node_id ?node root_data depth plan eplan w"
    using expand_idle_or_works [OF assms(1,2), of node_id] unfolding assms(3) by blast
  then show ?thesis
  proof cases
    case idle
    then show ?thesis
      by (intro exI exI [of _ "[]"] exI [of _ 0]) simp
  next
    case (work root_data depth eplan)
    from expand_with_accounted [OF assms(1) work [symmetric]] obtain ex cands requests leak where
      a: "ex_task_id ex = task_id" "ex_plan ex = plan" "accounted env ex (set cands) requests w (outcome_world out) leak"
      and c: "cands = [] \<or> field_str ?node ''code'' = Inr (ex_code ex) \<and> expansion_candidates env eplan (ex_code ex) = Inr cands"
      and l: "leak \<le> (case out of Done w' \<Rightarrow> 0 | Crash e w' \<Rightarrow> 1)" by blast
    have "\<forall>r \<in> set requests. \<exists>code c eplan cands. field_str ?node ''code'' = Inr code
        \<and> expansion_candidates env eplan code = Inr cands \<and> c \<in> set cands \<and> request_for env ex c r
        \<and> is_semantically_equivalent (we_parse env) (we_parse_eval env) (we_z3 env) code c = Inr False"
    proof
      fix r assume "r \<in> set requests"
      with a(3) obtain x where x: "x \<in> set cands" "request_for env ex x r"
        "is_semantically_equivalent (we_parse env) (we_parse_eval env) (we_z3 env) (ex_code ex) x = Inr False"
        unfolding accounted_def by blast
      with c have "field_str ?node ''code'' = Inr (ex_code ex)" "expansion_candidates env eplan (ex_code ex) = Inr cands"
        by auto
      with x show "\<exists>code c eplan cands. field_str ?node ''code'' = Inr code
        \<and> expansion_candidates env eplan code = Inr cands \<and> c \<in> set cands \<and> request_for env ex c r
        \<and> is_semantically_equivalent (we_parse env) (we_parse_eval env) (we_z3 env) code c = Inr False" by blast
    qed
    moreover have "dispatched env (outcome_world out) = dispatched env w @ map (Doc \<circ> request_to_json) requests"
      "budget_used (we_redis env) task_id (outcome_world out)
        = budget_used (we_redis env) task_id w + int (length requests + leak)"
      "budget_used (we_redis env) task_id (outcome_world out) \<le> max (budget_used (we_redis env) task_id w) (tp_max_capsules plan)"
      using a unfolding accounted_def by auto
    ultimately show ?thesis using l by blast
  qed
qed

theorem expansion_accounts_for_its_dispatches_witness:
  "\<exists>w. expand sample_env ''t'' (root_node_id ''t'') sample_world = Done w
    \<and> budget_used mem_redis ''t'' w = int (length (dispatched sample_env w))"
proof -
  obtain w where done': "expand sample_env ''t'' (root_node_id ''t'') sample_world = Done w"
    using sample_expand by blast
  have env: "we_redis sample_env = mem_redis" "we_budgets sample_env = sample_budgets"
    by (simp_all add: sample_env_def)
  have start: "rd_streams (r_data mem_redis (w_store sample_world)) STREAM_DISPATCH = []" "budget_used mem_redis ''t'' sample_world = 0"
    "w_hash mem_redis sample_world (root_node_id ''t'') = sample_root"
    by (simp_all add: env budget_used_def w_string_def w_hash_def sample_world_def empty_data_def mem_redis_def)
  have "shared_store (we_redis sample_env)"
    by (simp only: env mem.shared_store_axioms)
  from expansion_accounts_for_its_dispatches [OF this _ done', of sample_plan_of_root]
  show ?thesis using done' by (auto simp: env start sample_root_plan)
qed

section \<open>Expanding twice\<close>

lemma w_hash_hset:
  "shared_store R \<Longrightarrow> w_hash R (w_exec R cmds w) k = rd_hashes (apply_cmds cmds (r_data R (w_store w))) k"
  by (simp add: w_hash_def)

lemma expand_marks:
  assumes R: "shared_store (we_redis env)" and "expand env task_id node_id w = Done w'"
  shows "w' = w \<or> w_hash (we_redis env) w' node_id ''expanded'' = Some (Txt ''True'')"
proof -
  let ?R = "we_redis env"
  have terminal: "w_hash ?R (w_exec ?R (terminal_cmds node_id) v) node_id ''expanded'' = Some (Txt ''True'')" for v
    using R by (simp add: w_hash_hset terminal_cmds_def)
  have marked: "w_hash ?R (finish_expansion env ex st) (ex_node_id ex) ''expanded'' = Some (Txt ''True'')" for ex st
    using finish_expansion_data [OF R, of ex "fst st" "fst (snd st)" "snd (snd st)"] by (simp add: w_hash_def)
  have worked: "w_hash ?R w' node_id ''expanded'' = Some (Txt ''True'')"
    if run: "expand_with env task_id node_id node root_data depth plan eplan w = Done w'" for node root_data depth plan eplan
  proof -
    obtain ex st where "w' = finish_expansion env ex st" "ex_node_id ex = node_id"
    proof -
      obtain ex cands where "run_expansion env ex cands w = Done w'" "ex_node_id ex = node_id"
        using run unfolding expand_with_def try_value_Done Let_def by (metis expansion.select_convs(2))
      then show thesis
        using that by (auto simp: run_expansion_def split: outcome.splits)
    qed
    with marked [of ex st] show ?thesis by simp
  qed
  have "w' = w \<or> (\<exists>v. w' = w_exec ?R (terminal_cmds node_id) v)
      \<or> (\<exists>node root_data depth plan eplan. expand_with env task_id node_id node root_data depth plan eplan w = Done w')"
    using assms(2) unfolding expand_def Let_def try_value_Done
    by (simp split: if_splits add: try_value_Done) blast+
  with terminal worked show ?thesis by blast
qed

text \<open>
  C37. Expansion is idempotent: once it has ended normally the node is marked, and expanding it
  again, by this worker or another one that selected it meanwhile, changes nothing.
\<close>

theorem expansion_is_idempotent:
  assumes "shared_store (we_redis env)" and "expand env task_id node_id w = Done w'"
  shows "expand env task_id node_id w' = Done w'"
  using expand_marks [OF assms] assms(2) by (auto simp: expand_def Let_def)

theorem expansion_is_idempotent_witness:
  "\<exists>w. expand sample_env ''t'' (root_node_id ''t'') sample_world = Done w
    \<and> expand sample_env ''t'' (root_node_id ''t'') w = Done w"
proof -
  have "shared_store (we_redis sample_env)"
    by (simp add: sample_env_def mem.shared_store_axioms)
  from expansion_is_idempotent [OF this] show ?thesis using sample_expand by blast
qed

section \<open>A finished node that stays the best\<close>

lemma with_lock_idle:
  assumes "shared_store (we_redis env)" and "w_string (we_redis env) w (node_lock_key n) = None"
    and "\<And>v. w_hash (we_redis env) v n = w_hash (we_redis env) w n \<Longrightarrow> body v = Done v"
  shows "\<exists>w'. with_lock env n body w = Done w' \<and> r_data (we_redis env) (w_store w') = r_data (we_redis env) (w_store w)
    \<and> w_db w' = w_db w"
proof -
  let ?R = "we_redis env" and ?k = "node_lock_key n" and ?v = "Txt (we_worker_id env)"
  define v where "v = w\<lparr>w_store := snd (r_setnx ?R ?k ?v (w_store w))\<rparr>"
  have data: "r_data ?R (w_store v) = (r_data ?R (w_store w))\<lparr>rd_strings := (rd_strings (r_data ?R (w_store w)))(?k \<mapsto> ?v)\<rparr>"
    using assms(1,2) by (simp add: v_def shared_store.setnx_data w_string_def)
  have locked: "fst (r_setnx ?R ?k ?v (w_store w))"
    using assms(1,2) by (simp add: shared_store.setnx_value w_string_def)
  have "body v = Done v"
    by (rule assms(3)) (simp add: w_hash_def data)
  moreover have "w_string ?R v ?k = Some ?v"
    by (simp add: w_string_def data)
  ultimately have "with_lock env n body w = Done (w_exec ?R [CDelete ?k] v)"
    using locked by (simp add: with_lock_def Let_def split_beta v_def)
  moreover have "r_data ?R (w_store (w_exec ?R [CDelete ?k] v)) = r_data ?R (w_store w)"
    using assms(1,2) by (simp add: data w_string_def fun_upd_idem)
  ultimately show ?thesis by (simp add: v_def)
qed

lemma distributed_select_data:
  "r_data R (w_store w) = r_data R (w_store w') \<Longrightarrow> distributed_select R b t w = distributed_select R b t w'"
  by (simp add: distributed_select_def)

text \<open>
  The selection does not skip finished nodes. While the child of highest bound is one that is
  already expanded or terminal and has no children of its own, a worker visits it again and again
  and leaves the store and the ledger as they were, whatever other nodes of the tree wait for
  their expansion.
\<close>

theorem finished_leaf_stalls_the_search:
  assumes "shared_store (we_redis env)"
    and "w_string (we_redis env) w (tree_done_key t) = None" and "w_string (we_redis env) w (tree_budget_exhausted_key t) = None"
    and "distributed_select (we_redis env) (we_budgets env) t w = Some (Inr n)"
    and "w_string (we_redis env) w (node_lock_key n) = None"
    and "w_hash (we_redis env) w n ''expanded'' = Some (Txt ''True'') \<or> w_hash (we_redis env) w n ''is_terminal'' = Some (Txt ''True'')"
  shows "\<exists>w'. visit_tasks env (replicate k t) w = Some (Done w')
    \<and> r_data (we_redis env) (w_store w') = r_data (we_redis env) (w_store w) \<and> w_db w' = w_db w"
  using assms(2-6)
proof (induction k arbitrary: w)
  case 0
  then show ?case by simp
next
  case (Suc k)
  have "expand env t n v = Done v" if "w_hash (we_redis env) v n = w_hash (we_redis env) w n" for v
    using Suc.prems(5) that by (auto simp: expand_def Let_def)
  from with_lock_idle [OF assms(1) Suc.prems(4) this] obtain v where
    v: "with_lock env n (expand env t n) w = Done v" "r_data (we_redis env) (w_store v) = r_data (we_redis env) (w_store w)"
      "w_db v = w_db w" by blast
  have visit: "visit_task env t w = Some (Done v)"
    using Suc.prems v(1) by (simp add: visit_task_def Let_def)
  have "\<exists>w'. visit_tasks env (replicate k t) v = Some (Done w')
      \<and> r_data (we_redis env) (w_store w') = r_data (we_redis env) (w_store v) \<and> w_db w' = w_db v"
    using Suc.prems by (intro Suc.IH) (simp_all add: w_string_def w_hash_def v(2) distributed_select_data [OF v(2)])
  with visit v show ?case by simp
qed

theorem finished_leaf_stalls_the_search_witness:
  "\<exists>w'. visit_tasks sample_env (replicate 100 ''t'') sample_tree = Some (Done w')
    \<and> r_data mem_redis (w_store w') = r_data mem_redis (w_store sample_tree)
    \<and> w_hash mem_redis w' ''x'' ''expanded'' = Some (Txt ''False'')"
proof -
  have env: "we_redis sample_env = mem_redis" "we_budgets sample_env = sample_budgets"
    by (simp_all add: sample_env_def)
  have strings: "w_string mem_redis sample_tree k = None" for k
    by (simp add: w_string_def sample_tree_def mem_redis_def empty_data_def)
  have y: "w_hash mem_redis sample_tree ''y'' ''expanded'' = Some (Txt ''True'')"
    "w_hash mem_redis sample_tree ''x'' ''expanded'' = Some (Txt ''False'')"
    by (simp_all add: w_hash_def sample_tree_simps sample_hash_def key_defs)
  have store: "shared_store (we_redis sample_env)"
    by (simp only: env mem.shared_store_axioms)
  obtain w' where "visit_tasks sample_env (replicate 100 ''t'') sample_tree = Some (Done w')"
    "r_data mem_redis (w_store w') = r_data mem_redis (w_store sample_tree)"
    using finished_leaf_stalls_the_search [OF store, of sample_tree "''t''" "''y''" 100] strings y sample_selection
    by (auto simp: env)
  then show ?thesis using y by (auto simp: w_hash_def)
qed

end
