(* ===== verification/Signatures.thy ===== *)
theory Signatures
  imports SharedStore
begin

text \<open>
  Attestation of verification packs (\<open>signatures.py\<close>): the canonical JSON text of eight fields,
  its signature, and the check. The canonical text is the one \<open>json.dumps\<close> writes with sorted
  keys, compact separators and ASCII output. SHA-256, Base64 and the Ed25519 library are the
  parameter \<open>crypto\<close>; that a signature only verifies what was signed is a hypothesis of the
  theorem that needs it.
\<close>

section \<open>JSON text\<close>

definition hex_digit :: "nat \<Rightarrow> char" where
  "hex_digit n = (if n < 10 then char_of (48 + n) else char_of (87 + n))"

definition hex_value :: "char \<Rightarrow> nat" where
  "hex_value c = (if code_point c < 58 then code_point c - 48 else code_point c - 87)"

abbreviation backslash :: char where "backslash \<equiv> CHR 0x5C"
abbreviation quote_mark :: char where "quote_mark \<equiv> CHR 0x22"

definition json_escape :: "char \<Rightarrow> string" where
  "json_escape c =
     (if c = backslash then [backslash, backslash]
      else if c = quote_mark then [backslash, quote_mark]
      else if c = CHR 0x08 then [backslash, CHR ''b'']
      else if c = CHR 0x0C then [backslash, CHR ''f'']
      else if c = CHR 0x0A then [backslash, CHR ''n'']
      else if c = CHR 0x0D then [backslash, CHR ''r'']
      else if c = CHR 0x09 then [backslash, CHR ''t'']
      else if 32 \<le> code_point c \<and> code_point c \<le> 126 then [c]
      else [backslash, CHR ''u'', CHR ''0'', CHR ''0'', hex_digit (code_point c div 16), hex_digit (code_point c mod 16)])"

definition json_quote :: "string \<Rightarrow> string" where
  "json_quote s = quote_mark # concat (map json_escape s) @ [quote_mark]"

definition json_bool :: "bool \<Rightarrow> string" where
  "json_bool b = (if b then ''true'' else ''false'')"

definition json_int :: "int \<Rightarrow> string" where
  "json_int n = (if n < 0 then CHR ''-'' # nat_str (nat (- n)) else nat_str (nat n))"

definition json_opt_str :: "string option \<Rightarrow> string" where
  "json_opt_str s = (case s of None \<Rightarrow> ''null'' | Some t \<Rightarrow> json_quote t)"

fun json_fields :: "(string \<times> string) list \<Rightarrow> string" where
  "json_fields [] = ''''"
| "json_fields [(k, v)] = json_quote k @ '':'' @ v"
| "json_fields ((k, v) # fs) = json_quote k @ '':'' @ v @ '','' @ json_fields fs"

section \<open>The operations\<close>

definition canonical_signature_bytes :: "verification_pack \<Rightarrow> string" where
  "canonical_signature_bytes pack = ''{'' @ json_fields
     [(''capsule_id'', json_quote (vp_capsule_id pack)),
      (''error_signature'', json_opt_str (vp_error_signature pack)),
      (''hardware_isolated'', json_bool (vp_hardware_isolated pack)),
      (''inputs_digest'', json_quote (vp_inputs_digest pack)),
      (''run_id'', json_quote (vp_run_id pack)),
      (''success'', json_bool (vp_success pack)),
      (''tests_failed'', json_int (vp_tests_failed pack)),
      (''tests_passed'', json_int (vp_tests_passed pack))] @ ''}''"

text \<open>
  \<open>cr_verify_key\<close> builds the verifier from the hexadecimal key, \<open>cr_b64decode\<close> is None where the
  text is no Base64; a signature of the wrong length is \<open>Malformed\<close>, which the library reports by
  another exception than a bad one.
\<close>

datatype signature_check = Valid | BadSignature | Malformed

record ('k, 'v) crypto =
  cr_sha256 :: "string \<Rightarrow> string"
  cr_b64encode :: "string \<Rightarrow> string"
  cr_b64decode :: "string \<Rightarrow> string option"
  cr_sign :: "'k \<Rightarrow> string \<Rightarrow> string"
  cr_verify_key :: "string \<Rightarrow> 'v option"
  cr_verify :: "'v \<Rightarrow> string \<Rightarrow> string \<Rightarrow> signature_check"

definition sign_pack :: "('k, 'v) crypto \<Rightarrow> verification_pack \<Rightarrow> 'k \<Rightarrow> verification_pack" where
  "sign_pack cr pack signing_key =
     (let digest = cr_sha256 cr (canonical_signature_bytes pack);
          signature = cr_sign cr signing_key digest
      in pack\<lparr>vp_attestation := Some (cr_b64encode cr signature)\<rparr>)"

definition verify_pack :: "('k, 'v) crypto \<Rightarrow> verification_pack \<Rightarrow> string \<Rightarrow> py_error + bool" where
  "verify_pack cr pack public_key_hex =
     (case vp_attestation pack of
        None \<Rightarrow> Inr False
      | Some attestation \<Rightarrow>
          if attestation = [] then Inr False
          else let digest = cr_sha256 cr (canonical_signature_bytes pack)
               in case cr_verify_key cr public_key_hex of
                    None \<Rightarrow> Inl ValueError
                  | Some verifier \<Rightarrow>
                      (case cr_b64decode cr attestation of
                         None \<Rightarrow> Inl ValueError
                       | Some signature \<Rightarrow>
                           (case cr_verify cr verifier digest signature of
                              Malformed \<Rightarrow> Inl ValueError
                            | BadSignature \<Rightarrow> Inr False
                            | Valid \<Rightarrow> Inr True)))"

section \<open>The canonical text determines the fields\<close>

definition json_unescape :: "string \<Rightarrow> (char \<times> string) option" where
  "json_unescape s =
     (case s of
        [] \<Rightarrow> None
      | c # rest \<Rightarrow>
          if c \<noteq> backslash then Some (c, rest)
          else case rest of
            [] \<Rightarrow> None
          | d # rest' \<Rightarrow>
              if d = CHR ''u'' then Some (char_of (hex_value (rest' ! 2) * 16 + hex_value (rest' ! 3)), drop 4 rest')
              else if d = CHR ''b'' then Some (CHR 0x08, rest')
              else if d = CHR ''f'' then Some (CHR 0x0C, rest')
              else if d = CHR ''n'' then Some (CHR 0x0A, rest')
              else if d = CHR ''r'' then Some (CHR 0x0D, rest')
              else if d = CHR ''t'' then Some (CHR 0x09, rest')
              else Some (d, rest'))"

lemma hex_value_digit: "n < 16 \<Longrightarrow> hex_value (hex_digit n) = n"
  by (auto simp: hex_value_def hex_digit_def of_char_of)

lemma json_unescape_escape: "json_unescape (json_escape c @ rest) = Some (c, rest)"
proof -
  have lt: "code_point c div 16 < 16" "code_point c mod 16 < 16"
    using code_point_less [of c] by (simp_all add: less_mult_imp_div_less)
  have "code_point c div 16 * 16 + code_point c mod 16 = code_point c"
    by simp
  then have "char_of (code_point c div 16 * 16 + code_point c mod 16) = c"
    by (simp only: char_of_char)
  then show ?thesis
    by (simp add: json_escape_def json_unescape_def hex_value_digit [OF lt(1)] hex_value_digit [OF lt(2)])
qed

lemma json_escape_inject: "json_escape c @ x = json_escape d @ y \<Longrightarrow> c = d \<and> x = y"
  by (metis json_unescape_escape option.inject prod.inject)

lemma json_escape_no_quote: "json_escape c @ x \<noteq> quote_mark # y"
  by (auto simp: json_escape_def)

lemma json_body_inject:
  "concat (map json_escape s) @ quote_mark # x = concat (map json_escape t) @ quote_mark # y \<Longrightarrow> s = t \<and> x = y"
proof (induction s arbitrary: t)
  case Nil
  then show ?case
    using json_escape_no_quote by (cases t) (simp_all, metis)
next
  case (Cons c s)
  show ?case
  proof (cases t)
    case Nil
    with Cons.prems json_escape_no_quote show ?thesis by simp
  next
    case (Cons d t')
    with Cons.prems have "json_escape c @ (concat (map json_escape s) @ quote_mark # x)
        = json_escape d @ (concat (map json_escape t') @ quote_mark # y)" by simp
    from json_escape_inject [OF this] Cons.IH Cons show ?thesis by blast
  qed
qed

lemma json_quote_inject: "json_quote s @ x = json_quote t @ y \<Longrightarrow> s = t \<and> x = y"
  using json_body_inject [of s x t y] by (simp add: json_quote_def)

lemma json_bool_inject: "json_bool b @ x = json_bool b' @ y \<Longrightarrow> b = b' \<and> x = y"
  by (auto simp: json_bool_def split: if_splits)

lemma json_opt_str_inject: "json_opt_str s @ x = json_opt_str t @ y \<Longrightarrow> s = t \<and> x = y"
proof (cases s; cases t)
  fix a b
  assume "json_opt_str s @ x = json_opt_str t @ y" "s = Some a" "t = Some b"
  then show "s = t \<and> x = y"
    using json_quote_inject [of a x b y] by (simp add: json_opt_str_def)
qed (simp_all add: json_opt_str_def json_quote_def)

lemma json_int_chars: "c \<in> set (json_int n) \<Longrightarrow> is_digit c \<or> c = CHR ''-''"
  by (auto simp: json_int_def dest: nat_str_digits split: if_splits)

lemma json_int_eq: "json_int m = json_int n \<Longrightarrow> m = n"
proof -
  assume eq: "json_int m = json_int n"
  have "nat_str k \<noteq> CHR ''-'' # t" for k t
    using nat_str_digits [of "CHR ''-''" k] by (auto simp: is_digit_def)
  with eq show "m = n"
    by (auto simp: json_int_def split: if_splits) (metis list.simps(3) nat_str_inject)+
qed

lemma json_int_inject:
  assumes "json_int m @ d # x = json_int n @ d # y" and "\<not> is_digit d" and "d \<noteq> CHR ''-''"
  shows "m = n \<and> x = y"
proof -
  have "d \<notin> set (json_int k)" for k
    using json_int_chars [of d k] assms(2,3) by blast
  from append_sep_inject_first [OF assms(1) this this] json_int_eq show ?thesis by blast
qed

text \<open>The eight fields that are signed.\<close>

definition signed_fields ::
    "verification_pack \<Rightarrow> string \<times> string option \<times> bool \<times> string \<times> string \<times> bool \<times> int \<times> int" where
  "signed_fields p = (vp_capsule_id p, vp_error_signature p, vp_hardware_isolated p, vp_inputs_digest p,
     vp_run_id p, vp_success p, vp_tests_failed p, vp_tests_passed p)"

lemma canonical_inject:
  assumes "canonical_signature_bytes p = canonical_signature_bytes q"
  shows "signed_fields p = signed_fields q"
proof -
  note peel = append.assoc append_Cons append_Nil same_append_eq list.inject simp_thms
  note e1 = assms [unfolded canonical_signature_bytes_def json_fields.simps peel]
  note e2 = json_quote_inject [OF e1, THEN conjunct2, unfolded peel]
  note e3 = json_opt_str_inject [OF e2, THEN conjunct2, unfolded peel]
  note e4 = json_bool_inject [OF e3, THEN conjunct2, unfolded peel]
  note e5 = json_quote_inject [OF e4, THEN conjunct2, unfolded peel]
  note e6 = json_quote_inject [OF e5, THEN conjunct2, unfolded peel]
  note e7 = json_bool_inject [OF e6, THEN conjunct2, unfolded peel]
  have ends: "\<not> is_digit (CHR '','')" "CHR '','' \<noteq> CHR ''-''" "\<not> is_digit (CHR ''}'')" "CHR ''}'' \<noteq> CHR ''-''"
    by (simp_all add: is_digit_def)
  note e8 = json_int_inject [OF e7 ends(1,2), THEN conjunct2, unfolded peel]
  note fields_eq = json_quote_inject [OF e1, THEN conjunct1] json_opt_str_inject [OF e2, THEN conjunct1]
    json_bool_inject [OF e3, THEN conjunct1] json_quote_inject [OF e4, THEN conjunct1]
    json_quote_inject [OF e5, THEN conjunct1] json_bool_inject [OF e6, THEN conjunct1]
    json_int_inject [OF e7 ends(1,2), THEN conjunct1] json_int_inject [OF e8 ends(3,4), THEN conjunct1]
  show ?thesis
    unfolding signed_fields_def fields_eq ..
qed

lemma canonical_eq_iff: "canonical_signature_bytes p = canonical_signature_bytes q \<longleftrightarrow> signed_fields p = signed_fields q"
proof
  assume "signed_fields p = signed_fields q"
  note same = this [unfolded signed_fields_def prod.inject]
  show "canonical_signature_bytes p = canonical_signature_bytes q"
    unfolding canonical_signature_bytes_def by (simp only: same)
qed (rule canonical_inject)

section \<open>Signing and checking\<close>

definition key_pair :: "('k, 'v) crypto \<Rightarrow> 'k \<Rightarrow> string \<Rightarrow> bool" where
  "key_pair cr signing_key public_key_hex \<longleftrightarrow>
     (\<forall>m. cr_b64encode cr (cr_sign cr signing_key m) \<noteq> []
        \<and> cr_b64decode cr (cr_b64encode cr (cr_sign cr signing_key m)) = Some (cr_sign cr signing_key m))
   \<and> (\<exists>v. cr_verify_key cr public_key_hex = Some v \<and> (\<forall>m. cr_verify cr v m (cr_sign cr signing_key m) = Valid))"

lemma canonical_ignores_attestation [simp]:
  "canonical_signature_bytes (p\<lparr>vp_attestation := a\<rparr>) = canonical_signature_bytes p"
  by (simp add: canonical_eq_iff signed_fields_def)

lemma verify_sign_pack: "key_pair cr signing_key public_key_hex \<Longrightarrow> verify_pack cr (sign_pack cr pack signing_key) public_key_hex = Inr True"
  by (auto simp: key_pair_def verify_pack_def sign_pack_def Let_def)

lemma verify_depends:
  assumes "signed_fields p = signed_fields q" and "vp_attestation p = vp_attestation q"
  shows "verify_pack cr p key = verify_pack cr q key"
proof -
  have "canonical_signature_bytes p = canonical_signature_bytes q" using assms(1) canonical_eq_iff by blast
  then show ?thesis unfolding verify_pack_def assms(2) by (rule ssubst) (rule refl)
qed

text \<open>
  C20. A pack with the attestation of a signed pack, copied from it or carried along, passes the
  check exactly when the two agree in the eight signed fields: an altered verdict, count, digest
  or identifier is detected, while the runtime, the node, the artifact and the metadata can be
  replaced. The hypothesis on the library is that a signature of one of the two digests does not
  verify the other text.
\<close>

theorem attestation_protects_the_verdict:
  assumes "key_pair cr signing_key public_key_hex"
    and "vp_attestation forged = vp_attestation (sign_pack cr pack signing_key)"
    and "\<forall>v. cr_verify_key cr public_key_hex = Some v
      \<longrightarrow> cr_verify cr v (cr_sha256 cr (canonical_signature_bytes forged))
            (cr_sign cr signing_key (cr_sha256 cr (canonical_signature_bytes pack))) = Valid
      \<longrightarrow> canonical_signature_bytes forged = canonical_signature_bytes pack"
  shows "verify_pack cr forged public_key_hex = Inr True \<longleftrightarrow> signed_fields forged = signed_fields pack"
proof
  assume "verify_pack cr forged public_key_hex = Inr True"
  then have "canonical_signature_bytes forged = canonical_signature_bytes pack"
    using assms by (auto simp: key_pair_def verify_pack_def sign_pack_def Let_def split: signature_check.splits)
  then show "signed_fields forged = signed_fields pack" by (simp add: canonical_eq_iff)
next
  assume "signed_fields forged = signed_fields pack"
  then have "verify_pack cr forged public_key_hex = verify_pack cr (sign_pack cr pack signing_key) public_key_hex"
    using assms(2) by (intro verify_depends) (simp_all add: signed_fields_def sign_pack_def Let_def)
  also have "\<dots> = Inr True"
    using assms(1) by (rule verify_sign_pack)
  finally show "verify_pack cr forged public_key_hex = Inr True" .
qed

text \<open>A scheme whose signature of a message is the message itself behind the key's name.\<close>

definition echo_crypto :: "(string, string) crypto" where
  "echo_crypto = \<lparr>cr_sha256 = id, cr_b64encode = (\<lambda>s. CHR ''='' # s),
     cr_b64decode = (\<lambda>s. case s of [] \<Rightarrow> None | c # t \<Rightarrow> if c = CHR ''='' then Some t else None),
     cr_sign = (\<lambda>k m. k @ m), cr_verify_key = Some,
     cr_verify = (\<lambda>v m s. if s = v @ m then Valid else if s = [] then Malformed else BadSignature)\<rparr>"

lemma echo_key_pair: "key_pair echo_crypto k k"
  by (simp add: key_pair_def echo_crypto_def)

definition sample_pack :: verification_pack where
  "sample_pack = \<lparr>vp_capsule_id = ''c'', vp_run_id = ''r'', vp_success = True, vp_runtime = 1, vp_node_id = ''n'',
     vp_hardware_isolated = True, vp_inputs_digest = ''d'', vp_tests_passed = 3, vp_tests_failed = 0,
     vp_error_signature = None, vp_attestation = None, vp_artifact_uri = None, vp_meta = []\<rparr>"

lemma echo_binds:
  "\<forall>v. cr_verify_key echo_crypto k = Some v
    \<longrightarrow> cr_verify echo_crypto v (cr_sha256 echo_crypto (canonical_signature_bytes q))
          (cr_sign echo_crypto k (cr_sha256 echo_crypto (canonical_signature_bytes p))) = Valid
    \<longrightarrow> canonical_signature_bytes q = canonical_signature_bytes p"
  by (simp add: echo_crypto_def split: if_splits)

theorem attestation_protects_the_verdict_witness:
  "verify_pack echo_crypto ((sign_pack echo_crypto sample_pack ''k'')\<lparr>vp_runtime := 99\<rparr>) ''k'' = Inr True
   \<and> verify_pack echo_crypto ((sign_pack echo_crypto sample_pack ''k'')\<lparr>vp_tests_passed := 99\<rparr>) ''k'' \<noteq> Inr True"
proof -
  have "verify_pack echo_crypto ((sign_pack echo_crypto sample_pack ''k'')\<lparr>vp_runtime := 99\<rparr>) ''k'' = Inr True"
    by (subst attestation_protects_the_verdict [OF echo_key_pair _ echo_binds, of _ sample_pack])
      (simp_all add: signed_fields_def sign_pack_def Let_def)
  moreover have "verify_pack echo_crypto ((sign_pack echo_crypto sample_pack ''k'')\<lparr>vp_tests_passed := 99\<rparr>) ''k'' \<noteq> Inr True"
    by (subst attestation_protects_the_verdict [OF echo_key_pair _ echo_binds, of _ sample_pack])
      (simp_all add: signed_fields_def sign_pack_def Let_def sample_pack_def)
  ultimately show ?thesis ..
qed

end
