(* ===== verification/PolicyGate.thy ===== *)
theory PolicyGate
  imports Signatures PyAst Planning
begin

text \<open>
  The policy gate (\<open>policy_gate.py\<close>): each result message is checked and the candidate accepted
  or rejected. Entries of the accepted stream and acknowledgements are queued in one pipeline per
  batch, which is executed when all messages of the batch are done; the ledger and the
  reservation of the tree are written at once. An exception ends the daemon and with it the
  pipeline.
\<close>

section \<open>The semantic policy\<close>

definition broad_handler :: "pyast \<Rightarrow> bool" where
  "broad_handler handler =
     (case handler of
        ExceptHandler None body \<Rightarrow> True
      | ExceptHandler (Some (Name x)) body \<Rightarrow> x \<in> {''Exception'', ''BaseException''}
      | _ \<Rightarrow> False)"

definition violates_policy :: "pyast \<Rightarrow> bool" where
  "violates_policy node =
     (case node of
        Try body handlers orelse final \<Rightarrow> (\<exists>h \<in> set handlers. broad_handler h)
      | Attribute e attr \<Rightarrow> attr \<in> {''skip'', ''xfail''}
      | _ \<Rightarrow> False)"

definition enforce_semantic_policy :: "(string \<Rightarrow> py_error + pyast) \<Rightarrow> string \<Rightarrow> py_error + bool" where
  "enforce_semantic_policy parse code =
     (case parse code of
        Inl SyntaxError \<Rightarrow> Inr False
      | Inl e \<Rightarrow> Inl e
      | Inr tree \<Rightarrow> Inr (\<not> list_ex violates_policy (ast_walk tree)))"

section \<open>What the gate uses\<close>

text \<open>\<open>ge_sha256\<close> is the hexadecimal digest of a text, \<open>ge_evaluation_ms\<close> and \<open>ge_now\<close> clock readings.\<close>

record ('s, 'k, 'v) gate_env =
  ge_redis :: "'s redis"
  ge_crypto :: "('k, 'v) crypto"
  ge_trusted_pubkey :: string
  ge_require_hardware_isolation :: bool
  ge_parse :: "string \<Rightarrow> py_error + pyast"
  ge_sha256 :: "string \<Rightarrow> string"
  ge_evaluation_ms :: real
  ge_now :: real

definition inputs_digest_matches :: "('s, 'k, 'v) gate_env \<Rightarrow> verification_pack \<Rightarrow> string \<Rightarrow> bool" where
  "inputs_digest_matches env pack code \<longleftrightarrow> ge_sha256 env code = vp_inputs_digest pack"

text \<open>\<open>VerificationPack.from_json(message["payload"])\<close>.\<close>

definition message_pack :: "rtext option \<Rightarrow> py_error + verification_pack" where
  "message_pack payload =
     (case payload of
        None \<Rightarrow> Inl KeyError
      | Some v \<Rightarrow>
          (case text_json v of
             None \<Rightarrow> Inl ValueError
           | Some j \<Rightarrow> (case pack_from_json j of None \<Rightarrow> Inl TypeError | Some pack \<Rightarrow> Inr pack)))"

section \<open>The verdict on one pack\<close>

text \<open>The reason for rejection, None for none, and the code that was checked.\<close>

definition check_pack ::
    "('s, 'k, 'v) gate_env \<Rightarrow> verification_pack \<Rightarrow> (string \<rightharpoonup> rtext) \<Rightarrow> py_error + string option \<times> string" where
  "check_pack env pack node_data =
     (if node_data = Map.empty then Inr (Some ''missing_candidate'', '''')
      else if ge_require_hardware_isolation env \<and> \<not> vp_hardware_isolated pack
      then Inr (Some ''hardware_isolation_required'', '''')
      else if \<not> (vp_success pack \<and> vp_tests_failed pack = 0) then Inr (Some ''verification_failed'', '''')
      else py_bind (verify_pack (ge_crypto env) pack (ge_trusted_pubkey env)) (\<lambda>attested.
        if \<not> attested then Inr (Some ''bad_attestation'', '''')
        else py_bind (field_str_or node_data ''code'' '''') (\<lambda>code.
          if \<not> inputs_digest_matches env pack code then Inr (Some ''inputs_digest_mismatch'', code)
          else py_bind (enforce_semantic_policy (ge_parse env) code) (\<lambda>ok.
            Inr (if ok then None else Some ''semantic_policy_rejected'', code)))))"

text \<open>The reservation of the tree: the first accepted candidate keeps it.\<close>

definition reserve_tree :: "('s, 'k, 'v) gate_env \<Rightarrow> string \<Rightarrow> string \<Rightarrow> 's world \<Rightarrow> string option \<times> 's world" where
  "reserve_tree env tree_id capsule_id w =
     (let accepted_key = tree_accepted_key tree_id;
          (reserved, s) = r_setnx (ge_redis env) accepted_key (Txt capsule_id) (w_store w);
          w = w\<lparr>w_store := s\<rparr>;
          current_winner = w_string (ge_redis env) w accepted_key
      in (if \<not> reserved \<and> current_winner \<noteq> Some (Txt capsule_id) then Some ''tree_already_accepted'' else None, w))"

text \<open>\<open>Path(p).name\<close>.\<close>

fun split_slash :: "string \<Rightarrow> string \<Rightarrow> string list" where
  "split_slash cur [] = [rev cur]"
| "split_slash cur (c # s) = (if c = CHR ''/'' then rev cur # split_slash [] s else split_slash (c # cur) s)"

definition path_name :: "string \<Rightarrow> string" where
  "path_name p = (let parts = filter (\<lambda>x. x \<noteq> '''' \<and> x \<noteq> ''.'') (split_slash [] p)
     in if parts = [] then '''' else last parts)"

definition accepted_payload ::
    "verification_pack \<Rightarrow> (string \<rightharpoonup> rtext) \<Rightarrow> string \<Rightarrow> py_error + rtext" where
  "accepted_payload pack node_data code =
     py_bind (field_str node_data ''source_path'') (\<lambda>source_path.
     py_bind (field_str_or node_data ''source_relpath'' (path_name source_path)) (\<lambda>source_relpath.
     py_bind (field_str node_data ''repo_path'') (\<lambda>repo_path.
     py_bind (field_str node_data ''tree_id'') (\<lambda>tree_id.
       Inr (Doc (js_sort (JObj
         [(''capsule_id'', JStr (vp_capsule_id pack)), (''code'', JStr code),
          (''source_relpath'', JStr source_relpath), (''repo_path'', JStr repo_path),
          (''tree_id'', JStr tree_id), (''artifact_uri'', js_of_opt_str (vp_artifact_uri pack))])))))))"

section \<open>The ledger\<close>

definition record_verdict ::
    "('s, 'k, 'v) gate_env \<Rightarrow> verification_pack \<Rightarrow> (string \<rightharpoonup> rtext) \<Rightarrow> bool \<Rightarrow> string list \<Rightarrow> 's world \<Rightarrow> 's world outcome" where
  "record_verdict env pack node_data accepted reasons w =
     (let id = vp_capsule_id pack;
          reasons = or_list reasons [''accepted''];
          db = snd (update_candidate_status id (if accepted then ''accepted'' else ''rejected_policy'') None (w_db w))
      in if node_data = Map.empty then Done (w\<lparr>w_db := db\<rparr>)
         else let db = merge_candidate_metadata id
                [''policy'' \<mapsto> JObj [(''accepted'', JBool accepted), (''reasons'', JArr (map JStr reasons)),
                   (''evaluation_ms'', JFloat (ge_evaluation_ms env))]] db
              in case record_policy_decision id
                   \<lparr>pr_accepted = accepted, pr_confidence = of_bool accepted, pr_risk_score = of_bool (\<not> accepted),
                    pr_reasons = reasons, pr_requires_human_review = (\<not> accepted), pr_created_at = ge_now env\<rparr> db of
                   Inl e \<Rightarrow> Crash DatabaseError (w\<lparr>w_db := db\<rparr>)
                 | Inr db \<Rightarrow> Done (w\<lparr>w_db := db\<rparr>))"

section \<open>Messages and batches\<close>

text \<open>A handled message: the commands it adds to the pipeline, and the world.\<close>

type_synonym 's handled = "store_cmd list \<times> 's world"

definition gate_decide ::
    "('s, 'k, 'v) gate_env \<Rightarrow> verification_pack \<Rightarrow> (string \<rightharpoonup> rtext) \<Rightarrow> string \<Rightarrow> 's world \<Rightarrow> 's handled outcome" where
  "gate_decide env pack node_data code w =
     (case field_str node_data ''tree_id'' of
        Inl e \<Rightarrow> Crash e ([], w)
      | Inr tree_id \<Rightarrow>
          (case reserve_tree env tree_id (vp_capsule_id pack) w of
             (Some reason, w) \<Rightarrow>
               (case record_verdict env pack node_data False [reason] w of
                  Done w \<Rightarrow> Done ([], w) | Crash e w \<Rightarrow> Crash e ([], w))
           | (None, w) \<Rightarrow>
               (case accepted_payload pack node_data code of
                  Inl e \<Rightarrow> Crash e ([], w)
                | Inr payload \<Rightarrow>
                    (case record_verdict env pack node_data True [] w of
                       Done w \<Rightarrow> Done ([CXAdd STREAM_ACCEPTED payload], w)
                     | Crash e w \<Rightarrow> Crash e ([CXAdd STREAM_ACCEPTED payload], w)))))"

definition gate_message :: "('s, 'k, 'v) gate_env \<Rightarrow> rtext option \<Rightarrow> 's world \<Rightarrow> 's handled outcome" where
  "gate_message env payload w =
     (case message_pack payload of
        Inl e \<Rightarrow> Crash e ([], w)
      | Inr pack \<Rightarrow>
          let node_data = w_hash (ge_redis env) w (vp_capsule_id pack)
          in case check_pack env pack node_data of
               Inl e \<Rightarrow> Crash e ([], w)
             | Inr (Some reason, code) \<Rightarrow>
                 (case record_verdict env pack node_data False [reason] w of
                    Done w \<Rightarrow> Done ([], w) | Crash e w \<Rightarrow> Crash e ([], w))
             | Inr (None, code) \<Rightarrow> gate_decide env pack node_data code w)"

text \<open>Each message's acknowledgement is queued whether or not it raised; the exception then leaves the loop.\<close>

fun gate_loop :: "('s, 'k, 'v) gate_env \<Rightarrow> (string \<times> rtext option) list \<Rightarrow> 's handled \<Rightarrow> 's handled outcome" where
  "gate_loop env [] st = Done st"
| "gate_loop env ((message_id, payload) # messages) (pipe, w) =
     (let ack = CXAck STREAM_RESULTS ''policy_group'' message_id
      in case gate_message env payload w of
           Crash e (cmds, w) \<Rightarrow> Crash e (pipe @ cmds @ [ack], w)
         | Done (cmds, w) \<Rightarrow> gate_loop env messages (pipe @ cmds @ [ack], w))"

definition gate_batch :: "('s, 'k, 'v) gate_env \<Rightarrow> (string \<times> rtext option) list \<Rightarrow> 's world \<Rightarrow> 's world outcome" where
  "gate_batch env messages w =
     (case gate_loop env messages ([], w) of
        Crash e (pipe, w) \<Rightarrow> Crash e w
      | Done (pipe, w) \<Rightarrow> Done (w_exec (ge_redis env) pipe w))"

end
