(* ===== verification/PolicyGateProps.thy ===== *)
theory PolicyGateProps
  imports PolicyGate
begin

text \<open>
  Properties of the policy gate: what the semantic policy forbids and what it lets through, what
  every accepted entry has passed, that a tree has one accepted candidate, and what an exception
  costs the other messages of its batch.
\<close>

section \<open>The semantic policy\<close>

text \<open>
  C28. The policy accepts a text that parses exactly when no \<open>try\<close> in it has a bare handler or one
  for the names \<open>Exception\<close> or \<open>BaseException\<close>, and no attribute is named \<open>skip\<close> or \<open>xfail\<close>.
  Only these forms are seen: a handler for a tuple that holds \<open>Exception\<close>, or for a dotted name
  such as \<open>builtins.Exception\<close>, catches as much and passes.
\<close>

theorem semantic_policy_forbids_exactly_the_named_forms:
  assumes "parse code = Inr tree"
  shows "(enforce_semantic_policy parse code = Inr True \<longleftrightarrow>
      (\<forall>body handlers orelse final h. occurs tree (Try body handlers orelse final) \<longrightarrow> h \<in> set handlers \<longrightarrow>
         (\<forall>b. h \<noteq> ExceptHandler None b \<and> h \<noteq> ExceptHandler (Some (Name ''Exception'')) b
            \<and> h \<noteq> ExceptHandler (Some (Name ''BaseException'')) b))
      \<and> (\<forall>e attr. occurs tree (Attribute e attr) \<longrightarrow> attr \<noteq> ''skip'' \<and> attr \<noteq> ''xfail''))
    \<and> (tree \<in> {Node ''Module'' [Try [Name ''x''] [ExceptHandler (Some (Node ''Tuple'' [Name ''Exception''])) []] [] []],
              Node ''Module'' [Try [Name ''x''] [ExceptHandler (Some (Attribute (Name ''builtins'') ''Exception'')) []] [] []]}
       \<longrightarrow> enforce_semantic_policy parse code = Inr True)"
proof
  have broad: "broad_handler h \<longleftrightarrow> (\<exists>b. h = ExceptHandler None b \<or> h = ExceptHandler (Some (Name ''Exception'')) b
      \<or> h = ExceptHandler (Some (Name ''BaseException'')) b)" for h
    by (cases h) (auto simp: broad_handler_def split: option.splits pyast.splits)
  have violates: "violates_policy n \<longleftrightarrow> (\<exists>body handlers orelse final. n = Try body handlers orelse final \<and> (\<exists>h \<in> set handlers. broad_handler h))
      \<or> (\<exists>e attr. n = Attribute e attr \<and> (attr = ''skip'' \<or> attr = ''xfail''))" for n
    by (cases n) (simp_all add: violates_policy_def)
  have "enforce_semantic_policy parse code = Inr True \<longleftrightarrow> (\<forall>n. occurs tree n \<longrightarrow> \<not> violates_policy n)"
    using assms by (auto simp: enforce_semantic_policy_def list_ex_iff set_ast_walk)
  also have "\<dots> \<longleftrightarrow> (\<forall>body handlers orelse final h. occurs tree (Try body handlers orelse final) \<longrightarrow> h \<in> set handlers \<longrightarrow>
         (\<forall>b. h \<noteq> ExceptHandler None b \<and> h \<noteq> ExceptHandler (Some (Name ''Exception'')) b
            \<and> h \<noteq> ExceptHandler (Some (Name ''BaseException'')) b))
      \<and> (\<forall>e attr. occurs tree (Attribute e attr) \<longrightarrow> attr \<noteq> ''skip'' \<and> attr \<noteq> ''xfail'')"
    unfolding violates broad by blast
  finally show "enforce_semantic_policy parse code = Inr True \<longleftrightarrow> \<dots>" .
  show "tree \<in> {Node ''Module'' [Try [Name ''x''] [ExceptHandler (Some (Node ''Tuple'' [Name ''Exception''])) []] [] []],
              Node ''Module'' [Try [Name ''x''] [ExceptHandler (Some (Attribute (Name ''builtins'') ''Exception'')) []] [] []]}
       \<longrightarrow> enforce_semantic_policy parse code = Inr True"
    using assms
    by (auto simp: enforce_semantic_policy_def ast_walk_def violates_policy_def broad_handler_def)
qed

theorem semantic_policy_forbids_exactly_the_named_forms_witness:
  "enforce_semantic_policy (\<lambda>code. Inr (Node ''Module'' [Try [Name ''x'']
      [ExceptHandler (Some (Node ''Tuple'' [Name ''Exception''])) []] [] []])) ''try...'' = Inr True"
  by (rule semantic_policy_forbids_exactly_the_named_forms [OF refl, THEN conjunct2, THEN mp]) simp

section \<open>What one message changes\<close>

text \<open>
  The gate writes no hash and no stream before the pipeline runs, and never changes a string key
  that is set.
\<close>

definition extends :: "('s, 'k, 'v) gate_env \<Rightarrow> 's world \<Rightarrow> 's world \<Rightarrow> bool" where
  "extends env w w' \<longleftrightarrow>
     rd_hashes (r_data (ge_redis env) (w_store w')) = rd_hashes (r_data (ge_redis env) (w_store w))
   \<and> rd_streams (r_data (ge_redis env) (w_store w')) = rd_streams (r_data (ge_redis env) (w_store w))
   \<and> rd_acked (r_data (ge_redis env) (w_store w')) = rd_acked (r_data (ge_redis env) (w_store w))
   \<and> rd_strings (r_data (ge_redis env) (w_store w)) \<subseteq>\<^sub>m rd_strings (r_data (ge_redis env) (w_store w'))"

lemma extends_refl: "w_store w' = w_store w \<Longrightarrow> extends env w w'"
  by (simp add: extends_def)

lemma extends_trans: "extends env w w' \<Longrightarrow> extends env w' w'' \<Longrightarrow> extends env w w''"
  unfolding extends_def using map_le_trans by auto

lemma extends_string: "extends env w w' \<Longrightarrow> w_string (ge_redis env) w k = Some v \<Longrightarrow> w_string (ge_redis env) w' k = Some v"
  unfolding extends_def w_string_def map_le_def by (metis domI)

lemma extends_hash: "extends env w w' \<Longrightarrow> w_hash (ge_redis env) w' = w_hash (ge_redis env) w"
  unfolding extends_def w_hash_def [abs_def] by simp

lemma extends_streams: "extends env w w' \<Longrightarrow> rd_streams (r_data (ge_redis env) (w_store w')) = rd_streams (r_data (ge_redis env) (w_store w))
    \<and> rd_acked (r_data (ge_redis env) (w_store w')) = rd_acked (r_data (ge_redis env) (w_store w))"
  unfolding extends_def by simp

lemma record_verdict_store: "w_store (outcome_world (record_verdict env pack nd acc rs w)) = w_store w"
  by (auto simp: record_verdict_def Let_def split: sum.splits)

lemma record_verdict_cases:
  obtains w' where "record_verdict env pack nd acc rs w = Done w'" "w_store w' = w_store w"
  | e w' where "record_verdict env pack nd acc rs w = Crash e w'" "w_store w' = w_store w"
  using record_verdict_store [of env pack nd acc rs w] by (cases "record_verdict env pack nd acc rs w") auto

lemma reserve_tree_effect:
  assumes "shared_store (ge_redis env)" and "reserve_tree env t c w = (r, w')"
  shows "extends env w w' \<and> (r = None \<longrightarrow> w_string (ge_redis env) w' (tree_accepted_key t) = Some (Txt c))
    \<and> (r \<noteq> None \<longrightarrow> (\<exists>v. v \<noteq> Txt c \<and> w_string (ge_redis env) w (tree_accepted_key t) = Some v))"
proof -
  let ?R = "ge_redis env" and ?k = "tree_accepted_key t"
  have w': "w' = w\<lparr>w_store := snd (r_setnx ?R ?k (Txt c) (w_store w))\<rparr>"
    and r: "r = None \<longleftrightarrow> fst (r_setnx ?R ?k (Txt c) (w_store w)) \<or> w_string ?R w' ?k = Some (Txt c)"
    using assms(2) by (auto simp: reserve_tree_def Let_def split_beta split: if_splits)
  show ?thesis
    using assms(1) r
    by (cases "rd_strings (r_data ?R (w_store w)) ?k")
      (auto simp: w' extends_def shared_store.setnx_data shared_store.setnx_value w_string_def map_le_def)
qed

text \<open>\<open>justified env w messages v\<close>: the entry \<open>v\<close> rests on a message whose pack passed every check.\<close>

definition justified :: "('s, 'k, 'v) gate_env \<Rightarrow> 's world \<Rightarrow> rtext option set \<Rightarrow> rtext \<Rightarrow> bool" where
  "justified env w payloads v \<longleftrightarrow>
     (\<exists>p \<in> payloads. \<exists>pack code tree. message_pack p = Inr pack
        \<and> check_pack env pack (w_hash (ge_redis env) w (vp_capsule_id pack)) = Inr (None, code)
        \<and> accepted_payload pack (w_hash (ge_redis env) w (vp_capsule_id pack)) code = Inr v
        \<and> field_str (w_hash (ge_redis env) w (vp_capsule_id pack)) ''tree_id'' = Inr tree
        \<and> w_string (ge_redis env) w (tree_accepted_key tree) = Some (Txt (vp_capsule_id pack)))"

lemma justified_extends: "justified env w ps v \<Longrightarrow> extends env w w' \<Longrightarrow> justified env w' ps v"
proof -
  assume j: "justified env w ps v" and e: "extends env w w'"
  show ?thesis
    using j unfolding justified_def extends_hash [OF e] using extends_string [OF e] by blast
qed

lemma justified_mono: "justified env w ps v \<Longrightarrow> ps \<subseteq> ps' \<Longrightarrow> justified env w ps' v"
  unfolding justified_def by blast

definition message_effect ::
    "('s, 'k, 'v) gate_env \<Rightarrow> rtext option \<Rightarrow> 's world \<Rightarrow> 's handled \<Rightarrow> bool" where
  "message_effect env payload w st \<longleftrightarrow> (case st of (cmds, w') \<Rightarrow> extends env w w'
     \<and> (cmds = [] \<or> (\<exists>v. cmds = [CXAdd STREAM_ACCEPTED v] \<and> justified env w' {payload} v)))"

lemma gate_message_effect:
  assumes R: "shared_store (ge_redis env)"
  shows "message_effect env payload w (outcome_world (gate_message env payload w))"
proof (cases "message_pack payload")
  case (Inl e)
  then show ?thesis by (simp add: gate_message_def message_effect_def extends_refl)
next
  case pack: (Inr pack)
  let ?nd = "w_hash (ge_redis env) w (vp_capsule_id pack)"
  have silent: "message_effect env payload w (outcome_world
      (case record_verdict env pack ?nd acc rs v of Done w \<Rightarrow> Done ([], w) | Crash e w \<Rightarrow> Crash e ([], w)))"
    if "extends env w v" for acc rs v
  proof (cases rule: record_verdict_cases [of env pack ?nd acc rs v])
    case (1 w')
    with that extends_trans [OF that extends_refl] show ?thesis by (simp add: message_effect_def)
  next
    case (2 e w')
    with that extends_trans [OF that extends_refl] show ?thesis by (simp add: message_effect_def)
  qed
  show ?thesis
  proof (cases "check_pack env pack ?nd")
    case (Inl e)
    with pack show ?thesis by (simp add: gate_message_def message_effect_def extends_refl Let_def)
  next
    case (Inr rc)
    obtain r code where rc: "rc = (r, code)" by (cases rc)
    show ?thesis
    proof (cases r)
      case (Some reason)
      with Inr rc pack silent [OF extends_refl] show ?thesis by (simp add: gate_message_def Let_def)
    next
      case None
      with Inr rc pack have msg: "gate_message env payload w = gate_decide env pack ?nd code w"
        by (simp add: gate_message_def Let_def)
      show ?thesis
      proof (cases "field_str ?nd ''tree_id''")
        case (Inl e)
        then show ?thesis by (simp add: msg gate_decide_def message_effect_def extends_refl)
      next
        case tree: (Inr tree)
        obtain r' v where res: "reserve_tree env tree (vp_capsule_id pack) w = (r', v)" by fastforce
        note eff = reserve_tree_effect [OF R res]
        show ?thesis
        proof (cases r')
          case (Some reason)
          with tree res silent eff show ?thesis by (simp add: msg gate_decide_def)
        next
          case won: None
          show ?thesis
          proof (cases "accepted_payload pack ?nd code")
            case (Inl e)
            with won tree res eff show ?thesis by (simp add: msg gate_decide_def message_effect_def)
          next
            case payload: (Inr p)
            have "justified env v {payload} p"
              unfolding justified_def
              using pack Inr rc None payload tree eff won extends_hash [of env w v] by auto
            with won tree res payload eff justified_extends [of env v "{payload}" p] extends_trans [of env w v]
              extends_refl [of _ v env]
            show ?thesis
              by (cases rule: record_verdict_cases [of env pack ?nd True "[]" v])
                (simp_all add: msg gate_decide_def message_effect_def)
          qed
        qed
      qed
    qed
  qed
qed

section \<open>Batches\<close>

definition loop_inv :: "('s, 'k, 'v) gate_env \<Rightarrow> 's world \<Rightarrow> rtext option set \<Rightarrow> 's handled \<Rightarrow> bool" where
  "loop_inv env w0 payloads st \<longleftrightarrow> (case st of (pipe, w) \<Rightarrow> extends env w0 w
     \<and> (\<forall>c \<in> set pipe. (\<exists>m. c = CXAck STREAM_RESULTS ''policy_group'' m)
          \<or> (\<exists>v. c = CXAdd STREAM_ACCEPTED v \<and> justified env w payloads v)))"

lemma loop_inv_step:
  assumes "loop_inv env w0 ps (pipe, w)" and "message_effect env p w (cmds, w')"
  shows "loop_inv env w0 (insert p ps) (pipe @ cmds @ [CXAck STREAM_RESULTS ''policy_group'' m], w')"
proof -
  have e: "extends env w w'" using assms(2) by (simp add: message_effect_def)
  have "\<exists>v. c = CXAdd STREAM_ACCEPTED v \<and> justified env w' (insert p ps) v"
    if "c \<in> set pipe" "\<nexists>m. c = CXAck STREAM_RESULTS ''policy_group'' m" for c
    using assms(1) that justified_extends [OF _ e] justified_mono [of env w' ps _ "insert p ps"]
    unfolding loop_inv_def by blast
  moreover have "\<exists>v. c = CXAdd STREAM_ACCEPTED v \<and> justified env w' (insert p ps) v" if "c \<in> set cmds" for c
    using assms(2) that justified_mono [of env w' "{p}" _ "insert p ps"]
    by (auto simp: message_effect_def)
  moreover have "extends env w0 w'"
    using assms(1) e extends_trans unfolding loop_inv_def by blast
  ultimately show ?thesis unfolding loop_inv_def by auto
qed

lemma gate_loop_inv:
  assumes R: "shared_store (ge_redis env)"
  shows "loop_inv env w0 ps (pipe, w) \<Longrightarrow>
    loop_inv env w0 (ps \<union> snd ` set messages) (outcome_world (gate_loop env messages (pipe, w)))"
proof (induction messages arbitrary: ps pipe w)
  case Nil
  then show ?case by simp
next
  case (Cons m messages)
  obtain i p where m: "m = (i, p)" by (cases m)
  note eff = gate_message_effect [OF R, of p w]
  show ?case
  proof (cases "gate_message env p w")
    case (Crash e st)
    obtain cmds w' where st: "st = (cmds, w')" by (cases st)
    with Crash eff loop_inv_step [OF Cons.prems, of p cmds w' i]
    have "loop_inv env w0 (insert p ps) (pipe @ cmds @ [CXAck STREAM_RESULTS ''policy_group'' i], w')" by simp
    then have "loop_inv env w0 (ps \<union> snd ` set (m # messages)) (pipe @ cmds @ [CXAck STREAM_RESULTS ''policy_group'' i], w')"
      using justified_mono [of env w' "insert p ps" _ "ps \<union> snd ` set (m # messages)"] m
      unfolding loop_inv_def by fastforce
    then show ?thesis using Crash st m by simp
  next
    case (Done st)
    obtain cmds w' where st: "st = (cmds, w')" by (cases st)
    with Done eff loop_inv_step [OF Cons.prems, of p cmds w' i]
    have "loop_inv env w0 (insert p ps) (pipe @ cmds @ [CXAck STREAM_RESULTS ''policy_group'' i], w')" by simp
    from Cons.IH [OF this] show ?thesis using Done st m by simp
  qed
qed

definition accepted_cmds :: "store_cmd list \<Rightarrow> rtext list" where
  "accepted_cmds cmds = concat (map (\<lambda>c. case c of CXAdd k v \<Rightarrow> if k = STREAM_ACCEPTED then [v] else [] | _ \<Rightarrow> []) cmds)"

lemma pipe_data:
  assumes "\<forall>c \<in> set pipe. (\<exists>m. c = CXAck STREAM_RESULTS ''policy_group'' m) \<or> (\<exists>v. c = CXAdd STREAM_ACCEPTED v)"
  shows "rd_streams (apply_cmds pipe d) STREAM_ACCEPTED = rd_streams d STREAM_ACCEPTED @ accepted_cmds pipe
    \<and> rd_strings (apply_cmds pipe d) = rd_strings d \<and> rd_hashes (apply_cmds pipe d) = rd_hashes d"
  using assms
proof (induction pipe arbitrary: d)
  case Nil
  then show ?case by (simp add: accepted_cmds_def)
next
  case (Cons c pipe)
  then show ?case by (auto simp: accepted_cmds_def)
qed

abbreviation accepted_entries :: "('s, 'k, 'v) gate_env \<Rightarrow> 's world \<Rightarrow> rtext list" where
  "accepted_entries env w \<equiv> rd_streams (r_data (ge_redis env) (w_store w)) STREAM_ACCEPTED"

lemma gate_batch_Done:
  assumes R: "shared_store (ge_redis env)" and "gate_batch env messages w = Done w'"
  obtains vs where "accepted_entries env w' = accepted_entries env w @ vs"
    and "\<forall>v \<in> set vs. justified env w' (snd ` set messages) v"
    and "w_hash (ge_redis env) w' = w_hash (ge_redis env) w"
    and "\<And>k v. w_string (ge_redis env) w k = Some v \<Longrightarrow> w_string (ge_redis env) w' k = Some v"
proof -
  obtain pipe v where loop: "gate_loop env messages ([], w) = Done (pipe, v)" and w': "w' = w_exec (ge_redis env) pipe v"
    using assms(2) by (auto simp: gate_batch_def split: outcome.splits)
  have "loop_inv env w {} ([], w)" by (simp add: loop_inv_def extends_refl)
  from gate_loop_inv [OF R this, of messages] have inv: "loop_inv env w (snd ` set messages) (pipe, v)"
    by (simp add: loop)
  then have ext: "extends env w v" and pipe: "\<forall>c \<in> set pipe. (\<exists>m. c = CXAck STREAM_RESULTS ''policy_group'' m)
      \<or> (\<exists>x. c = CXAdd STREAM_ACCEPTED x \<and> justified env v (snd ` set messages) x)"
    by (auto simp: loop_inv_def)
  have data: "rd_streams (r_data (ge_redis env) (w_store w')) STREAM_ACCEPTED = accepted_entries env v @ accepted_cmds pipe"
    "rd_strings (r_data (ge_redis env) (w_store w')) = rd_strings (r_data (ge_redis env) (w_store v))"
    "rd_hashes (r_data (ge_redis env) (w_store w')) = rd_hashes (r_data (ge_redis env) (w_store v))"
    using pipe_data [of pipe] pipe R by (fastforce simp: w')+
  have same: "justified env w' ps x \<longleftrightarrow> justified env v ps x" for ps x
    unfolding justified_def w_hash_def w_string_def data(2,3) ..
  have "\<forall>x \<in> set (accepted_cmds pipe). justified env w' (snd ` set messages) x"
    using pipe unfolding same accepted_cmds_def by (fastforce split: store_cmd.splits if_splits)
  then show thesis
    using data extends_streams [OF ext] extends_hash [OF ext] extends_string [OF ext]
    by (intro that [of "accepted_cmds pipe"]) (simp_all add: w_hash_def [abs_def] w_string_def)
qed

section \<open>What every accepted entry has passed\<close>

text \<open>The value of a field of an accepted entry.\<close>

definition entry_field :: "rtext \<Rightarrow> string \<Rightarrow> json option" where
  "entry_field v k = (case v of Doc (JObj d) \<Rightarrow> map_of d k | _ \<Rightarrow> None)"

lemma accepted_payload_fields:
  assumes "accepted_payload pack nd code = Inr v" and "field_str nd ''tree_id'' = Inr tree"
  shows "entry_field v ''capsule_id'' = Some (JStr (vp_capsule_id pack)) \<and> entry_field v ''code'' = Some (JStr code)
    \<and> entry_field v ''tree_id'' = Some (JStr tree)"
proof -
  obtain rel repo where v: "v = Doc (js_sort (JObj
         [(''capsule_id'', JStr (vp_capsule_id pack)), (''code'', JStr code),
          (''source_relpath'', JStr rel), (''repo_path'', JStr repo),
          (''tree_id'', JStr tree), (''artifact_uri'', js_of_opt_str (vp_artifact_uri pack))]))"
    using assms unfolding accepted_payload_def py_bind_Inr by auto
  show ?thesis unfolding v by (simp add: entry_field_def)
qed

lemma check_pack_passes:
  "check_pack env pack nd = Inr (None, code) \<Longrightarrow>
    (ge_require_hardware_isolation env \<longrightarrow> vp_hardware_isolated pack) \<and> vp_success pack \<and> vp_tests_failed pack = 0
    \<and> verify_pack (ge_crypto env) pack (ge_trusted_pubkey env) = Inr True \<and> field_str_or nd ''code'' '''' = Inr code
    \<and> ge_sha256 env code = vp_inputs_digest pack \<and> enforce_semantic_policy (ge_parse env) code = Inr True"
  by (auto simp: check_pack_def py_bind_Inr inputs_digest_matches_def split: if_splits)

text \<open>
  C1. Every entry that a batch adds to the accepted stream rests on a message of that batch whose
  pack reports success without a failed test, on isolated hardware where that is required, passes
  the attestation check, and carries the digest of the candidate's stored code; that code, which
  is the code in the entry, passes the semantic policy; and the candidate holds its tree.
\<close>

theorem accepted_entries_passed_every_check:
  assumes "shared_store (ge_redis env)" and "gate_batch env messages w = Done w'"
  shows "\<exists>entries. accepted_entries env w' = accepted_entries env w @ entries
    \<and> (\<forall>v \<in> set entries. \<exists>payload \<in> snd ` set messages. \<exists>pack code tree.
        message_pack payload = Inr pack \<and> vp_success pack \<and> vp_tests_failed pack = 0
        \<and> (ge_require_hardware_isolation env \<longrightarrow> vp_hardware_isolated pack)
        \<and> verify_pack (ge_crypto env) pack (ge_trusted_pubkey env) = Inr True
        \<and> field_str_or (w_hash (ge_redis env) w (vp_capsule_id pack)) ''code'' '''' = Inr code
        \<and> ge_sha256 env code = vp_inputs_digest pack
        \<and> enforce_semantic_policy (ge_parse env) code = Inr True
        \<and> entry_field v ''capsule_id'' = Some (JStr (vp_capsule_id pack)) \<and> entry_field v ''code'' = Some (JStr code)
        \<and> entry_field v ''tree_id'' = Some (JStr tree)
        \<and> w_string (ge_redis env) w' (tree_accepted_key tree) = Some (Txt (vp_capsule_id pack)))"
proof -
  obtain vs where vs: "accepted_entries env w' = accepted_entries env w @ vs"
    and just: "\<forall>v \<in> set vs. justified env w' (snd ` set messages) v"
    and hash: "w_hash (ge_redis env) w' = w_hash (ge_redis env) w"
    by (rule gate_batch_Done [OF assms]) blast
  show ?thesis
  proof (intro exI [of _ vs] conjI ballI)
    fix v assume "v \<in> set vs"
    with just obtain payload pack code tree where p: "payload \<in> snd ` set messages" "message_pack payload = Inr pack"
      and c: "check_pack env pack (w_hash (ge_redis env) w (vp_capsule_id pack)) = Inr (None, code)"
      and a: "accepted_payload pack (w_hash (ge_redis env) w (vp_capsule_id pack)) code = Inr v"
      and t: "field_str (w_hash (ge_redis env) w (vp_capsule_id pack)) ''tree_id'' = Inr tree"
      and k: "w_string (ge_redis env) w' (tree_accepted_key tree) = Some (Txt (vp_capsule_id pack))"
      unfolding justified_def hash by blast
    note f = accepted_payload_fields [OF a t] and g = check_pack_passes [OF c]
    show "\<exists>payload \<in> snd ` set messages. \<exists>pack code tree.
        message_pack payload = Inr pack \<and> vp_success pack \<and> vp_tests_failed pack = 0
        \<and> (ge_require_hardware_isolation env \<longrightarrow> vp_hardware_isolated pack)
        \<and> verify_pack (ge_crypto env) pack (ge_trusted_pubkey env) = Inr True
        \<and> field_str_or (w_hash (ge_redis env) w (vp_capsule_id pack)) ''code'' '''' = Inr code
        \<and> ge_sha256 env code = vp_inputs_digest pack
        \<and> enforce_semantic_policy (ge_parse env) code = Inr True
        \<and> entry_field v ''capsule_id'' = Some (JStr (vp_capsule_id pack)) \<and> entry_field v ''code'' = Some (JStr code)
        \<and> entry_field v ''tree_id'' = Some (JStr tree)
        \<and> w_string (ge_redis env) w' (tree_accepted_key tree) = Some (Txt (vp_capsule_id pack))"
      by (rule bexI [OF _ p(1)], rule exI [of _ pack], rule exI [of _ code], rule exI [of _ tree])
        (use p(2) f g k in blast)
  qed (rule vs)
qed

section \<open>One accepted candidate for a tree\<close>

fun gate_batches :: "('s, 'k, 'v) gate_env \<Rightarrow> (string \<times> rtext option) list list \<Rightarrow> 's world \<Rightarrow> 's world outcome" where
  "gate_batches env [] w = Done w"
| "gate_batches env (b # bs) w = (case gate_batch env b w of Crash e w \<Rightarrow> Crash e w | Done w \<Rightarrow> gate_batches env bs w)"

text \<open>Every accepted entry names the candidate that holds its tree.\<close>

definition winners_only :: "('s, 'k, 'v) gate_env \<Rightarrow> 's world \<Rightarrow> bool" where
  "winners_only env w \<longleftrightarrow> (\<forall>v \<in> set (accepted_entries env w). \<exists>tree capsule.
     entry_field v ''tree_id'' = Some (JStr tree) \<and> entry_field v ''capsule_id'' = Some (JStr capsule)
     \<and> w_string (ge_redis env) w (tree_accepted_key tree) = Some (Txt capsule))"

lemma winners_only_batch:
  assumes R: "shared_store (ge_redis env)" and "gate_batch env messages w = Done w'" and inv: "winners_only env w"
  shows "winners_only env w'"
proof -
  obtain vs where vs: "accepted_entries env w' = accepted_entries env w @ vs"
    and just: "\<forall>v \<in> set vs. justified env w' (snd ` set messages) v"
    and str: "\<And>k v. w_string (ge_redis env) w k = Some v \<Longrightarrow> w_string (ge_redis env) w' k = Some v"
    by (rule gate_batch_Done [OF assms(1,2)]) blast
  have "\<exists>tree capsule. entry_field v ''tree_id'' = Some (JStr tree) \<and> entry_field v ''capsule_id'' = Some (JStr capsule)
      \<and> w_string (ge_redis env) w' (tree_accepted_key tree) = Some (Txt capsule)"
    if v: "v \<in> set (accepted_entries env w @ vs)" for v
  proof (cases "v \<in> set vs")
    case True
    with just have "justified env w' (snd ` set messages) v" by blast
    then obtain pack code tree where
      a: "accepted_payload pack (w_hash (ge_redis env) w' (vp_capsule_id pack)) code = Inr v"
        "field_str (w_hash (ge_redis env) w' (vp_capsule_id pack)) ''tree_id'' = Inr tree"
      and k: "w_string (ge_redis env) w' (tree_accepted_key tree) = Some (Txt (vp_capsule_id pack))"
      unfolding justified_def by blast
    show ?thesis
      using accepted_payload_fields [OF a] k by (intro exI [of _ tree] exI [of _ "vp_capsule_id pack"]) simp
  next
    case False
    with v have "v \<in> set (accepted_entries env w)" by simp
    with inv obtain tree capsule where "entry_field v ''tree_id'' = Some (JStr tree)"
      "entry_field v ''capsule_id'' = Some (JStr capsule)"
      "w_string (ge_redis env) w (tree_accepted_key tree) = Some (Txt capsule)"
      unfolding winners_only_def by blast
    with str show ?thesis by blast
  qed
  then show ?thesis unfolding winners_only_def vs by blast
qed

lemma winners_only_batches:
  "gate_batches env bs w = Done w' \<Longrightarrow> shared_store (ge_redis env) \<Longrightarrow> winners_only env w \<Longrightarrow> winners_only env w'"
proof (induction bs arbitrary: w)
  case (Cons b bs)
  obtain v where v: "gate_batch env b w = Done v" "gate_batches env bs v = Done w'"
    using Cons.prems(1) by (auto split: outcome.splits)
  from winners_only_batch [OF Cons.prems(2) v(1) Cons.prems(3)] Cons.IH [OF v(2) Cons.prems(2)] show ?case by blast
qed simp

text \<open>
  C5. Through any sequence of batches a tree gets one accepted candidate: two accepted entries for
  the same tree name the same candidate, although several candidates of a tree may verify.
\<close>

theorem one_accepted_candidate_per_tree:
  assumes "shared_store (ge_redis env)" and "accepted_entries env w = []"
    and "gate_batches env batches w = Done w'"
    and "v \<in> set (accepted_entries env w')" and "v' \<in> set (accepted_entries env w')"
    and "entry_field v ''tree_id'' = entry_field v' ''tree_id''"
  shows "entry_field v ''capsule_id'' = entry_field v' ''capsule_id''"
proof -
  have "winners_only env w'"
    by (rule winners_only_batches [OF assms(3,1)]) (simp add: winners_only_def assms(2))
  with assms(4,5) obtain t c t' c' where
    "entry_field v ''tree_id'' = Some (JStr t)" "entry_field v ''capsule_id'' = Some (JStr c)"
    "w_string (ge_redis env) w' (tree_accepted_key t) = Some (Txt c)"
    "entry_field v' ''tree_id'' = Some (JStr t')" "entry_field v' ''capsule_id'' = Some (JStr c')"
    "w_string (ge_redis env) w' (tree_accepted_key t') = Some (Txt c')"
    unfolding winners_only_def by meson
  with assms(6) show ?thesis by simp
qed

section \<open>An exception in a batch\<close>

text \<open>
  A message that raises ends the batch and discards its pipeline: no entry of the batch reaches
  the accepted stream and no message of it is acknowledged, also those decided before it. What was
  written at once stays, so a candidate can be accepted in the ledger and hold its tree without
  ever being handed to the merger.
\<close>

theorem exception_discards_the_batch:
  assumes "shared_store (ge_redis env)" and "gate_batch env messages w = Crash e w'"
  shows "accepted_entries env w' = accepted_entries env w
    \<and> rd_acked (r_data (ge_redis env) (w_store w')) = rd_acked (r_data (ge_redis env) (w_store w))
    \<and> (\<forall>k v. w_string (ge_redis env) w k = Some v \<longrightarrow> w_string (ge_redis env) w' k = Some v)"
proof -
  obtain pipe where loop: "gate_loop env messages ([], w) = Crash e (pipe, w')"
    using assms(2) by (auto simp: gate_batch_def split: outcome.splits)
  have "loop_inv env w {} ([], w)" by (simp add: loop_inv_def extends_refl)
  from gate_loop_inv [OF assms(1) this, of messages] have "extends env w w'"
    by (simp add: loop loop_inv_def)
  then show ?thesis using extends_streams [of env w w'] extends_string [of env w w'] by simp
qed

section \<open>A sample batch\<close>

definition sample_gate :: "(redis_data, string, string) gate_env" where
  "sample_gate = \<lparr>ge_redis = mem_redis, ge_crypto = echo_crypto, ge_trusted_pubkey = ''k'',
     ge_require_hardware_isolation = True, ge_parse = (\<lambda>code. Inr (Name ''x'')), ge_sha256 = id,
     ge_evaluation_ms = 1, ge_now = 0\<rparr>"

definition sample_node :: "string \<rightharpoonup> rtext" where
  "sample_node = [''code'' \<mapsto> Txt ''d'', ''tree_id'' \<mapsto> Txt ''t'', ''source_path'' \<mapsto> Txt ''/r/s.py'', ''repo_path'' \<mapsto> Txt ''/r'']"

definition sample_candidate :: candidate_row where
  "sample_candidate = \<lparr>cr_task_id = ''t'', cr_parent_id = None, cr_patch_kind = ''comparison_swap'', cr_status = ''verified'',
     cr_source_relpath = ''s.py'', cr_files_touched = [], cr_diff_summary = '''', cr_static_score = 1, cr_rank_score = None,
     cr_created_at = 0, cr_metadata = Map.empty\<rparr>"

definition gate_world :: "redis_data world" where
  "gate_world = \<lparr>w_store = empty_data\<lparr>rd_hashes := (\<lambda>k. Map.empty)(''c'' := sample_node)\<rparr>,
     w_db = empty_db\<lparr>db_candidates := [(''c'', sample_candidate)]\<rparr>\<rparr>"

definition good_message :: "rtext option" where
  "good_message = Some (Doc (pack_to_json (sign_pack echo_crypto sample_pack ''k'')))"

definition malformed_message :: "rtext option" where
  "malformed_message = Some (Doc (pack_to_json (sample_pack\<lparr>vp_attestation := Some ''?''\<rparr>)))"

lemma message_pack_of_json: "vp_meta p = [] \<Longrightarrow> message_pack (Some (Doc (pack_to_json p))) = Inr p"
  by (simp add: message_pack_def pack_decode pack_canon_def sort_fields_def)

lemma sample_node_nonempty: "sample_node \<noteq> Map.empty"
  by (rule notI, drule fun_cong [where x = "''code''"]) (simp add: sample_node_def)

lemma gate_world_hash: "w_hash mem_redis gate_world ''c'' = sample_node"
  by (simp add: w_hash_def gate_world_def mem_redis_def)

lemma good_check: "check_pack sample_gate (sign_pack echo_crypto sample_pack ''k'') sample_node = Inr (None, ''d'')"
proof -
  have "enforce_semantic_policy (\<lambda>code. Inr (Name ''x'')) ''d'' = Inr True"
    by (simp add: enforce_semantic_policy_def ast_walk_def violates_policy_def)
  then show ?thesis
    using verify_sign_pack [OF echo_key_pair, of sample_pack "''k''"]
    by (simp add: check_pack_def sample_node_nonempty sample_gate_def inputs_digest_matches_def)
      (simp add: sign_pack_def sample_pack_def sample_node_def field_str_or_def field_str_def Let_def)
qed

definition accepted_in_ledger :: "'s world \<Rightarrow> string \<Rightarrow> bool" where
  "accepted_in_ledger w c \<longleftrightarrow> fetch_candidate_status (w_db w) c = Some ''accepted''"

lemma good_handled:
  "\<exists>v w. gate_message sample_gate good_message gate_world = Done ([CXAdd STREAM_ACCEPTED v], w)
    \<and> accepted_in_ledger w ''c'' \<and> w_hash mem_redis w ''c'' = sample_node
    \<and> w_string mem_redis w (tree_accepted_key ''t'') = Some (Txt ''c'')"
proof -
  let ?p = "sign_pack echo_crypto sample_pack ''k''"
  have p: "vp_capsule_id ?p = ''c''" "vp_meta ?p = []" by (simp_all add: sign_pack_def sample_pack_def Let_def)
  have red: "ge_redis sample_gate = mem_redis" by (simp add: sample_gate_def)
  have "gate_message sample_gate good_message gate_world = gate_decide sample_gate ?p sample_node ''d'' gate_world"
    using good_check by (simp add: gate_message_def good_message_def message_pack_of_json p red gate_world_hash)
  moreover have tree: "field_str sample_node ''tree_id'' = Inr ''t''"
    by (simp add: field_str_def sample_node_def)
  moreover obtain v where payload: "accepted_payload ?p sample_node ''d'' = Inr v"
    by (simp add: accepted_payload_def field_str_def field_str_or_def sample_node_def)
  moreover define w1 where "w1 = gate_world\<lparr>w_store := (w_store gate_world)
      \<lparr>rd_strings := (rd_strings (w_store gate_world))(tree_accepted_key ''t'' \<mapsto> Txt ''c'')\<rparr>\<rparr>"
  moreover have "reserve_tree sample_gate ''t'' ''c'' gate_world = (None, w1)"
    by (simp add: reserve_tree_def red mem_redis_def gate_world_def empty_data_def Let_def w1_def w_string_def)
  moreover have "\<exists>w2. record_verdict sample_gate ?p sample_node True [] w1 = Done w2 \<and> w_store w2 = w_store w1
      \<and> accepted_in_ledger w2 ''c''"
    by (simp add: record_verdict_def sample_node_nonempty p record_policy_decision_def has_candidate_def Let_def
        update_candidate_status_def fetch_candidate_status_def can_transition_candidate_status_def w1_def gate_world_def
        empty_db_def sample_candidate_def write_candidate_status_def merge_candidate_metadata_def tbl_update_def
        tbl_upsert_def accepted_in_ledger_def)
  ultimately show ?thesis
    by (auto simp: gate_decide_def p w_hash_def w_string_def mem_redis_def gate_world_def)
qed

lemma malformed_handled:
  assumes "w_hash mem_redis w ''c'' = sample_node"
  shows "gate_message sample_gate malformed_message w = Crash ValueError ([], w)"
proof -
  let ?p = "sample_pack\<lparr>vp_attestation := Some ''?''\<rparr>"
  have p: "vp_capsule_id ?p = ''c''" "vp_meta ?p = []" by (simp_all add: sample_pack_def)
  have "verify_pack echo_crypto ?p ''k'' = Inl ValueError"
    by (simp add: verify_pack_def echo_crypto_def Let_def)
  then have "check_pack sample_gate ?p sample_node = Inl ValueError"
    by (simp add: check_pack_def sample_node_nonempty sample_gate_def) (simp add: sample_pack_def)
  then show ?thesis
    using assms by (simp add: gate_message_def malformed_message_def message_pack_of_json p) (simp add: sample_gate_def)
qed

lemma sample_store: "shared_store (ge_redis sample_gate)"
  by (simp add: sample_gate_def mem.shared_store_axioms)

lemma good_batch: "\<exists>w v. gate_batch sample_gate [(''1'', good_message)] gate_world = Done w \<and> accepted_entries sample_gate w = [v]"
proof -
  obtain v w where "gate_message sample_gate good_message gate_world = Done ([CXAdd STREAM_ACCEPTED v], w)"
    and h: "extends sample_gate gate_world w"
    using good_handled gate_message_effect [OF sample_store, of good_message gate_world]
    by (auto simp: message_effect_def)
  then show ?thesis
    using sample_store extends_streams [OF h]
    by (simp add: gate_batch_def) (simp add: sample_gate_def gate_world_def mem_redis_def empty_data_def)
qed

lemma crashing_batch: "\<exists>w. gate_batch sample_gate [(''1'', good_message), (''2'', malformed_message)] gate_world = Crash ValueError w
    \<and> accepted_in_ledger w ''c'' \<and> w_string mem_redis w (tree_accepted_key ''t'') = Some (Txt ''c'')"
proof -
  obtain v w where g: "gate_message sample_gate good_message gate_world = Done ([CXAdd STREAM_ACCEPTED v], w)"
    "accepted_in_ledger w ''c''" "w_hash mem_redis w ''c'' = sample_node"
    "w_string mem_redis w (tree_accepted_key ''t'') = Some (Txt ''c'')"
    using good_handled by blast
  from malformed_handled [OF g(3)] g show ?thesis by (simp add: gate_batch_def Let_def)
qed

theorem accepted_entries_passed_every_check_witness:
  "\<exists>w v pack. gate_batch sample_gate [(''1'', good_message)] gate_world = Done w \<and> accepted_entries sample_gate w = [v]
    \<and> message_pack good_message = Inr pack \<and> vp_success pack \<and> vp_tests_failed pack = 0
    \<and> entry_field v ''capsule_id'' = Some (JStr (vp_capsule_id pack))"
proof -
  obtain w v where b: "gate_batch sample_gate [(''1'', good_message)] gate_world = Done w"
    and v: "accepted_entries sample_gate w = [v]" using good_batch by blast
  have "accepted_entries sample_gate gate_world = []"
    by (simp add: sample_gate_def gate_world_def mem_redis_def empty_data_def)
  with accepted_entries_passed_every_check [OF sample_store b] v b show ?thesis by auto
qed

theorem one_accepted_candidate_per_tree_witness:
  "\<exists>w v. gate_batches sample_gate [[(''1'', good_message)], []] gate_world = Done w \<and> v \<in> set (accepted_entries sample_gate w)
    \<and> (\<forall>v' \<in> set (accepted_entries sample_gate w). entry_field v ''tree_id'' = entry_field v' ''tree_id''
        \<longrightarrow> entry_field v ''capsule_id'' = entry_field v' ''capsule_id'')"
proof -
  obtain w v where b: "gate_batch sample_gate [(''1'', good_message)] gate_world = Done w"
    and v: "accepted_entries sample_gate w = [v]" using good_batch by blast
  have run: "gate_batches sample_gate [[(''1'', good_message)], []] gate_world = Done w"
    using b by (simp add: gate_batch_def w_exec_def)
  have "accepted_entries sample_gate gate_world = []"
    by (simp add: sample_gate_def gate_world_def mem_redis_def empty_data_def)
  from one_accepted_candidate_per_tree [OF sample_store this run] v run show ?thesis by auto
qed

theorem exception_discards_the_batch_witness:
  "\<exists>w. gate_batch sample_gate [(''1'', good_message), (''2'', malformed_message)] gate_world = Crash ValueError w
    \<and> accepted_in_ledger w ''c'' \<and> accepted_entries sample_gate w = accepted_entries sample_gate gate_world"
proof -
  obtain w where "gate_batch sample_gate [(''1'', good_message), (''2'', malformed_message)] gate_world = Crash ValueError w"
    "accepted_in_ledger w ''c''" using crashing_batch by blast
  with exception_discards_the_batch [OF sample_store this(1)] show ?thesis by blast
qed

end
