(* ===== verification/PyFormat.thy ===== *)
theory PyFormat
  imports PyText
begin

text \<open>
  The fixed-point formats of Python's f-strings (\<open>{x:.3f}\<close>, \<open>{x:+.0f}\<close>): the decimal nearest to
  the number, a tie going to the even last digit. A float stands for the real number it denotes,
  so there is no negative zero and no infinity.
\<close>

definition round_half_even :: "real \<Rightarrow> int" where
  "round_half_even x =
     (let d = x - of_int \<lfloor>x\<rfloor>
      in if d < 1 / 2 then \<lfloor>x\<rfloor> else if d > 1 / 2 then \<lfloor>x\<rfloor> + 1
         else if even \<lfloor>x\<rfloor> then \<lfloor>x\<rfloor> else \<lfloor>x\<rfloor> + 1)"

definition fixed_digits :: "nat \<Rightarrow> nat \<Rightarrow> string" where
  "fixed_digits places n =
     (if places = 0 then nat_str n
      else let frac = nat_str (n mod 10 ^ places)
           in nat_str (n div 10 ^ places) @ ''.'' @ replicate (places - length frac) CHR ''0'' @ frac)"

definition format_fixed :: "nat \<Rightarrow> real \<Rightarrow> string" where
  "format_fixed places x =
     (if x < 0 then ''-'' else '''') @ fixed_digits places (nat (round_half_even (\<bar>x\<bar> * 10 ^ places)))"

definition format_signed :: "nat \<Rightarrow> real \<Rightarrow> string" where
  "format_signed places x = (if 0 \<le> x then ''+'' else '''') @ format_fixed places x"

lemma round_half_even_close: "\<bar>of_int (round_half_even x) - x\<bar> \<le> 1 / 2"
  unfolding round_half_even_def Let_def
  using floor_correct [of x] by (auto simp: abs_le_iff) 

end
