(* ===== verification/GlobalMemory.thy ===== *)
theory GlobalMemory
  imports PolicyGate PyFormat
begin

text \<open>
  The global memory daemon (\<open>global_memory.py\<close>): it completes the execution in the ledger,
  rewards the candidate, and propagates the reward from the candidate along the parent links to
  the root. The commands of a batch are queued in one pipeline; what a message reads is the store
  as it was before the batch.
\<close>

section \<open>The reward\<close>

definition compute_reward :: "verification_pack \<Rightarrow> (string \<rightharpoonup> rtext) option \<Rightarrow> py_error + real" where
  "compute_reward pack parent_data =
     (let tests_failed = vp_tests_failed pack
      in py_bind (case parent_data of
             None \<Rightarrow> Inr 999
           | Some d \<Rightarrow> if d = Map.empty then Inr 999 else field_int d ''tests_failed'' 999) (\<lambda>parent_failed.
           let reward = of_int (100 * vp_tests_passed pack) - of_int (200 * tests_failed) - 1 / 100 * vp_runtime pack
           in Inr (if tests_failed < parent_failed then reward + of_int (500 * (parent_failed - tests_failed)) else reward)))"

section \<open>Backpropagation\<close>

text \<open>
  The loop along the parent links; it ends at a node without a parent. Links that go round in
  circles would be followed for ever, so the loop is a partial function. (A \<open>parent\<close> field that is
  not a plain text, which nothing writes, ends it.)
\<close>

partial_function (option) ancestors :: "(string \<Rightarrow> string \<rightharpoonup> rtext) \<Rightarrow> string \<Rightarrow> string list option" where
  "ancestors hash current =
     (if current = [] then Some []
      else case field_str_or (hash current) ''parent'' '''' of
        Inl e \<Rightarrow> Some [current]
      | Inr parent \<Rightarrow> Option.bind (ancestors hash parent) (\<lambda>rest. Some (current # rest)))"

definition visit_cmds :: "verification_pack \<Rightarrow> real \<Rightarrow> string \<Rightarrow> store_cmd list" where
  "visit_cmds pack reward current =
     [CHIncrBy current ''visits'' 1, CHIncrByFloat current ''value_sum'' reward]
     @ (if current = vp_capsule_id pack
        then [CHSet current [(''tests_failed'', Num (vp_tests_failed pack)), (''tests_passed'', Num (vp_tests_passed pack)),
                (''artifact_uri'', Txt (case vp_artifact_uri pack of None \<Rightarrow> '''' | Some u \<Rightarrow> u))]]
        else [])"

definition backpropagate_cmds :: "verification_pack \<Rightarrow> real \<Rightarrow> string list \<Rightarrow> store_cmd list" where
  "backpropagate_cmds pack reward path = concat (map (visit_cmds pack reward) path)"

section \<open>One message\<close>

text \<open>\<open>me_now\<close> is the clock, \<open>me_eval_entry\<close> the entry \<open>f"{now}:{capsule_id}"\<close> of the evaluation times.\<close>

record 's memory_env =
  me_redis :: "'s redis"
  me_now :: real
  me_eval_entry :: "string \<Rightarrow> string"

text \<open>The run as the dashboard shows it.\<close>

definition live_run :: "verification_pack \<Rightarrow> real \<Rightarrow> json" where
  "live_run pack reward =
     (let status = if vp_success pack \<and> vp_tests_failed pack = 0 then ''FORMAL PROOF'' else ''Failed''
      in JObj [(''id'', JStr (last_eight (vp_capsule_id pack))),
           (''runtime'', JStr (format_fixed 3 (vp_runtime pack))), (''status'', JStr status),
           (''reward'', JStr (format_signed 0 reward))])"

definition stats_cmds :: "'s memory_env \<Rightarrow> verification_pack \<Rightarrow> real \<Rightarrow> store_cmd list" where
  "stats_cmds env pack reward =
     [CIncr STATS_TOTAL_EVALS, CZAdd STATS_EVAL_TIMES (me_eval_entry env (vp_capsule_id pack)) (me_now env),
      CZRemRangeByScore STATS_EVAL_TIMES 0 (me_now env - 60), CLPush RECENT_RUNS (Doc (live_run pack reward)),
      CLTrim RECENT_RUNS 0 49]"

definition root_cmds :: "string \<Rightarrow> (string \<rightharpoonup> rtext) \<Rightarrow> (string \<rightharpoonup> rtext) \<Rightarrow> real \<Rightarrow> py_error + store_cmd list" where
  "root_cmds root_id root_data node_data reward =
     py_bind (to_float (or_text (root_data ''best_reward'') (Num 0))) (\<lambda>best_reward.
     py_bind (to_int (or_text (root_data ''max_depth_seen'') (Num 0))) (\<lambda>max_depth_seen.
     py_bind (field_int node_data ''depth'' 0) (\<lambda>node_depth.
       Inr ((if reward > best_reward then [CHSet root_id [(''best_reward'', Flt reward)]] else [])
          @ (if node_depth > max_depth_seen then [CHSet root_id [(''max_depth_seen'', Num node_depth)]] else [])))))"

definition memory_decide ::
    "verification_pack \<Rightarrow> string \<Rightarrow> store_cmd list \<Rightarrow> 's world \<Rightarrow> 's handled" where
  "memory_decide pack task_id cmds w =
     (if vp_success pack \<and> vp_tests_failed pack = 0
      then (cmds @ [CSet (tree_done_key task_id) (Txt (vp_capsule_id pack)),
              CHSet (vp_capsule_id pack) [(''is_terminal'', Txt ''True'')]],
            w\<lparr>w_db := snd (update_task_status task_id ''verified''
                (snd (update_candidate_status (vp_capsule_id pack) ''verified'' None (w_db w))))\<rparr>)
      else (cmds, w\<lparr>w_db := snd (update_candidate_status (vp_capsule_id pack) ''failed'' None (w_db w))\<rparr>))"

text \<open>None where the loop along the parents does not end.\<close>

definition memory_message :: "'s memory_env \<Rightarrow> rtext option \<Rightarrow> 's world \<Rightarrow> 's handled outcome option" where
  "memory_message env payload w =
     (case message_pack payload of
        Inl e \<Rightarrow> Some (Crash e ([], w))
      | Inr pack \<Rightarrow>
          let w = w\<lparr>w_db := complete_execution pack (me_now env) (w_db w)\<rparr>;
              hash = w_hash (me_redis env) w;
              node_data = hash (vp_capsule_id pack)
          in if node_data = Map.empty then Some (Done ([], w))
             else case field_str_or node_data ''parent'' '''' of
               Inl e \<Rightarrow> Some (Crash e ([], w))
             | Inr parent_id \<Rightarrow>
                 (case compute_reward pack (if parent_id = [] then None else Some (hash parent_id)) of
                    Inl e \<Rightarrow> Some (Crash e ([], w))
                  | Inr reward \<Rightarrow>
                      (case field_str node_data ''tree_id'' of
                         Inl e \<Rightarrow> Some (Crash e ([], w))
                       | Inr task_id \<Rightarrow>
                           (case ancestors hash (vp_capsule_id pack) of
                              None \<Rightarrow> None
                            | Some path \<Rightarrow>
                                let cmds = stats_cmds env pack reward @ backpropagate_cmds pack reward path
                                in case root_cmds (root_node_id task_id) (hash (root_node_id task_id)) node_data reward of
                                     Inl e \<Rightarrow> Some (Crash e (cmds, w))
                                   | Inr updates \<Rightarrow> Some (Done (memory_decide pack task_id (cmds @ updates) w))))))"

section \<open>A batch\<close>

fun memory_loop :: "'s memory_env \<Rightarrow> (string \<times> rtext option) list \<Rightarrow> 's handled \<Rightarrow> 's handled outcome option" where
  "memory_loop env [] st = Some (Done st)"
| "memory_loop env ((message_id, payload) # messages) (pipe, w) =
     (let ack = CXAck STREAM_RESULTS ''memory_group'' message_id
      in case memory_message env payload w of
           None \<Rightarrow> None
         | Some (Crash e (cmds, w)) \<Rightarrow> Some (Crash e (pipe @ cmds @ [ack], w))
         | Some (Done (cmds, w)) \<Rightarrow> memory_loop env messages (pipe @ cmds @ [ack], w))"

definition memory_batch :: "'s memory_env \<Rightarrow> (string \<times> rtext option) list \<Rightarrow> 's world \<Rightarrow> 's world outcome option" where
  "memory_batch env messages w =
     (case memory_loop env messages ([], w) of
        None \<Rightarrow> None
      | Some (Crash e (pipe, w)) \<Rightarrow> Some (Crash e w)
      | Some (Done (pipe, w)) \<Rightarrow> Some (Done (w_exec (me_redis env) pipe w)))"

end
