(* ===== verification/MemoryProps.thy ===== *)
theory MemoryProps
  imports GlobalMemory ForestWitness PolicyGateProps
begin

text \<open>
  Properties of the global memory daemon: what a reward changes in the tree, how the best reward of
  a tree comes about when a batch holds several results, and what a success without attestation
  does to the search.
\<close>

section \<open>The loop along the parents\<close>

inductive parent_path :: "(string \<Rightarrow> string \<rightharpoonup> rtext) \<Rightarrow> string \<Rightarrow> string list \<Rightarrow> bool" for hash where
  path_top: "parent_path hash [] []"
| path_stop: "n \<noteq> [] \<Longrightarrow> \<nexists>p. hash n ''parent'' = Some (Txt p) \<Longrightarrow> parent_path hash n [n]"
| path_up: "n \<noteq> [] \<Longrightarrow> hash n ''parent'' = Some (Txt p) \<Longrightarrow> parent_path hash p ps \<Longrightarrow> parent_path hash n (n # ps)"

lemma ancestors_top [simp]: "ancestors hash [] = Some []"
  by (subst ancestors.simps) simp

lemma ancestors_path: "parent_path hash n ps \<Longrightarrow> ancestors hash n = Some ps"
proof (induction rule: parent_path.induct)
  case (path_stop n)
  then show ?case
    by (subst ancestors.simps) (auto simp: field_str_or_def field_str_def split: option.splits rtext.splits)
next
  case (path_up n p ps)
  then show ?case by (subst ancestors.simps) (simp add: field_str_or_def field_str_def)
qed simp

lemma path_ancestors: "ancestors hash n = Some ps \<Longrightarrow> parent_path hash n ps"
proof (induction hash n ps rule: ancestors.raw_induct [rotated 1, consumes 1, case_names step])
  case (step rec hash n ps)
  show ?case
  proof (cases "\<exists>p. n \<noteq> [] \<and> hash n ''parent'' = Some (Txt p)")
    case True
    then obtain p where p: "n \<noteq> []" "hash n ''parent'' = Some (Txt p)" by blast
    with step.hyps obtain rest where "rec hash p = Some rest" "ps = n # rest"
      by (auto simp: field_str_or_def field_str_def bind_eq_Some_conv)
    with p step.IH show ?thesis by (auto intro: path_up)
  next
    case False
    show ?thesis
    proof (cases "n = []")
      case True
      with step.hyps show ?thesis by (simp add: path_top)
    next
      case ne: False
      with False have stop: "\<nexists>p. hash n ''parent'' = Some (Txt p)" by blast
      show ?thesis
      proof (cases "hash n ''parent''")
        case None
        with step.hyps ne obtain rest where "rec hash [] = Some rest" "ps = n # rest"
          by (auto simp: field_str_or_def bind_eq_Some_conv)
        moreover from this(1) have "parent_path hash [] rest" by (rule step.IH)
        then have "rest = []" by (auto elim: parent_path.cases)
        ultimately show ?thesis using path_stop [of n hash, OF ne stop] by simp
      next
        case (Some v)
        with step.hyps ne stop have "ps = [n]"
          by (cases v) (auto simp: field_str_or_def field_str_def)
        then show ?thesis using path_stop [of n hash, OF ne stop] by simp
      qed
    qed
  qed
qed

lemma parent_path_exists:
  fixes depth :: "string \<Rightarrow> nat"
  assumes "\<And>n p. n \<noteq> [] \<Longrightarrow> hash n ''parent'' = Some (Txt p) \<Longrightarrow> p \<noteq> [] \<Longrightarrow> depth p < depth n"
  shows "\<exists>ps. parent_path hash n ps"
proof (induction "depth n" arbitrary: n rule: less_induct)
  case less
  show ?case
  proof (cases "\<exists>p. n \<noteq> [] \<and> hash n ''parent'' = Some (Txt p)")
    case False
    then show ?thesis by (cases "n = []") (auto intro: path_top path_stop)
  next
    case True
    then obtain p where p: "n \<noteq> []" "hash n ''parent'' = Some (Txt p)" by blast
    then have "\<exists>ps. parent_path hash p ps" using less assms by (cases "p = []") (auto intro: path_top)
    with p show ?thesis by (blast intro: path_up)
  qed
qed

section \<open>What a pipeline does to one field\<close>

text \<open>The commands that write the field \<open>f\<close> of the hash \<open>k\<close>.\<close>

fun writes_field :: "string \<Rightarrow> string \<Rightarrow> store_cmd \<Rightarrow> bool" where
  "writes_field k f (CHSet k' fs) = (k' = k \<and> f \<in> fst ` set fs)"
| "writes_field k f (CHIncrBy k' f' n) = (k' = k \<and> f' = f)"
| "writes_field k f (CHIncrByFloat k' f' x) = (k' = k \<and> f' = f)"
| "writes_field k f _ = False"

lemma hset_fields_other: "f \<notin> fst ` set fs \<Longrightarrow> hset_fields fs h f = h f"
  by (induction fs arbitrary: h) auto

lemma apply_cmd_other: "\<not> writes_field k f c \<Longrightarrow> rd_hashes (apply_cmd c d) k f = rd_hashes d k f"
  by (cases c) (auto simp: hset_fields_other)

lemma apply_cmds_other: "\<forall>c \<in> set cmds. \<not> writes_field k f c \<Longrightarrow> rd_hashes (apply_cmds cmds d) k f = rd_hashes d k f"
  by (induction cmds arbitrary: d) (simp_all add: apply_cmd_other)

lemma backpropagate_field:
  "f \<notin> {''visits'', ''value_sum'', ''tests_failed'', ''tests_passed'', ''artifact_uri''} \<Longrightarrow>
    \<forall>c \<in> set (backpropagate_cmds pack r path). \<not> writes_field k f c"
  by (auto simp: backpropagate_cmds_def visit_cmds_def)

lemma backpropagate_visits:
  "counter (rd_hashes (apply_cmds (backpropagate_cmds pack r path) d) k ''visits'')
      = counter (rd_hashes d k ''visits'') + int (count_list path k)
   \<and> float_counter (rd_hashes (apply_cmds (backpropagate_cmds pack r path) d) k ''value_sum'')
      = float_counter (rd_hashes d k ''value_sum'') + r * real (count_list path k)"
proof (induction path arbitrary: d)
  case Nil
  then show ?case by (simp add: backpropagate_cmds_def)
next
  case (Cons n path)
  have split: "apply_cmds (backpropagate_cmds pack r (n # path)) d
      = apply_cmds (backpropagate_cmds pack r path) (apply_cmds (visit_cmds pack r n) d)"
    by (simp add: backpropagate_cmds_def)
  have head: "counter (rd_hashes (apply_cmds (visit_cmds pack r n) d) k ''visits'')
      = counter (rd_hashes d k ''visits'') + of_bool (k = n)"
    "float_counter (rd_hashes (apply_cmds (visit_cmds pack r n) d) k ''value_sum'')
      = float_counter (rd_hashes d k ''value_sum'') + r * of_bool (k = n)"
    by (simp_all add: visit_cmds_def)
  show ?case
    unfolding split Cons.IH [THEN conjunct1] Cons.IH [THEN conjunct2] head by (simp add: algebra_simps)
qed

section \<open>One result\<close>

lemma memory_decide_cmds:
  "fst (memory_decide pack t cmds w) = cmds \<or> fst (memory_decide pack t cmds w)
     = cmds @ [CSet (tree_done_key t) (Txt (vp_capsule_id pack)), CHSet (vp_capsule_id pack) [(''is_terminal'', Txt ''True'')]]"
  by (simp add: memory_decide_def)

lemma root_cmds_cases:
  "root_cmds rid rd nd r = Inr cmds \<Longrightarrow> set cmds \<subseteq> {CHSet rid [(''best_reward'', Flt r)]} \<union> range (\<lambda>d. CHSet rid [(''max_depth_seen'', Num d)])"
  by (auto simp: root_cmds_def py_bind_Inr)

lemma memory_message_Done:
  assumes "memory_message env p w = Some (Done (cmds, w'))" and "message_pack p = Inr pack"
    and "w_hash (me_redis env) w (vp_capsule_id pack) \<noteq> Map.empty"
  obtains parent_id reward task_id path updates where
    "field_str_or (w_hash (me_redis env) w (vp_capsule_id pack)) ''parent'' '''' = Inr parent_id"
    and "compute_reward pack (if parent_id = [] then None else Some (w_hash (me_redis env) w parent_id)) = Inr reward"
    and "field_str (w_hash (me_redis env) w (vp_capsule_id pack)) ''tree_id'' = Inr task_id"
    and "ancestors (w_hash (me_redis env) w) (vp_capsule_id pack) = Some path"
    and "root_cmds (root_node_id task_id) (w_hash (me_redis env) w (root_node_id task_id))
          (w_hash (me_redis env) w (vp_capsule_id pack)) reward = Inr updates"
    and "(cmds, w') = memory_decide pack task_id ((stats_cmds env pack reward @ backpropagate_cmds pack reward path) @ updates)
          (w\<lparr>w_db := complete_execution pack (me_now env) (w_db w)\<rparr>)"
proof -
  have same: "w_hash (me_redis env) (w\<lparr>w_db := complete_execution pack (me_now env) (w_db w)\<rparr>) = w_hash (me_redis env) w"
    by (simp add: w_hash_def [abs_def])
  show thesis
    using assms(1,3) unfolding memory_message_def assms(2) sum.case Let_def same
    by (auto split: sum.splits option.splits if_splits intro: that)
qed

lemma memory_message_store:
  "memory_message env p w = Some (Done (cmds, w')) \<Longrightarrow> w_store w' = w_store w"
  by (auto simp: memory_message_def memory_decide_def Let_def split: sum.splits option.splits if_splits)

section \<open>A batch of results\<close>

text \<open>
  \<open>result_of env w p r\<close>: the message \<open>p\<close> reports on a node of the tree; \<open>r\<close> holds its pack, its
  path to the root, its reward and its task.
\<close>

type_synonym memory_result = "verification_pack \<times> string list \<times> real \<times> string"

definition result_of :: "'s memory_env \<Rightarrow> 's world \<Rightarrow> rtext option \<Rightarrow> memory_result \<Rightarrow> bool" where
  "result_of env w p r \<longleftrightarrow> (case r of (pack, path, reward, task_id) \<Rightarrow>
     message_pack p = Inr pack \<and> w_hash (me_redis env) w (vp_capsule_id pack) \<noteq> Map.empty
   \<and> parent_path (w_hash (me_redis env) w) (vp_capsule_id pack) path
   \<and> (\<exists>parent_id. field_str_or (w_hash (me_redis env) w (vp_capsule_id pack)) ''parent'' '''' = Inr parent_id
        \<and> compute_reward pack (if parent_id = [] then None else Some (w_hash (me_redis env) w parent_id)) = Inr reward)
   \<and> field_str (w_hash (me_redis env) w (vp_capsule_id pack)) ''tree_id'' = Inr task_id)"

text \<open>A message on a candidate whose node the store does not have: the daemon goes on to the next one.\<close>

definition unknown_candidate :: "'s memory_env \<Rightarrow> 's world \<Rightarrow> rtext option \<Rightarrow> bool" where
  "unknown_candidate env w p \<longleftrightarrow>
     (\<exists>pack. message_pack p = Inr pack \<and> w_hash (me_redis env) w (vp_capsule_id pack) = Map.empty)"

fun results_of :: "'s memory_env \<Rightarrow> 's world \<Rightarrow> (string \<times> rtext option) list \<Rightarrow> memory_result list \<Rightarrow> bool" where
  "results_of env w [] results \<longleftrightarrow> results = []"
| "results_of env w ((i, p) # messages) results \<longleftrightarrow>
     unknown_candidate env w p \<and> results_of env w messages results
     \<or> (\<exists>r rest. results = r # rest \<and> result_of env w p r \<and> results_of env w messages rest)"

lemma result_of_store: "w_store w' = w_store w \<Longrightarrow> result_of env w' p r = result_of env w p r"
  by (simp add: result_of_def w_hash_def [abs_def])

lemma result_of_unique: "result_of env w p r \<Longrightarrow> result_of env w p r' \<Longrightarrow> r = r'"
  by (cases r; cases r') (auto simp: result_of_def dest!: ancestors_path)

lemma results_of_store: "w_store w' = w_store w \<Longrightarrow> results_of env w' messages results = results_of env w messages results"
proof (induction messages arbitrary: results)
  case (Cons m messages)
  have "unknown_candidate env w' p = unknown_candidate env w p" for p
    using Cons.prems by (simp add: unknown_candidate_def w_hash_def)
  then show ?case using Cons by (cases m) (simp add: result_of_store [OF Cons.prems])
qed simp

lemma memory_message_crash_store:
  "memory_message env p w = Some (Crash e st) \<Longrightarrow> w_store (snd st) = w_store w"
  by (auto simp: memory_message_def Let_def split: sum.splits option.splits if_splits)

text \<open>The best reward of a task's tree as a message of the batch reads it.\<close>

definition best_before :: "'s memory_env \<Rightarrow> 's world \<Rightarrow> string \<Rightarrow> py_error + real" where
  "best_before env w task_id = to_float (or_text (w_hash (me_redis env) w (root_node_id task_id) ''best_reward'') (Num 0))"

lemma best_before_store: "w_store w' = w_store w \<Longrightarrow> best_before env w' t = best_before env w t"
  by (simp add: best_before_def w_hash_def)

lemma root_id_inject [simp]: "root_node_id t = root_node_id t' \<longleftrightarrow> t = t'"
  by (simp add: key_defs)

lemma stats_quiet: "\<forall>c \<in> set (stats_cmds env pack r). \<not> writes_field k f c"
  by (simp add: stats_cmds_def)

lemma message_fields:
  assumes "memory_message env p w = Some (Done (cmds, w'))" and "result_of env w p (pack, path, reward, task_id)"
  shows "counter (rd_hashes (apply_cmds cmds d) n ''visits'') = counter (rd_hashes d n ''visits'') + int (count_list path n)
    \<and> float_counter (rd_hashes (apply_cmds cmds d) n ''value_sum'')
        = float_counter (rd_hashes d n ''value_sum'') + reward * real (count_list path n)
    \<and> (best_before env w t = Inr best \<longrightarrow>
        rd_hashes (apply_cmds cmds d) (root_node_id t) ''best_reward''
          = (if t = task_id \<and> best < reward then Some (Flt reward) else rd_hashes d (root_node_id t) ''best_reward''))"
proof -
  have p: "message_pack p = Inr pack" "w_hash (me_redis env) w (vp_capsule_id pack) \<noteq> Map.empty"
    "ancestors (w_hash (me_redis env) w) (vp_capsule_id pack) = Some path"
    using assms(2) ancestors_path unfolding result_of_def by auto
  obtain parent_id where r: "field_str_or (w_hash (me_redis env) w (vp_capsule_id pack)) ''parent'' '''' = Inr parent_id"
    "compute_reward pack (if parent_id = [] then None else Some (w_hash (me_redis env) w parent_id)) = Inr reward"
    "field_str (w_hash (me_redis env) w (vp_capsule_id pack)) ''tree_id'' = Inr task_id"
    using assms(2) unfolding result_of_def by auto
  obtain updates where
    u: "root_cmds (root_node_id task_id) (w_hash (me_redis env) w (root_node_id task_id))
          (w_hash (me_redis env) w (vp_capsule_id pack)) reward = Inr updates"
    and m: "(cmds, w') = memory_decide pack task_id ((stats_cmds env pack reward @ backpropagate_cmds pack reward path) @ updates)
          (w\<lparr>w_db := complete_execution pack (me_now env) (w_db w)\<rparr>)"
  proof (rule memory_message_Done [OF assms(1) p(1,2)])
    fix parent_id' reward' task_id' path' updates
    assume parent: "field_str_or (w_hash (me_redis env) w (vp_capsule_id pack)) ''parent'' '''' = Inr parent_id'"
      and reward: "compute_reward pack (if parent_id' = [] then None else Some (w_hash (me_redis env) w parent_id')) = Inr reward'"
      and task: "field_str (w_hash (me_redis env) w (vp_capsule_id pack)) ''tree_id'' = Inr task_id'"
      and path: "ancestors (w_hash (me_redis env) w) (vp_capsule_id pack) = Some path'"
      and out: "root_cmds (root_node_id task_id') (w_hash (me_redis env) w (root_node_id task_id'))
          (w_hash (me_redis env) w (vp_capsule_id pack)) reward' = Inr updates"
        "(cmds, w') = memory_decide pack task_id' ((stats_cmds env pack reward' @ backpropagate_cmds pack reward' path') @ updates)
          (w\<lparr>w_db := complete_execution pack (me_now env) (w_db w)\<rparr>)"
    have "parent_id' = parent_id" using parent r(1) by simp
    then have "Inr reward' = (Inr reward :: py_error + real)" using reward r(2) by metis
    moreover have "task_id' = task_id" "path' = path" using task path r(3) p(3) by simp_all
    ultimately have same: "reward' = reward" "task_id' = task_id" "path' = path" by simp_all
    show thesis by (rule that [OF out [unfolded same]])
  qed
  define tail where "tail = (if vp_success pack \<and> vp_tests_failed pack = 0
      then [CSet (tree_done_key task_id) (Txt (vp_capsule_id pack)), CHSet (vp_capsule_id pack) [(''is_terminal'', Txt ''True'')]] else [])"
  have cmds: "cmds = stats_cmds env pack reward @ backpropagate_cmds pack reward path @ updates @ tail"
    using m by (auto simp: memory_decide_def tail_def split: if_splits)
  have tail: "f \<noteq> ''is_terminal'' \<Longrightarrow> rd_hashes (apply_cmds tail d') k f = rd_hashes d' k f" for d' k f
    by (rule apply_cmds_other) (auto simp: tail_def)
  have stats: "rd_hashes (apply_cmds (stats_cmds env pack reward) d') k f = rd_hashes d' k f" for d' k f
    by (rule apply_cmds_other [OF stats_quiet])
  have updates: "f \<notin> {''best_reward'', ''max_depth_seen''} \<Longrightarrow> rd_hashes (apply_cmds updates d') k f = rd_hashes d' k f" for d' k f
    using root_cmds_cases [OF u] by (intro apply_cmds_other) auto
  have best: "rd_hashes (apply_cmds updates d') (root_node_id t) ''best_reward''
      = (if t = task_id \<and> best < reward then Some (Flt reward) else rd_hashes d' (root_node_id t) ''best_reward'')"
    if "best_before env w t = Inr best" for d'
  proof (cases "t = task_id")
    case True
    with u that show ?thesis by (auto simp: root_cmds_def best_before_def py_bind_Inr split: if_splits)
  next
    case False
    with root_cmds_cases [OF u] have "\<forall>c \<in> set updates. \<not> writes_field (root_node_id t) ''best_reward'' c" by auto
    with False show ?thesis by (simp add: apply_cmds_other)
  qed
  have visits: "rd_hashes (apply_cmds (backpropagate_cmds pack reward path) d') k ''best_reward'' = rd_hashes d' k ''best_reward''" for d' k
    by (rule apply_cmds_other [OF backpropagate_field]) simp
  show ?thesis
    unfolding cmds using backpropagate_visits by (simp add: tail stats updates best visits)
qed

lemma message_kind:
  assumes "memory_message env p w = Some (Done (cmds, w'))"
  obtains (unknown) "unknown_candidate env w p" and "cmds = []" | (known) r where "result_of env w p r"
proof -
  obtain pack where pack: "message_pack p = Inr pack"
    using assms by (auto simp: memory_message_def split: sum.splits)
  show thesis
  proof (cases "w_hash (me_redis env) w (vp_capsule_id pack) = Map.empty")
    case True
    moreover have "w_hash (me_redis env) (w\<lparr>w_db := db\<rparr>) = w_hash (me_redis env) w" for db
      by (simp add: w_hash_def [abs_def])
    ultimately show ?thesis using assms pack by (intro unknown) (auto simp: unknown_candidate_def memory_message_def)
  next
    case False
    show ?thesis
    proof (rule memory_message_Done [OF assms pack False])
      fix parent_id reward task_id path
      assume "field_str_or (w_hash (me_redis env) w (vp_capsule_id pack)) ''parent'' '''' = Inr parent_id"
        and "compute_reward pack (if parent_id = [] then None else Some (w_hash (me_redis env) w parent_id)) = Inr reward"
        and "field_str (w_hash (me_redis env) w (vp_capsule_id pack)) ''tree_id'' = Inr task_id"
        and "ancestors (w_hash (me_redis env) w) (vp_capsule_id pack) = Some path"
      with pack False show thesis
        by (intro known [of "(pack, path, reward, task_id)"]) (auto simp: result_of_def intro: path_ancestors)
    qed
  qed
qed

text \<open>The rewards a batch brings to one task, in the order of its messages.\<close>

definition rewards_of :: "memory_result list \<Rightarrow> string \<Rightarrow> real list" where
  "rewards_of results task_id = map (\<lambda>(pack, path, reward, t). reward) (filter (\<lambda>(pack, path, reward, t). t = task_id) results)"

lemma rewards_of_simps [simp]:
  "rewards_of [] t = []"
  "rewards_of ((pack, path, reward, t') # results) t = (if t' = t then reward # rewards_of results t else rewards_of results t)"
  by (simp_all add: rewards_of_def)

definition batch_effect :: "(string \<Rightarrow> py_error + real) \<Rightarrow> store_cmd list \<Rightarrow> memory_result list \<Rightarrow> bool" where
  "batch_effect old cmds results \<longleftrightarrow> (\<forall>d.
      (\<forall>n. counter (rd_hashes (apply_cmds cmds d) n ''visits'')
        = counter (rd_hashes d n ''visits'') + (\<Sum>(pack, path, reward, t) \<leftarrow> results. int (count_list path n)))
    \<and> (\<forall>n. float_counter (rd_hashes (apply_cmds cmds d) n ''value_sum'')
        = float_counter (rd_hashes d n ''value_sum'') + (\<Sum>(pack, path, reward, t) \<leftarrow> results. reward * real (count_list path n)))
    \<and> (\<forall>t best. old t = Inr best \<longrightarrow> rd_hashes (apply_cmds cmds d) (root_node_id t) ''best_reward''
        = (let better = filter (\<lambda>x. best < x) (rewards_of results t)
           in if better = [] then rd_hashes d (root_node_id t) ''best_reward'' else Some (Flt (last better)))))"

lemma batch_effect_Nil: "batch_effect old [] []"
  by (simp add: batch_effect_def)

lemma batch_effect_skip: "batch_effect old cmds results \<Longrightarrow> batch_effect old (CXAck k g i # cmds) results"
  by (auto simp: batch_effect_def Let_def)

lemma batch_effect_Cons:
  assumes "\<And>d n. counter (rd_hashes (apply_cmds cmds d) n ''visits'') = counter (rd_hashes d n ''visits'') + int (count_list path n)"
    and "\<And>d n. float_counter (rd_hashes (apply_cmds cmds d) n ''value_sum'')
        = float_counter (rd_hashes d n ''value_sum'') + reward * real (count_list path n)"
    and "\<And>d t best. old t = Inr best \<Longrightarrow> rd_hashes (apply_cmds cmds d) (root_node_id t) ''best_reward''
          = (if t = task_id \<and> best < reward then Some (Flt reward) else rd_hashes d (root_node_id t) ''best_reward'')"
    and "batch_effect old cmds' results"
  shows "batch_effect old (cmds @ CXAck k g i # cmds') ((pack, path, reward, task_id) # results)"
  unfolding batch_effect_def
proof (intro allI conjI impI)
  fix d n t best
  let ?d = "apply_cmds cmds d"
  have ack: "rd_hashes (apply_cmd (CXAck k g i) ?d) = rd_hashes ?d" by simp
  have all: "apply_cmds (cmds @ CXAck k g i # cmds') d = apply_cmds cmds' (apply_cmd (CXAck k g i) ?d)" by simp
  note rest = assms(4) [unfolded batch_effect_def, THEN spec [of _ "apply_cmd (CXAck k g i) ?d"]]
  show "counter (rd_hashes (apply_cmds (cmds @ CXAck k g i # cmds') d) n ''visits'')
      = counter (rd_hashes d n ''visits'') + (\<Sum>(pack, path, reward, t) \<leftarrow> (pack, path, reward, task_id) # results. int (count_list path n))"
    unfolding all rest [THEN conjunct1, THEN spec] ack assms(1) by simp
  show "float_counter (rd_hashes (apply_cmds (cmds @ CXAck k g i # cmds') d) n ''value_sum'') = float_counter (rd_hashes d n ''value_sum'')
      + (\<Sum>(pack, path, reward, t) \<leftarrow> (pack, path, reward, task_id) # results. reward * real (count_list path n))"
    unfolding all rest [THEN conjunct2, THEN conjunct1, THEN spec] ack assms(2) by simp
  assume best: "old t = Inr best"
  show "rd_hashes (apply_cmds (cmds @ CXAck k g i # cmds') d) (root_node_id t) ''best_reward''
        = (let better = filter (\<lambda>x. best < x) (rewards_of ((pack, path, reward, task_id) # results) t)
           in if better = [] then rd_hashes d (root_node_id t) ''best_reward'' else Some (Flt (last better)))"
    unfolding all rest [THEN conjunct2, THEN conjunct2, THEN spec, THEN spec, THEN mp, OF best] ack assms(3) [OF best]
    by (auto simp: Let_def)
qed

lemma memory_loop_fields:
  assumes "memory_loop env messages (pipe, w) = Some (Done (pipe', w'))"
  shows "w_store w' = w_store w \<and> (\<exists>cmds results. pipe' = pipe @ cmds \<and> results_of env w messages results
    \<and> batch_effect (best_before env w) cmds results)"
  using assms
proof (induction messages arbitrary: pipe w)
  case Nil
  then show ?case by (auto intro!: exI [of _ "[] :: memory_result list"] simp: batch_effect_Nil)
next
  case (Cons m messages)
  obtain i p where m: "m = (i, p)" by (cases m)
  let ?ack = "CXAck STREAM_RESULTS ''memory_group'' i"
  obtain cmds v where msg: "memory_message env p w = Some (Done (cmds, v))"
    and loop: "memory_loop env messages (pipe @ cmds @ [?ack], v) = Some (Done (pipe', w'))"
    using Cons.prems(1) m by (auto simp: Let_def split: option.splits outcome.splits)
  have store: "w_store v = w_store w" by (rule memory_message_store [OF msg])
  obtain cmds' results where c: "w_store w' = w_store w" "pipe' = (pipe @ cmds @ [?ack]) @ cmds'"
    and results: "results_of env w messages results" and eff: "batch_effect (best_before env w) cmds' results"
    using Cons.IH [OF loop] unfolding store results_of_store [OF store] best_before_store [OF store, abs_def]
      ext [of "best_before env v" "best_before env w", OF best_before_store [OF store]] by blast
  from msg show ?case
  proof (cases rule: message_kind)
    case unknown
    have "results_of env w (m # messages) results" using unknown(1) results by (simp add: m)
    moreover have "batch_effect (best_before env w) (?ack # cmds') results" using eff by (rule batch_effect_skip)
    ultimately show ?thesis using c unknown(2) by (intro conjI exI [of _ "?ack # cmds'"] exI [of _ results]) simp_all
  next
    case (known r)
    obtain pack path reward task_id where rr: "r = (pack, path, reward, task_id)" by (cases r) auto
    note now = message_fields [OF msg known [unfolded rr]]
    have "batch_effect (best_before env w) (cmds @ ?ack # cmds') (r # results)"
      unfolding rr
      by (rule batch_effect_Cons [OF now [THEN conjunct1] now [THEN conjunct2, THEN conjunct1]
            now [THEN conjunct2, THEN conjunct2, THEN mp] eff])
    moreover have "results_of env w (m # messages) (r # results)" using known results by (simp add: m)
    ultimately show ?thesis using c by (intro conjI exI [of _ "cmds @ ?ack # cmds'"] exI [of _ "r # results"]) simp_all
  qed
qed

lemma memory_loop_crash:
  "memory_loop env messages (pipe, w) = Some (Crash e (pipe', w')) \<Longrightarrow> w_store w' = w_store w"
proof (induction messages arbitrary: pipe w)
  case (Cons m messages)
  obtain i p where m: "m = (i, p)" by (cases m)
  obtain out where out: "memory_message env p w = Some out"
    using Cons.prems m by (cases "memory_message env p w") (auto simp: Let_def)
  show ?case
  proof (cases out)
    case (Done st)
    obtain cmds v where st: "st = (cmds, v)" by (cases st)
    with Cons out Done m have "w_store w' = w_store v" by (simp add: Let_def)
    with memory_message_store [of env p w cmds v] out Done st show ?thesis by simp
  next
    case (Crash e' st)
    then show ?thesis
      using Cons.prems out m memory_message_crash_store [of env p w e'] by (cases st) (auto simp: Let_def)
  qed
qed simp

text \<open>
  C9. A batch of the memory daemon, whatever messages of whatever tasks it mixes. When a message
  raises, the batch writes nothing to the store. Otherwise every message reports either on a
  candidate the store does not know, which changes nothing in the trees, or on a node, and then the
  visit count of every node has grown by the number of those reports whose path to the root goes
  through it, and its value by their rewards: each is counted once in each ancestor and nowhere
  else. The best reward of a task, however, becomes the reward of the last report on that task
  that beats the value from before the batch, not of the best one.
\<close>

theorem batch_rewards_every_ancestor:
  assumes "shared_store (me_redis env)" and "memory_batch env messages w = Some outcome"
  shows "case outcome of
      Crash err w' \<Rightarrow> w_store w' = w_store w
    | Done w' \<Rightarrow> \<exists>results. results_of env w messages results
        \<and> (\<forall>n. counter (w_hash (me_redis env) w' n ''visits'')
              = counter (w_hash (me_redis env) w n ''visits'') + (\<Sum>(pack, path, reward, t) \<leftarrow> results. int (count_list path n))
          \<and> float_counter (w_hash (me_redis env) w' n ''value_sum'')
              = float_counter (w_hash (me_redis env) w n ''value_sum'')
                + (\<Sum>(pack, path, reward, t) \<leftarrow> results. reward * real (count_list path n)))
        \<and> (\<forall>t best. best_before env w t = Inr best \<longrightarrow>
            w_hash (me_redis env) w' (root_node_id t) ''best_reward''
              = (let better = filter (\<lambda>x. best < x) (rewards_of results t)
                 in if better = [] then w_hash (me_redis env) w (root_node_id t) ''best_reward'' else Some (Flt (last better))))"
proof (cases outcome)
  case (Crash err w')
  with assms(2) obtain pipe where "memory_loop env messages ([], w) = Some (Crash err (pipe, w'))"
    by (auto simp: memory_batch_def split: option.splits outcome.splits)
  from memory_loop_crash [OF this] Crash show ?thesis by simp
next
  case (Done w')
  then obtain pipe v where loop: "memory_loop env messages ([], w) = Some (Done (pipe, v))" and w': "w' = w_exec (me_redis env) pipe v"
    using assms(2) by (auto simp: memory_batch_def split: option.splits outcome.splits)
  from memory_loop_fields [OF loop] obtain cmds results where
    v: "w_store v = w_store w" and pipe: "pipe = cmds" and results: "results_of env w messages results"
    and eff: "batch_effect (best_before env w) cmds results"
    by auto
  have after: "w_hash (me_redis env) w' = rd_hashes (apply_cmds cmds (r_data (me_redis env) (w_store w)))"
    using assms(1) by (simp add: w' w_hash_def [abs_def] pipe v)
  have before: "w_hash (me_redis env) w = rd_hashes (r_data (me_redis env) (w_store w))"
    by (simp add: w_hash_def [abs_def])
  show ?thesis
    unfolding Done outcome.case after before
    using results eff [unfolded batch_effect_def, THEN spec [of _ "r_data (me_redis env) (w_store w)"]]
    by blast
qed

text \<open>Two results of one tree, the first one the better.\<close>

definition two_results :: "string \<Rightarrow> string \<rightharpoonup> rtext" where
  "two_results n =
     (if n = root_node_id ''t'' then [''tree_id'' \<mapsto> Txt ''t'', ''visits'' \<mapsto> Num 0]
      else if n = ''c'' then [''tree_id'' \<mapsto> Txt ''t'', ''parent'' \<mapsto> Txt (root_node_id ''t'')]
      else if n = ''d'' then [''tree_id'' \<mapsto> Txt ''t'', ''parent'' \<mapsto> Txt (root_node_id ''t'')]
      else Map.empty)"

definition memory_world :: "redis_data world" where
  "memory_world = \<lparr>w_store = empty_data\<lparr>rd_hashes := two_results\<rparr>, w_db = empty_db\<rparr>"

definition sample_memory :: "redis_data memory_env" where
  "sample_memory = \<lparr>me_redis = mem_redis, me_now = 0, me_eval_entry = id\<rparr>"

definition better_pack :: verification_pack where
  "better_pack = sample_pack\<lparr>vp_runtime := 0, vp_tests_passed := 3\<rparr>"

definition worse_pack :: verification_pack where
  "worse_pack = sample_pack\<lparr>vp_capsule_id := ''d'', vp_runtime := 0, vp_tests_passed := 1, vp_tests_failed := 2, vp_success := False\<rparr>"

definition pack_message :: "verification_pack \<Rightarrow> rtext option" where
  "pack_message p = Some (Doc (pack_to_json p))"

lemma message_pack_message: "vp_meta p = [] \<Longrightarrow> message_pack (pack_message p) = Inr p"
  by (simp add: pack_message_def message_pack_def pack_decode pack_canon_def sort_fields_def)

lemma two_results_paths:
  "parent_path two_results (root_node_id ''t'') [root_node_id ''t'']"
  "parent_path two_results ''c'' [''c'', root_node_id ''t'']"
  "parent_path two_results ''d'' [''d'', root_node_id ''t'']"
proof -
  show r: "parent_path two_results (root_node_id ''t'') [root_node_id ''t'']"
    by (rule path_stop) (simp_all add: two_results_def key_defs)
  show "parent_path two_results ''c'' [''c'', root_node_id ''t'']" "parent_path two_results ''d'' [''d'', root_node_id ''t'']"
    by (rule path_up [OF _ _ r]; simp add: two_results_def key_defs)+
qed

lemma two_results_nonempty: "two_results ''c'' \<noteq> Map.empty" "two_results ''d'' \<noteq> Map.empty"
  by (rule notI, drule fun_cong [where x = "''tree_id''"], simp add: two_results_def key_defs)+

lemma two_results_hash: "w_store w = w_store memory_world \<Longrightarrow> w_hash mem_redis w = two_results"
  by (simp add: w_hash_def [abs_def] memory_world_def mem_redis_def)

lemma two_rewards:
  "compute_reward better_pack (Some (two_results (root_node_id ''t''))) = Inr 499800"
  "compute_reward worse_pack (Some (two_results (root_node_id ''t''))) = Inr 498200"
  by (simp_all add: compute_reward_def better_pack_def worse_pack_def sample_pack_def two_results_def field_int_def Let_def)

lemma pack_facts:
  "vp_capsule_id better_pack = ''c''" "vp_meta better_pack = []" "vp_capsule_id worse_pack = ''d''" "vp_meta worse_pack = []"
  by (simp_all add: better_pack_def worse_pack_def sample_pack_def)

lemma sample_results:
  "result_of sample_memory memory_world (pack_message better_pack) (better_pack, [''c'', root_node_id ''t''], 499800, ''t'')"
  "result_of sample_memory memory_world (pack_message worse_pack) (worse_pack, [''d'', root_node_id ''t''], 498200, ''t'')"
proof -
  have env: "me_redis sample_memory = mem_redis" by (simp add: sample_memory_def)
  have parents: "field_str_or (two_results n) ''parent'' [] = Inr (root_node_id ''t'')"
    "field_str (two_results n) ''tree_id'' = Inr ''t''" if "n \<in> {''c'', ''d''}" for n
    using that by (auto simp: field_str_or_def field_str_def two_results_def key_defs)
  have ne: "root_node_id ''t'' \<noteq> []" by (simp add: key_defs)
  show "result_of sample_memory memory_world (pack_message better_pack) (better_pack, [''c'', root_node_id ''t''], 499800, ''t'')"
    "result_of sample_memory memory_world (pack_message worse_pack) (worse_pack, [''d'', root_node_id ''t''], 498200, ''t'')"
    by (simp_all add: result_of_def env two_results_hash message_pack_message pack_facts two_results_nonempty
        two_results_paths parents two_rewards ne)
qed

lemma message_runs:
  assumes "result_of env w p (pack, path, reward, task_id)"
    and "root_cmds (root_node_id task_id) (w_hash (me_redis env) w (root_node_id task_id))
          (w_hash (me_redis env) w (vp_capsule_id pack)) reward = Inr updates"
  shows "\<exists>cmds w'. memory_message env p w = Some (Done (cmds, w')) \<and> w_store w' = w_store w"
proof -
  have same: "w_hash (me_redis env) (w\<lparr>w_db := db\<rparr>) = w_hash (me_redis env) w" for db
    by (simp add: w_hash_def [abs_def])
  obtain parent_id where r: "message_pack p = Inr pack" "w_hash (me_redis env) w (vp_capsule_id pack) \<noteq> Map.empty"
    "field_str_or (w_hash (me_redis env) w (vp_capsule_id pack)) ''parent'' [] = Inr parent_id"
    "compute_reward pack (if parent_id = [] then None else Some (w_hash (me_redis env) w parent_id)) = Inr reward"
    "field_str (w_hash (me_redis env) w (vp_capsule_id pack)) ''tree_id'' = Inr task_id"
    and "parent_path (w_hash (me_redis env) w) (vp_capsule_id pack) path"
    using assms(1) unfolding result_of_def by auto
  then have path: "ancestors (w_hash (me_redis env) w) (vp_capsule_id pack) = Some path" by (simp add: ancestors_path)
  show ?thesis
    unfolding memory_message_def r(1) sum.case Let_def same if_not_P [OF r(2)] r(3) r(4) r(5) path option.case assms(2)
    by (auto simp: memory_decide_def)
qed

lemma sample_memory_batch:
  "\<exists>w. memory_batch sample_memory [(''1'', pack_message better_pack), (''2'', pack_message worse_pack)] memory_world = Some (Done w)"
proof -
  have env: "me_redis sample_memory = mem_redis" by (simp add: sample_memory_def)
  have updates: "\<exists>u. root_cmds (root_node_id ''t'') (two_results (root_node_id ''t'')) (two_results n) r = Inr u"
    if "n \<in> {''c'', ''d''}" for n r
    using that by (auto simp: root_cmds_def two_results_def to_float_def field_int_def key_defs)
  obtain c1 w1 where m1: "memory_message sample_memory (pack_message better_pack) memory_world = Some (Done (c1, w1))"
    and s1: "w_store w1 = w_store memory_world"
  proof -
    obtain u where "root_cmds (root_node_id ''t'') (two_results (root_node_id ''t'')) (two_results ''c'') 499800 = Inr u"
      using updates by blast
    with message_runs [OF sample_results(1)] show thesis
      using that by (auto simp: env two_results_hash pack_facts)
  qed
  have "result_of sample_memory w1 (pack_message worse_pack) (worse_pack, [''d'', root_node_id ''t''], 498200, ''t'')"
    using sample_results(2) by (simp add: result_of_store [OF s1])
  note r2 = this
  obtain u where "root_cmds (root_node_id ''t'') (two_results (root_node_id ''t'')) (two_results ''d'') 498200 = Inr u"
    using updates by blast
  then have "root_cmds (root_node_id ''t'') (w_hash (me_redis sample_memory) w1 (root_node_id ''t''))
      (w_hash (me_redis sample_memory) w1 (vp_capsule_id worse_pack)) 498200 = Inr u"
    by (simp add: env two_results_hash [OF s1] pack_facts)
  from message_runs [OF r2 this] obtain c2 w2 where
    "memory_message sample_memory (pack_message worse_pack) w1 = Some (Done (c2, w2))" by blast
  with m1 show ?thesis by (simp add: memory_batch_def Let_def)
qed

theorem batch_rewards_every_ancestor_witness:
  "\<exists>w. memory_batch sample_memory [(''1'', pack_message better_pack), (''2'', pack_message worse_pack)] memory_world = Some (Done w)
    \<and> counter (w_hash mem_redis w (root_node_id ''t'') ''visits'') = 2
    \<and> w_hash mem_redis w (root_node_id ''t'') ''best_reward'' = Some (Flt 498200)"
proof -
  obtain w where run: "memory_batch sample_memory [(''1'', pack_message better_pack), (''2'', pack_message worse_pack)] memory_world
      = Some (Done w)"
    using sample_memory_batch by blast
  have env: "me_redis sample_memory = mem_redis" by (simp add: sample_memory_def)
  have store: "shared_store (me_redis sample_memory)" by (simp only: env mem.shared_store_axioms)
  have root: "w_hash mem_redis memory_world (root_node_id ''t'') ''visits'' = Some (Num 0)"
    "w_hash mem_redis memory_world (root_node_id ''t'') ''best_reward'' = None"
    by (simp_all add: two_results_hash two_results_def)
  have best: "best_before sample_memory memory_world ''t'' = Inr 0"
    by (simp add: best_before_def env root to_float_def)
  have neq: "''c'' \<noteq> root_node_id ''t''" "''d'' \<noteq> root_node_id ''t''" by (simp_all add: key_defs)
  have "result_of sample_memory memory_world (pack_message better_pack) r \<longleftrightarrow> r = (better_pack, [''c'', root_node_id ''t''], 499800, ''t'')"
    "result_of sample_memory memory_world (pack_message worse_pack) r \<longleftrightarrow> r = (worse_pack, [''d'', root_node_id ''t''], 498200, ''t'')" for r
    using sample_results result_of_unique by blast+
  moreover have "\<not> unknown_candidate sample_memory memory_world (pack_message better_pack)"
    "\<not> unknown_candidate sample_memory memory_world (pack_message worse_pack)"
    by (simp_all add: unknown_candidate_def message_pack_message pack_facts env two_results_hash two_results_nonempty)
  ultimately have results: "results_of sample_memory memory_world [(''1'', pack_message better_pack), (''2'', pack_message worse_pack)] rs
      \<longleftrightarrow> rs = [(better_pack, [''c'', root_node_id ''t''], 499800, ''t''), (worse_pack, [''d'', root_node_id ''t''], 498200, ''t'')]" for rs
    by auto
  show ?thesis
    using batch_rewards_every_ancestor [OF store run, unfolded outcome.case results] run best
    by (auto simp: env root neq Let_def intro!: exI [of _ w])
qed

section \<open>The reward\<close>

text \<open>
  The reward orders results sensibly: against the same parent, a result that passes at least as
  many tests, fails at most as many and runs no longer has no smaller reward, and it is
  worth at least two hundred for each failure less.
\<close>

theorem reward_orders_results:
  assumes "compute_reward better parent = Inr r" and "compute_reward worse parent = Inr s"
    and "vp_tests_passed worse \<le> vp_tests_passed better" and "vp_tests_failed better \<le> vp_tests_failed worse"
    and "vp_runtime better \<le> vp_runtime worse"
  shows "s + 200 * of_int (vp_tests_failed worse - vp_tests_failed better) \<le> r"
proof -
  obtain failed where f: "(case parent of None \<Rightarrow> Inr 999
      | Some d \<Rightarrow> if d = Map.empty then Inr 999 else field_int d ''tests_failed'' 999) = (Inr failed :: py_error + int)"
    using assms(1) by (auto simp: compute_reward_def Let_def py_bind_Inr)
  define gain where "gain n = (if n < failed then 500 * (failed - n) else 0)" for n :: int
  have r: "r = of_int (100 * vp_tests_passed better) - of_int (200 * vp_tests_failed better) - 1 / 100 * vp_runtime better
      + of_int (gain (vp_tests_failed better))"
    and s: "s = of_int (100 * vp_tests_passed worse) - of_int (200 * vp_tests_failed worse) - 1 / 100 * vp_runtime worse
      + of_int (gain (vp_tests_failed worse))"
    using assms(1,2) f by (auto simp: compute_reward_def Let_def gain_def)
  have "gain (vp_tests_failed worse) \<le> gain (vp_tests_failed better)"
    using assms(4) by (simp add: gain_def)
  then have "real_of_int (gain (vp_tests_failed worse)) \<le> of_int (gain (vp_tests_failed better))" by simp
  moreover have "real_of_int (vp_tests_passed worse) \<le> of_int (vp_tests_passed better)" using assms(3) by simp
  ultimately show ?thesis unfolding r s using assms(5) by simp
qed

theorem reward_orders_results_witness:
  "(498200 :: real) + 200 * of_int (vp_tests_failed worse_pack - vp_tests_failed better_pack) \<le> 499800"
  by (rule reward_orders_results [OF two_rewards]) (simp_all add: better_pack_def worse_pack_def sample_pack_def)

section \<open>Success without attestation\<close>



section \<open>The daemon keeps running\<close>

lemma ancestors_returns:
  fixes depth :: "string \<Rightarrow> nat"
  assumes "\<And>n p. n \<noteq> [] \<Longrightarrow> hash n ''parent'' = Some (Txt p) \<Longrightarrow> p \<noteq> [] \<Longrightarrow> depth p < depth n"
  shows "ancestors hash n \<noteq> None"
  using parent_path_exists [of hash depth n] assms ancestors_path by force

lemma memory_message_returns:
  "(\<And>n. ancestors (w_hash (me_redis env) w) n \<noteq> None) \<Longrightarrow> memory_message env p w \<noteq> None"
proof -
  assume a: "\<And>n. ancestors (w_hash (me_redis env) w) n \<noteq> None"
  have same: "w_hash (me_redis env) (w\<lparr>w_db := db\<rparr>) = w_hash (me_redis env) w" for db
    by (simp add: w_hash_def [abs_def])
  have "\<exists>path. ancestors (w_hash (me_redis env) w) n = Some path" for n using a [of n] by blast
  then have "ancestors (w_hash (me_redis env) w) n = Some (the (ancestors (w_hash (me_redis env) w) n))" for n
    by (metis option.sel)
  then show "memory_message env p w \<noteq> None"
    unfolding memory_message_def Let_def same by (auto split: sum.splits option.splits) (metis option.distinct(1))+
qed

lemma memory_loop_returns:
  "(\<And>n. ancestors (w_hash (me_redis env) w) n \<noteq> None) \<Longrightarrow> memory_loop env messages (pipe, w) \<noteq> None"
proof (induction messages arbitrary: pipe w)
  case (Cons m messages)
  obtain i p where m: "m = (i, p)" by (cases m)
  obtain out where out: "memory_message env p w = Some out"
    using memory_message_returns [OF Cons.prems] by blast
  show ?case
  proof (cases out)
    case (Done st)
    obtain cmds v where st: "st = (cmds, v)" by (cases st)
    have "w_hash (me_redis env) v = w_hash (me_redis env) w"
      using memory_message_store [of env p w cmds v] out Done st by (simp add: w_hash_def [abs_def])
    then show ?thesis using Cons out Done st m by (simp add: Let_def)
  next
    case (Crash e st)
    then show ?thesis using out m by (cases st) (simp add: Let_def)
  qed
qed simp

text \<open>
  C36. The loop along the parent links ends, and with it every batch, when the links lead upwards,
  which is how expansion sets them: each parent lies at a smaller depth than its child.
\<close>

theorem memory_batch_returns:
  fixes depth :: "string \<Rightarrow> nat"
  assumes "\<forall>n. w_hash (me_redis env) w n ''parent'' = None \<or> (\<exists>p. w_hash (me_redis env) w n ''parent'' = Some (Txt p))"
    and "\<forall>n p. w_hash (me_redis env) w n ''parent'' = Some (Txt p) \<longrightarrow> n \<noteq> [] \<longrightarrow> p \<noteq> [] \<longrightarrow> depth p < depth n"
  shows "\<exists>outcome. memory_batch env messages w = Some outcome"
proof -
  have "ancestors (w_hash (me_redis env) w) n \<noteq> None" for n
    by (rule ancestors_returns [where depth = depth]) (use assms in auto)
  then have "memory_loop env messages ([], w) \<noteq> None" by (rule memory_loop_returns)
  then show ?thesis
    by (auto simp: memory_batch_def split: outcome.splits)
qed

theorem memory_batch_returns_witness:
  "\<exists>outcome. memory_batch sample_memory [(''1'', pack_message better_pack), (''2'', None)] memory_world = Some outcome"
proof (rule memory_batch_returns [where depth = "\<lambda>n. of_bool (n = ''c'' \<or> n = ''d'')"])
  have env: "me_redis sample_memory = mem_redis" by (simp add: sample_memory_def)
  show "\<forall>n. w_hash (me_redis sample_memory) memory_world n ''parent'' = None
      \<or> (\<exists>p. w_hash (me_redis sample_memory) memory_world n ''parent'' = Some (Txt p))"
    by (simp add: env two_results_hash) (simp add: two_results_def)
  show "\<forall>n p. w_hash (me_redis sample_memory) memory_world n ''parent'' = Some (Txt p) \<longrightarrow> n \<noteq> [] \<longrightarrow> p \<noteq> []
      \<longrightarrow> (of_bool (p = ''c'' \<or> p = ''d'') :: nat) < of_bool (n = ''c'' \<or> n = ''d'')"
    by (simp add: env two_results_hash) (auto simp: two_results_def key_defs split: if_splits)
qed

end
