(* ===== verification/Merger.thy ===== *)
theory Merger
  imports PolicyGate
begin

text \<open>
  The merger (\<open>merger.py\<close>): an accepted candidate is committed on a branch of its own in the
  task's repository. Git and the file system are the parameter \<open>api\<close>, a record of the calls the
  code makes on a state of any type; what the branch theorems rely on of them is the locale
  \<open>git_repo\<close>, interpreted on a repository held in memory.
\<close>

section \<open>Git and the file system\<close>

record git_result =
  gr_returncode :: int
  gr_stdout :: string
  gr_stderr :: string

text \<open>
  Paths are texts for the calls and lists of components when resolved; \<open>fs_write\<close> and
  \<open>fs_mkdir\<close> may raise.
\<close>

record 'g git_api =
  git_run :: "string list \<Rightarrow> string list \<Rightarrow> 'g \<Rightarrow> (py_error + git_result) \<times> 'g"
  fs_resolve :: "'g \<Rightarrow> string \<Rightarrow> string list"
  fs_exists :: "'g \<Rightarrow> string list \<Rightarrow> bool"
  fs_mkdir :: "string list \<Rightarrow> 'g \<Rightarrow> py_error option \<times> 'g"
  fs_write :: "string list \<Rightarrow> string \<Rightarrow> 'g \<Rightarrow> py_error option \<times> 'g"

definition path_text :: "string list \<Rightarrow> string" where
  "path_text p = (if p = [] then ''/'' else concat (map (\<lambda>c. CHR ''/'' # c) p))"

text \<open>\<open>repo / rel\<close>: an absolute right operand replaces the left one.\<close>

definition path_join :: "string list \<Rightarrow> string \<Rightarrow> string" where
  "path_join repo rel = (if rel \<noteq> [] \<and> hd rel = CHR ''/'' then rel else path_text repo @ CHR ''/'' # rel)"

section \<open>The operations\<close>

text \<open>\<open>_git_checked\<close>: the message of the exception holds the arguments and what git printed.\<close>

definition git_checked :: "'g git_api \<Rightarrow> string list \<Rightarrow> string list \<Rightarrow> 'g \<Rightarrow> 'g outcome" where
  "git_checked api repo args g =
     (case git_run api repo args g of
        (Inl e, g) \<Rightarrow> Crash e g
      | (Inr r, g) \<Rightarrow>
          if gr_returncode r \<noteq> 0
          then let stderr = or_list (or_list (py_strip (gr_stderr r)) (py_strip (gr_stdout r))) ''git command failed''
               in Crash (RuntimeError (''git '' @ concat (map (\<lambda>a. a @ '' '') (butlast args))
                    @ (if args = [] then '''' else last args) @ '': '' @ stderr)) g
          else Done g)"

text \<open>\<open>_git(...)\<close> where only the output or the return code is used.\<close>

definition git_query :: "'g git_api \<Rightarrow> string list \<Rightarrow> string list \<Rightarrow> 'g \<Rightarrow> (git_result \<Rightarrow> 'g \<Rightarrow> 'g outcome) \<Rightarrow> 'g outcome" where
  "git_query api repo args g f = (case git_run api repo args g of (Inl e, g) \<Rightarrow> Crash e g | (Inr r, g) \<Rightarrow> f r g)"

definition ensure_config :: "'g git_api \<Rightarrow> string list \<Rightarrow> string \<Rightarrow> string \<Rightarrow> 'g \<Rightarrow> 'g outcome" where
  "ensure_config api repo key dflt g =
     git_query api repo [''config'', key] g (\<lambda>r g.
       if py_strip (gr_stdout r) = [] then git_checked api repo [''config'', key, dflt] g else Done g)"

definition ensure_repo :: "'g git_api \<Rightarrow> string list \<Rightarrow> 'g \<Rightarrow> 'g outcome" where
  "ensure_repo api repo g =
     (case fs_mkdir api repo g of
        (Some e, g) \<Rightarrow> Crash e g
      | (None, g) \<Rightarrow>
          and_then (if \<not> fs_exists api g (repo @ [''.git'']) then git_checked api repo [''init'', ''-b'', ''main''] g else Done g)
          (\<lambda>g. and_then (ensure_config api repo ''user.email'' ''omega@example.local'' g)
          (\<lambda>g. and_then (ensure_config api repo ''user.name'' ''Kernel Omega'' g)
          (\<lambda>g. git_query api repo [''rev-parse'', ''--verify'', ''HEAD''] g (\<lambda>head g.
             if gr_returncode head \<noteq> 0
             then and_then (git_checked api repo [''add'', ''.''] g)
                    (git_checked api repo [''commit'', ''--allow-empty'', ''-m'', ''Initial repository state''])
             else Done g)))))"

definition current_branch :: "'g git_api \<Rightarrow> string list \<Rightarrow> 'g \<Rightarrow> (py_error + string) \<times> 'g" where
  "current_branch api repo g =
     (case git_run api repo [''rev-parse'', ''--abbrev-ref'', ''HEAD''] g of
        (Inl e, g) \<Rightarrow> (Inl e, g)
      | (Inr r, g) \<Rightarrow> (Inr (or_list (py_strip (gr_stdout r)) ''main''), g))"

text \<open>The target of the patch, and the test that it lies in the repository.\<close>

definition inside_repo :: "string list \<Rightarrow> string list \<Rightarrow> bool" where
  "inside_repo repo target \<longleftrightarrow> is_prefix repo target"

definition write_patch ::
    "'g git_api \<Rightarrow> string list \<Rightarrow> string \<Rightarrow> string \<Rightarrow> string \<Rightarrow> 'g \<Rightarrow> 'g outcome" where
  "write_patch api repo capsule_id code source_relpath g =
     (let target = fs_resolve api g (path_join repo source_relpath)
      in if \<not> inside_repo repo target then Crash ValueError g
         else case fs_mkdir api (butlast target) g of
           (Some e, g) \<Rightarrow> Crash e g
         | (None, g) \<Rightarrow>
             (case fs_write api target code g of
                (Some e, g) \<Rightarrow> Crash e g
              | (None, g) \<Rightarrow>
                  and_then (git_checked api repo [''add'', path_text target] g)
                    (git_checked api repo [''commit'', ''-m'', ''Kernel Omega repair for '' @ last_eight capsule_id])))"

definition repair_branch :: "string \<Rightarrow> string" where
  "repair_branch capsule_id = ''omega_repair_'' @ last_eight capsule_id"

definition apply_patch ::
    "'g git_api \<Rightarrow> string \<Rightarrow> string \<Rightarrow> string \<Rightarrow> string \<Rightarrow> 'g \<Rightarrow> 'g outcome" where
  "apply_patch api capsule_id code source_relpath repo_path g =
     (let repo = fs_resolve api g repo_path
      in and_then (ensure_repo api repo g) (\<lambda>g.
           case current_branch api repo g of
             (Inl e, g) \<Rightarrow> Crash e g
           | (Inr base_branch, g) \<Rightarrow>
               and_then (git_checked api repo [''checkout'', ''-B'', repair_branch capsule_id, base_branch] g) (\<lambda>g.
               and_then (write_patch api repo capsule_id code source_relpath g)
                 (git_checked api repo [''checkout'', base_branch]))))"

section \<open>Messages\<close>

record ('s, 'g) merger_env =
  mg_redis :: "'s redis"
  mg_git :: "'g git_api"
  mg_error_text :: "py_error \<Rightarrow> string"
  mg_duration_ms :: real

definition payload_str :: "json \<Rightarrow> string \<Rightarrow> py_error + string" where
  "payload_str payload f =
     (case js_obj payload of
        None \<Rightarrow> Inl TypeError
      | Some d \<Rightarrow>
          (case map_of d f of
             None \<Rightarrow> Inl KeyError
           | Some v \<Rightarrow> (case js_str v of None \<Rightarrow> Inl TypeError | Some s \<Rightarrow> Inr s)))"

text \<open>The candidate's right to the tree: it holds the key, or takes it when nobody does.\<close>

definition claim_tree :: "'s redis \<Rightarrow> string \<Rightarrow> string \<Rightarrow> 's world \<Rightarrow> bool \<times> 's world" where
  "claim_tree R tree_id capsule_id w =
     (let accepted_key = tree_accepted_key tree_id; winning_capsule = w_string R w accepted_key
      in if or_text winning_capsule (Txt []) \<noteq> Txt [] then (winning_capsule = Some (Txt capsule_id), w)
         else let (won, s) = r_setnx R accepted_key (Txt capsule_id) (w_store w);
                  w = w\<lparr>w_store := s\<rparr>
              in (won \<or> w_string R w accepted_key = Some (Txt capsule_id), w))"

definition merge_payload ::
    "('s, 'g) merger_env \<Rightarrow> json \<Rightarrow> string \<Rightarrow> 'g \<Rightarrow> 'g outcome" where
  "merge_payload env payload capsule_id g =
     (case payload_str payload ''code'' of
        Inl e \<Rightarrow> Crash e g
      | Inr code \<Rightarrow>
          (case payload_str payload ''source_relpath'' of
             Inl e \<Rightarrow> Crash e g
           | Inr source_relpath \<Rightarrow>
               (case payload_str payload ''repo_path'' of
                  Inl e \<Rightarrow> Crash e g
                | Inr repo_path \<Rightarrow> apply_patch (mg_git env) capsule_id code source_relpath repo_path g)))"

definition record_merge :: "('s, 'g) merger_env \<Rightarrow> string \<Rightarrow> string \<Rightarrow> 's world \<Rightarrow> 's world" where
  "record_merge env tree_id capsule_id w =
     w\<lparr>w_db := merge_candidate_metadata capsule_id
        [''merge'' \<mapsto> JObj [(''duration_ms'', JFloat (mg_duration_ms env))]]
        (snd (update_task_status tree_id ''merged''
          (snd (update_candidate_status capsule_id ''merged'' None (w_db w)))))\<rparr>"

definition record_merge_failure ::
    "('s, 'g) merger_env \<Rightarrow> string \<Rightarrow> string \<Rightarrow> py_error \<Rightarrow> 's world \<Rightarrow> 's world" where
  "record_merge_failure env tree_id capsule_id e w =
     (let w = w_exec (mg_redis env) [CDelete (tree_accepted_key tree_id)] w
      in w\<lparr>w_db := merge_candidate_metadata capsule_id
           [''merge'' \<mapsto> JObj [(''duration_ms'', JFloat (mg_duration_ms env)), (''error'', JStr (mg_error_text env e))]]
           (snd (update_candidate_status capsule_id ''merge_failed'' None (w_db w)))\<rparr>)"

definition merger_message ::
    "('s, 'g) merger_env \<Rightarrow> rtext option \<Rightarrow> 's world \<times> 'g \<Rightarrow> ('s world \<times> 'g) outcome" where
  "merger_message env message st =
     (case st of (w, g) \<Rightarrow>
        (case (case message of None \<Rightarrow> None | Some v \<Rightarrow> text_json v) of
           None \<Rightarrow> Crash (if message = None then KeyError else ValueError) (w, g)
         | Some payload \<Rightarrow>
             try_value (payload_str payload ''tree_id'') (w, g) (\<lambda>tree_id.
             try_value (payload_str payload ''capsule_id'') (w, g) (\<lambda>capsule_id.
               case claim_tree (mg_redis env) tree_id capsule_id w of
                 (False, w) \<Rightarrow> Done (w, g)
               | (True, w) \<Rightarrow>
                   (case merge_payload env payload capsule_id g of
                      Done g \<Rightarrow> Done (record_merge env tree_id capsule_id w, g)
                    | Crash e g \<Rightarrow> Done (record_merge_failure env tree_id capsule_id e w, g))))))"

fun merger_loop ::
    "('s, 'g) merger_env \<Rightarrow> (string \<times> rtext option) list \<Rightarrow> store_cmd list \<times> 's world \<times> 'g
       \<Rightarrow> (store_cmd list \<times> 's world \<times> 'g) outcome" where
  "merger_loop env [] st = Done st"
| "merger_loop env ((message_id, message) # messages) (pipe, st) =
     (let pipe = pipe @ [CXAck STREAM_ACCEPTED ''merger_group'' message_id]
      in case merger_message env message st of
           Crash e st \<Rightarrow> Crash e (pipe, st)
         | Done st \<Rightarrow> merger_loop env messages (pipe, st))"

definition merger_batch ::
    "('s, 'g) merger_env \<Rightarrow> (string \<times> rtext option) list \<Rightarrow> 's world \<times> 'g \<Rightarrow> ('s world \<times> 'g) outcome" where
  "merger_batch env messages st =
     (case merger_loop env messages ([], st) of
        Crash e (pipe, st) \<Rightarrow> Crash e st
      | Done (pipe, w, g) \<Rightarrow> Done (w_exec (mg_redis env) pipe w, g))"

end
