(* ===== verification/MergerProps.thy ===== *)
theory MergerProps
  imports Merger
begin

text \<open>
  What the merger relies on of git and the file system (the locale \<open>git_repo\<close>), and the properties
  of a patch in any repository that keeps these laws: what it changes and where it leaves the
  repository.
\<close>

section \<open>A repository, abstractly\<close>

text \<open>
  The branch that is checked out (\<open>HEAD\<close> when none is), the files of the last commit of each
  branch, and the files staged for the next one.
\<close>

record repo_view =
  rv_cur :: string
  rv_tip :: "string \<Rightarrow> string list \<rightharpoonup> string"
  rv_staged :: "string list \<rightharpoonup> string"

definition rv_clean :: "repo_view \<Rightarrow> bool" where
  "rv_clean v \<longleftrightarrow> rv_staged v = rv_tip v (rv_cur v)"

definition branch_name :: "string \<Rightarrow> bool" where
  "branch_name b \<longleftrightarrow> b \<noteq> [] \<and> py_strip (b @ [CHR 0x0A]) = b"

definition succeeded :: "py_error + git_result \<Rightarrow> bool" where
  "succeeded r = (case r of Inl e \<Rightarrow> False | Inr x \<Rightarrow> gr_returncode x = 0)"

lemma succeeded_simps [simp]: "succeeded (Inl e) \<longleftrightarrow> False" "succeeded (Inr x) \<longleftrightarrow> gr_returncode x = 0"
  by (simp_all add: succeeded_def)

text \<open>
  What a command that succeeds does to the repository, \<open>content\<close> being the files. Only commands of the
  merger appear; the other ones it runs (\<open>config\<close>, \<open>rev-parse\<close>) change none of this.
\<close>

definition proper_path :: "string list \<Rightarrow> bool" where
  "proper_path p \<longleftrightarrow> (\<forall>c \<in> set p. c \<noteq> [] \<and> CHR ''/'' \<notin> set c)"

definition add_effect :: "string \<Rightarrow> (string list \<rightharpoonup> string) \<Rightarrow> repo_view \<Rightarrow> string list \<rightharpoonup> string" where
  "add_effect path content v = (\<lambda>q. if proper_path q \<and> path_text q = path then content q else rv_staged v q)"

definition git_effect :: "string list \<Rightarrow> (string list \<rightharpoonup> string) \<Rightarrow> repo_view \<Rightarrow> repo_view" where
  "git_effect args content v =
     (case args of
        [a, b, br, base] \<Rightarrow>
          if a = ''checkout'' \<and> b = ''-B''
          then v\<lparr>rv_cur := br, rv_tip := (rv_tip v)(br := rv_tip v base), rv_staged := rv_tip v base\<rparr> else v
      | [a, br] \<Rightarrow>
          if a = ''checkout'' then (if br = ''HEAD'' then v else v\<lparr>rv_cur := br, rv_staged := rv_tip v br\<rparr>)
          else if a = ''add'' then v\<lparr>rv_staged := add_effect br content v\<rparr> else v
      | [a, b, msg] \<Rightarrow>
          if a = ''commit'' \<and> b = ''-m'' then v\<lparr>rv_tip := (rv_tip v)(rv_cur v := rv_staged v)\<rparr> else v
      | _ \<Rightarrow> v)"

definition in_git_dir :: "string list \<Rightarrow> string list \<Rightarrow> bool" where
  "in_git_dir repo p \<longleftrightarrow> is_prefix (repo @ [''.git'']) p"

lemma git_effect_other:
  "hd args \<noteq> ''checkout'' \<Longrightarrow> hd args \<noteq> ''add'' \<Longrightarrow> hd args \<noteq> ''commit'' \<Longrightarrow> git_effect args content v = v"
  by (cases args) (simp_all add: git_effect_def split: list.split)

text \<open>
  The commands that reach a repository that has a commit. (\<open>add .\<close> is for one that has none.)
\<close>

definition merger_args :: "string list \<Rightarrow> string list set" where
  "merger_args repo = {args. hd args \<in> {''config'', ''rev-parse'', ''checkout''} \<or> (\<exists>m. args = [''commit'', ''-m'', m])
     \<or> (\<exists>p. args = [''add'', path_text p] \<and> proper_path p \<and> \<not> in_git_dir repo p)}"

text \<open>
  \<open>view g repo\<close> is defined for a repository that has a commit; checkouts are described for a clean
  index only, since git carries staged changes along or refuses.
\<close>

locale git_repo =
  fixes api :: "'g git_api"
    and view :: "'g \<Rightarrow> string list \<Rightarrow> repo_view option"
    and content :: "'g \<Rightarrow> string list \<rightharpoonup> string"
  assumes run_view: "view g repo = Some v \<Longrightarrow> git_run api repo args g = (r, g') \<Longrightarrow> args \<in> merger_args repo
      \<Longrightarrow> (hd args = ''checkout'' \<longrightarrow> rv_clean v)
      \<Longrightarrow> view g' repo = Some (if succeeded r then git_effect args (content g) v else v)"
    and run_content: "git_run api repo args g = (r, g') \<Longrightarrow> \<not> inside_repo repo p \<Longrightarrow> content g' p = content g p"
    and run_head: "view g repo = Some v \<Longrightarrow> git_run api repo [''rev-parse'', ''--abbrev-ref'', ''HEAD''] g = (Inr x, g')
      \<Longrightarrow> gr_stdout x = rv_cur v @ [CHR 0x0A]"
    and run_verify: "view g repo = Some v \<Longrightarrow> git_run api repo [''rev-parse'', ''--verify'', ''HEAD''] g = (Inr x, g')
      \<Longrightarrow> gr_returncode x = 0"
    and run_commit: "view g repo = Some v \<Longrightarrow> rv_clean v \<Longrightarrow> git_run api repo [''commit'', ''-m'', m] g = (r, g') \<Longrightarrow> \<not> succeeded r"
    and view_name: "view g repo = Some v \<Longrightarrow> branch_name (rv_cur v)"
    and view_exists: "view g repo = Some v \<Longrightarrow> fs_exists api g (repo @ [''.git''])"
    and mkdir_frame: "fs_mkdir api d g = (e, g') \<Longrightarrow> view g' = view g \<and> content g' = content g"
    and write_view: "fs_write api t code g = (e, g') \<Longrightarrow> \<not> in_git_dir repo t \<Longrightarrow> view g' repo = view g repo"
    and write_frame: "fs_write api t code g = (e, g') \<Longrightarrow> p \<noteq> t \<Longrightarrow> content g' p = content g p"
    and write_done: "fs_write api t code g = (None, g') \<Longrightarrow> content g' t = Some code"

section \<open>Steps\<close>

lemma and_then_world:
  "Q (outcome_world out) \<Longrightarrow> (\<And>g. out = Done g \<Longrightarrow> Q g \<Longrightarrow> Q (outcome_world (f g))) \<Longrightarrow> Q (outcome_world (and_then out f))"
  by (cases out) simp_all

lemma checked_world:
  "(\<And>r g'. git_run api repo args g = (r, g') \<Longrightarrow> Q g') \<Longrightarrow> Q (outcome_world (git_checked api repo args g))"
  by (cases "git_run api repo args g") (auto simp: git_checked_def Let_def split: sum.splits)

lemma checked_Done: "git_checked api repo args g = Done g' \<Longrightarrow> \<exists>r. git_run api repo args g = (r, g') \<and> succeeded r"
  by (auto simp: git_checked_def Let_def split: prod.splits sum.splits if_splits)

lemma checked_Crash: "git_checked api repo args g = Crash e g' \<Longrightarrow> \<exists>r. git_run api repo args g = (r, g') \<and> \<not> succeeded r"
  by (auto simp: git_checked_def Let_def split: prod.splits sum.splits if_splits)

lemma and_then_Done: "and_then out f = Done w \<longleftrightarrow> (\<exists>w'. out = Done w' \<and> f w' = Done w)"
  by (cases out) simp_all

lemma and_then_Crash: "and_then out f = Crash e w \<longleftrightarrow> out = Crash e w \<or> (\<exists>w'. out = Done w' \<and> f w' = Crash e w)"
  by (cases out) simp_all

text \<open>An assertion that holds throughout \<open>ensure_config\<close> and \<open>ensure_repo\<close>.\<close>

lemma config_world:
  assumes "Q g" and run: "\<And>args h r h'. hd args = ''config'' \<Longrightarrow> git_run api repo args h = (r, h') \<Longrightarrow> Q h \<Longrightarrow> Q h'"
  shows "Q (outcome_world (ensure_config api repo k d g))"
proof -
  obtain r h where r: "git_run api repo [''config'', k] g = (r, h)" by fastforce
  have h: "Q h" using run [OF _ r \<open>Q g\<close>] by simp
  have "Q (outcome_world (git_checked api repo [''config'', k, d] h))"
    by (rule checked_world) (rule run [OF _ _ h], auto)
  with h r show ?thesis by (cases r) (auto simp: ensure_config_def git_query_def)
qed

text \<open>An assertion that every git command and directory creation keeps.\<close>

lemma ensure_repo_world:
  assumes "\<And>h e h'. fs_mkdir api repo h = (e, h') \<Longrightarrow> Q h \<Longrightarrow> Q h'"
    and run: "\<And>args h r h'. git_run api repo args h = (r, h') \<Longrightarrow> Q h \<Longrightarrow> Q h'"
    and "Q g"
  shows "Q (outcome_world (ensure_repo api repo g))"
proof -
  have checked: "Q (outcome_world (git_checked api repo args h))" if "Q h" for args h
    using that by (blast intro: checked_world run)
  have config: "Q (outcome_world (ensure_config api repo k d h))" if "Q h" for k d h
    using that by (blast intro: config_world run)
  have last: "Q (outcome_world (git_query api repo [''rev-parse'', ''--verify'', ''HEAD''] h (\<lambda>head g.
             if gr_returncode head \<noteq> 0
             then and_then (git_checked api repo [''add'', ''.''] g)
                    (git_checked api repo [''commit'', ''--allow-empty'', ''-m'', ''Initial repository state''])
             else Done g)))" (is "Q (outcome_world (?last h))") if "Q h" for h
  proof -
    obtain r h' where r: "git_run api repo [''rev-parse'', ''--verify'', ''HEAD''] h = (r, h')" by fastforce
    have h': "Q h'" by (rule run [OF r that])
    have "Q (outcome_world (and_then (git_checked api repo [''add'', ''.''] h')
        (git_checked api repo [''commit'', ''--allow-empty'', ''-m'', ''Initial repository state''])))"
      by (rule and_then_world [where Q = Q]) (blast intro: checked h')+
    with r h' show ?thesis by (cases r) (simp_all add: git_query_def)
  qed
  obtain e g1 where m: "fs_mkdir api repo g = (e, g1)" by fastforce
  have g1: "Q g1" using assms(1) [OF m] assms(3) .
  have "Q (outcome_world (if \<not> fs_exists api g1 (repo @ [''.git'']) then git_checked api repo [''init'', ''-b'', ''main''] g1 else Done g1))"
    using g1 checked [OF g1] by simp
  then have "Q (outcome_world
      (and_then (if \<not> fs_exists api g1 (repo @ [''.git'']) then git_checked api repo [''init'', ''-b'', ''main''] g1 else Done g1)
          (\<lambda>g. and_then (ensure_config api repo ''user.email'' ''omega@example.local'' g)
          (\<lambda>g. and_then (ensure_config api repo ''user.name'' ''Kernel Omega'' g) ?last))))"
    by (rule and_then_world [where Q = Q]) (rule and_then_world [where Q = Q], erule config, rule and_then_world [where Q = Q], erule config, erule last)
  with m g1 show ?thesis by (cases e) (simp_all add: ensure_repo_def)
qed

section \<open>What a patch changes\<close>

context git_repo
begin

lemma checked_content:
  "\<not> inside_repo repo p \<Longrightarrow> content h p = t \<Longrightarrow> content (outcome_world (git_checked api repo args h)) p = t"
  by (rule checked_world) (simp add: run_content)

lemma ensure_repo_content:
  "\<not> inside_repo repo p \<Longrightarrow> content (outcome_world (ensure_repo api repo g)) p = content g p"
  by (rule ensure_repo_world) (simp_all add: run_content mkdir_frame)

lemma current_branch_content:
  "\<not> inside_repo repo p \<Longrightarrow> current_branch api repo g = (b, g') \<Longrightarrow> content g' p = content g p"
  by (auto simp: current_branch_def split: prod.splits sum.splits dest: run_content)

lemma write_patch_content:
  assumes "\<not> inside_repo repo p"
  shows "content (outcome_world (write_patch api repo cid code rel g)) p = content g p"
proof -
  let ?t = "fs_resolve api g (path_join repo rel)"
  obtain e1 g1 where m: "fs_mkdir api (butlast ?t) g = (e1, g1)" by fastforce
  obtain e2 g2 where wr: "fs_write api ?t code g1 = (e2, g2)" by fastforce
  have c1: "content g1 p = content g p" using mkdir_frame [OF m] by simp
  have c2: "content g2 p = content g p" if "inside_repo repo ?t"
    using write_frame [OF wr, of p] that assms c1 by auto
  have "content (outcome_world (and_then (git_checked api repo [''add'', path_text ?t] g2)
      (git_checked api repo [''commit'', ''-m'', ''Kernel Omega repair for '' @ last_eight cid]))) p = content g p"
    if "inside_repo repo ?t"
    by (rule and_then_world [where Q = "\<lambda>h. content h p = content g p"])
      (rule checked_content [OF assms c2 [OF that]], rule checked_content [OF assms])
  with c1 c2 show ?thesis
    unfolding write_patch_def Let_def m prod.case wr by (auto split: option.split)
qed

lemma apply_patch_content:
  assumes p: "\<not> inside_repo (fs_resolve api g repo_path) p"
  shows "content (outcome_world (apply_patch api cid code rel repo_path g)) p = content g p"
proof -
  let ?repo = "fs_resolve api g repo_path" and ?Q = "\<lambda>h. content h p = content g p"
  show ?thesis
    unfolding apply_patch_def Let_def
  proof (rule and_then_world [where Q = ?Q])
    show "?Q (outcome_world (ensure_repo api ?repo g))" by (rule ensure_repo_content [OF p])
    fix h assume h: "?Q h"
    obtain b h' where b: "current_branch api ?repo h = (b, h')" by fastforce
    have h': "?Q h'" using current_branch_content [OF p b] h by simp
    have "?Q (outcome_world (and_then (git_checked api ?repo [''checkout'', ''-B'', repair_branch cid, base] h') (\<lambda>g.
               and_then (write_patch api ?repo cid code rel g) (git_checked api ?repo [''checkout'', base]))))" for base
    proof (rule and_then_world [where Q = ?Q])
      show "?Q (outcome_world (git_checked api ?repo [''checkout'', ''-B'', repair_branch cid, base] h'))"
        by (rule checked_content [OF p h'])
      fix k assume k: "?Q k"
      show "?Q (outcome_world (and_then (write_patch api ?repo cid code rel k) (git_checked api ?repo [''checkout'', base])))"
        by (rule and_then_world [where Q = ?Q])
          (use write_patch_content [OF p, of cid code rel k] k in simp, rule checked_content [OF p])
    qed
    with h' show "?Q (outcome_world (case current_branch api ?repo h of
             (Inl e, g) \<Rightarrow> Crash e g
           | (Inr base_branch, g) \<Rightarrow>
               and_then (git_checked api ?repo [''checkout'', ''-B'', repair_branch cid, base_branch] g) (\<lambda>g.
               and_then (write_patch api ?repo cid code rel g)
                 (git_checked api ?repo [''checkout'', base_branch]))))"
      unfolding b prod.case by (cases b) simp_all
  qed
qed

text \<open>How the steps move the repository.\<close>

lemma checked_view:
  assumes "view g repo = Some v" and "git_checked api repo args g = out" and "args \<in> merger_args repo"
    and "hd args = ''checkout'' \<longrightarrow> rv_clean v"
  shows "view (outcome_world out) repo = Some (case out of Done g' \<Rightarrow> git_effect args (content g) v | Crash e g' \<Rightarrow> v)"
proof -
  obtain r g' where r: "git_run api repo args g = (r, g')" by fastforce
  show ?thesis
    using run_view [OF assms(1) r assms(3,4)] r assms(2)
    by (cases r) (auto simp: git_checked_def Let_def split: if_splits)
qed

lemma config_view: "view g repo = Some v \<Longrightarrow> view (outcome_world (ensure_config api repo k d g)) repo = Some v"
proof (rule config_world)
  fix args h r h' assume c: "hd args = ''config''" and r: "git_run api repo args h = (r, h')" and v: "view h repo = Some v"
  have "git_effect args (content h) v = v" by (rule git_effect_other) (simp_all add: c)
  moreover have "args \<in> merger_args repo" by (simp add: merger_args_def c)
  ultimately show "view h' repo = Some v" using run_view [OF v r] c by simp
qed

lemma ensure_repo_view:
  assumes "view g repo = Some v"
  shows "view (outcome_world (ensure_repo api repo g)) repo = Some v"
proof -
  let ?Q = "\<lambda>h. view h repo = Some v"
  obtain e g1 where m: "fs_mkdir api repo g = (e, g1)" by fastforce
  have g1: "?Q g1" using mkdir_frame [OF m] assms by simp
  have last: "?Q (outcome_world (git_query api repo [''rev-parse'', ''--verify'', ''HEAD''] h (\<lambda>head g.
             if gr_returncode head \<noteq> 0 then f g else Done g)))" (is "?Q (outcome_world (?last h))") if h: "?Q h" for h f
  proof -
    obtain r h' where r: "git_run api repo [''rev-parse'', ''--verify'', ''HEAD''] h = (r, h')" by fastforce
    have "?Q h'"
      using run_view [OF h r] by (simp add: merger_args_def git_effect_other)
    moreover have "r = Inr x \<Longrightarrow> gr_returncode x = 0" for x using run_verify [OF h] r by simp
    ultimately show ?thesis using r by (cases r) (auto simp: git_query_def)
  qed
  have "?Q (outcome_world (and_then (ensure_config api repo ''user.email'' ''omega@example.local'' g1)
          (\<lambda>g. and_then (ensure_config api repo ''user.name'' ''Kernel Omega'' g) (\<lambda>g. git_query api repo [''rev-parse'', ''--verify'', ''HEAD''] g (\<lambda>head g.
             if gr_returncode head \<noteq> 0 then f g else Done g)))))" for f
    by (rule and_then_world [where Q = ?Q], rule config_view [OF g1])
      (rule and_then_world [where Q = ?Q], erule config_view, erule last)
  then show ?thesis using m g1 view_exists [OF g1] by (cases e) (simp_all add: ensure_repo_def)
qed

lemma current_branch_view:
  assumes v: "view g repo = Some v" and "current_branch api repo g = (b, g')"
  shows "view g' repo = Some v" and "b = Inr base \<Longrightarrow> base = rv_cur v"
proof -
  obtain r h where r: "git_run api repo [''rev-parse'', ''--abbrev-ref'', ''HEAD''] g = (r, h)" by fastforce
  have h: "view h repo = Some v"
    using run_view [OF v r] by (simp add: merger_args_def git_effect_other)
  have "r = Inr x \<Longrightarrow> or_list (py_strip (gr_stdout x)) ''main'' = rv_cur v" for x
    using run_head [OF v] r view_name [OF v] by (simp add: branch_name_def or_list_def)
  with h r assms(2) show "view g' repo = Some v" and "b = Inr base \<Longrightarrow> base = rv_cur v"
    by (cases r; auto simp: current_branch_def)+
qed

end

text \<open>The repository after the patch is committed on the checked-out branch.\<close>

definition committed :: "string list \<Rightarrow> string \<Rightarrow> repo_view \<Rightarrow> repo_view" where
  "committed target code v =
     (let tree = (rv_staged v)(target \<mapsto> code) in v\<lparr>rv_tip := (rv_tip v)(rv_cur v := tree), rv_staged := tree\<rparr>)"

text \<open>Where an exception leaves the repository: what is committed so far, and perhaps staged.\<close>

definition same_commits :: "repo_view \<Rightarrow> repo_view \<Rightarrow> bool" where
  "same_commits v v' \<longleftrightarrow> rv_cur v' = rv_cur v \<and> rv_tip v' = rv_tip v"

definition safe_target :: "string list \<Rightarrow> string list \<Rightarrow> bool" where
  "safe_target repo target \<longleftrightarrow> proper_path target \<and> \<not> in_git_dir repo target"

lemma path_text_eq: "proper_path p \<Longrightarrow> proper_path q \<Longrightarrow> path_text p = path_text q \<longleftrightarrow> p = q"
proof (induction p arbitrary: q)
  case Nil
  then show ?case by (cases q) (auto simp: path_text_def proper_path_def Cons_eq_append_conv)
next
  case (Cons c p)
  have step: "c = d \<and> concat (map (\<lambda>c. CHR ''/'' # c) p) = concat (map (\<lambda>c. CHR ''/'' # c) q')"
    if "c @ concat (map (\<lambda>c. CHR ''/'' # c) p) = d @ concat (map (\<lambda>c. CHR ''/'' # c) q')" and "CHR ''/'' \<notin> set c" and "CHR ''/'' \<notin> set d" for d q'
  proof -
    have *: "takeWhile (\<lambda>x. x \<noteq> CHR ''/'') (c @ concat (map (\<lambda>c. CHR ''/'' # c) p)) = c" if "CHR ''/'' \<notin> set c" for c p
    proof -
      have "\<forall>x \<in> set c. x \<noteq> CHR ''/''" using that by metis
      then show ?thesis by (cases p) (simp_all add: takeWhile_append2)
    qed
    have "c = d" using * [OF that(2), of p] * [OF that(3), of q'] that(1) by simp
    with that(1) show ?thesis by simp
  qed
  show ?case
  proof (cases q)
    case Nil
    with Cons.prems show ?thesis by (auto simp: path_text_def proper_path_def)
  next
    case q: (Cons d q')
    have IH: "p = q'" if "concat (map (\<lambda>c. CHR ''/'' # c) p) = concat (map (\<lambda>c. CHR ''/'' # c) q')"
      using Cons.IH [of q'] Cons.prems(1,2) that q by (cases "p = []"; cases "q' = []") (auto simp: path_text_def proper_path_def)
    have "c = d \<and> p = q'" if "path_text (c # p) = path_text q"
      using step [of d q'] that Cons.prems(1,2) q IH by (auto simp: path_text_def proper_path_def)
    with q show ?thesis by blast
  qed
qed

lemma add_effect_target:
  "proper_path t \<Longrightarrow> content t = Some code \<Longrightarrow> add_effect (path_text t) content v = (rv_staged v)(t \<mapsto> code)"
  by (auto simp: add_effect_def fun_eq_iff path_text_eq)

text \<open>The repair branch, created at the base and checked out.\<close>

lemma on_branch_effect:
  "git_effect [''checkout'', ''-B'', branch, base] content v
     = v\<lparr>rv_cur := branch, rv_tip := (rv_tip v)(branch := rv_tip v base), rv_staged := rv_tip v base\<rparr>"
  by (simp add: git_effect_def)

context git_repo
begin

lemma write_patch_view:
  assumes v: "view g repo = Some v" and target: "fs_resolve api g (path_join repo rel) = t" and safe: "safe_target repo t"
    and run: "write_patch api repo cid code rel g = out"
  shows "case out of
      Done g' \<Rightarrow> inside_repo repo t \<and> (rv_staged v)(t \<mapsto> code) \<noteq> rv_tip v (rv_cur v) \<and> view g' repo = Some (committed t code v)
    | Crash e g' \<Rightarrow> \<exists>v'. view g' repo = Some v' \<and> same_commits v v'"
proof (cases "inside_repo repo t")
  case False
  with run v target show ?thesis by (auto simp: write_patch_def same_commits_def)
next
  case inside: True
  obtain e1 g1 where m: "fs_mkdir api (butlast t) g = (e1, g1)" by fastforce
  obtain e2 g2 where wr: "fs_write api t code g1 = (e2, g2)" by fastforce
  have v1: "view g1 repo = Some v" using mkdir_frame [OF m] v by simp
  have v2: "view g2 repo = Some v" using write_view [OF wr, of repo] safe v1 by (simp add: safe_target_def)
  let ?add = "git_checked api repo [''add'', path_text t] g2" and ?msg = "''Kernel Omega repair for '' @ last_eight cid"
  show ?thesis
  proof (cases "e1 = None \<and> e2 = None")
    case False
    with run target inside m wr v1 v2 show ?thesis
      by (cases e1) (auto simp: write_patch_def same_commits_def Let_def)
  next
    case True
    with wr have code: "content g2 t = Some code" using write_done by simp
    have out: "out = and_then ?add (git_checked api repo [''commit'', ''-m'', ?msg])"
      using run target inside m wr True by (auto simp: write_patch_def Let_def)
    have args: "[''add'', path_text t] \<in> merger_args repo" "[''commit'', ''-m'', ?msg] \<in> merger_args repo"
      using safe by (auto simp: merger_args_def safe_target_def)
    let ?w = "v\<lparr>rv_staged := (rv_staged v)(t \<mapsto> code)\<rparr>"
    have effect: "git_effect [''add'', path_text t] (content g2) v = ?w"
      using add_effect_target [of t "content g2" code v] code safe by (simp add: git_effect_def safe_target_def)
    show ?thesis
    proof (cases ?add)
      case (Crash e g')
      with checked_view [OF v2 refl args(1)] out show ?thesis by (auto simp: same_commits_def)
    next
      case add: (Done g3)
      have v3: "view g3 repo = Some ?w" using checked_view [OF v2 refl args(1)] add effect by simp
      have out: "out = git_checked api repo [''commit'', ''-m'', ?msg] g3" using out add by simp
      note v4 = checked_view [OF v3 refl args(2), folded out]
      show ?thesis
      proof (cases out)
        case (Crash e g')
        with v4 show ?thesis by (auto simp: same_commits_def)
      next
        case (Done g')
        then have "\<not> rv_clean ?w" using checked_Done [of api repo _ g3 g'] out run_commit [OF v3] by metis
        with Done v4 inside show ?thesis
          by (simp add: git_effect_def committed_def rv_clean_def Let_def)
      qed
    qed
  qed
qed

lemma apply_patch_view:
  fixes g0 :: 'g and repo_path :: string
  defines "repo \<equiv> fs_resolve api g0 repo_path"
  assumes v: "view g0 repo = Some v" and clean: "rv_clean v"
    and target: "\<And>g. fs_resolve api g (path_join repo rel) = t" and safe: "safe_target repo t"
    and run: "apply_patch api cid code rel repo_path g0 = out"
  defines "on_branch \<equiv> git_effect [''checkout'', ''-B'', repair_branch cid, rv_cur v] (content g0) v"
  shows "case out of
      Done g' \<Rightarrow> inside_repo repo t \<and> rv_tip v (rv_cur v) t \<noteq> Some code
        \<and> view g' repo = Some (git_effect [''checkout'', rv_cur v] (content g0) (committed t code on_branch))
    | Crash e g' \<Rightarrow> view g' repo = Some v
        \<or> (\<exists>v'. view g' repo = Some v' \<and> (same_commits on_branch v' \<or> v' = committed t code on_branch))"
proof -
  let ?base = "rv_cur v" and ?branch = "repair_branch cid"
  have args: "[''checkout'', ''-B'', ?branch, ?base] \<in> merger_args repo" "[''checkout'', ?base] \<in> merger_args repo"
    by (simp_all add: merger_args_def)
  have on_branch: "on_branch = v\<lparr>rv_cur := ?branch, rv_tip := (rv_tip v)(?branch := rv_tip v ?base), rv_staged := rv_tip v ?base\<rparr>"
    by (simp add: on_branch_def on_branch_effect)
  have tree: "(rv_tip v ?base)(t \<mapsto> code) = rv_tip v ?base \<longleftrightarrow> rv_tip v ?base t = Some code"
    by (metis fun_upd_idem_iff)
  show ?thesis
  proof (cases "ensure_repo api repo g0")
    case (Crash e g)
    with run ensure_repo_view [OF v] show ?thesis by (auto simp: apply_patch_def repo_def)
  next
    case ensured: (Done g1)
    have v1: "view g1 repo = Some v" using ensure_repo_view [OF v] ensured by simp
    obtain b g2 where cb: "current_branch api repo g1 = (b, g2)" by fastforce
    have v2: "view g2 repo = Some v" by (rule current_branch_view [OF v1 cb])
    show ?thesis
    proof (cases b)
      case (Inl e)
      with run ensured cb v2 show ?thesis by (auto simp: apply_patch_def repo_def)
    next
      case (Inr base)
      then have b: "b = Inr ?base" using current_branch_view(2) [OF v1 cb] by blast
      let ?out2 = "git_checked api repo [''checkout'', ''-B'', ?branch, ?base] g2"
      have out: "out = and_then ?out2 (\<lambda>g. and_then (write_patch api repo cid code rel g) (git_checked api repo [''checkout'', ?base]))"
        using run ensured cb b by (simp add: apply_patch_def repo_def Let_def)
      note c2 = checked_view [OF v2 refl args(1)]
      show ?thesis
      proof (cases ?out2)
        case (Crash e g)
        with out c2 clean show ?thesis by simp
      next
        case out2: (Done g3)
        have v3: "view g3 repo = Some on_branch" using c2 clean out2 by (simp add: on_branch on_branch_effect)
        note w = write_patch_view [OF v3 target safe refl, of code cid]
        show ?thesis
        proof (cases "write_patch api repo cid code rel g3")
          case (Crash e g)
          with w out out2 show ?thesis by auto
        next
          case wrote: (Done g4)
          with w have v4: "view g4 repo = Some (committed t code on_branch)" and i: "inside_repo repo t"
            and differs: "rv_tip v ?base t \<noteq> Some code"
            by (auto simp: on_branch tree)
          have out4: "out = git_checked api repo [''checkout'', ?base] g4" using out out2 wrote by simp
          have "rv_clean (committed t code on_branch)" by (simp add: committed_def rv_clean_def Let_def)
          with checked_view [OF v4 out4 [symmetric] args(2)] i differs show ?thesis
            by (cases out) (auto simp: git_effect_def)
        qed
      qed
    qed
  qed
qed

end

end
