(* ===== verification/GitMemory.thy ===== *)
theory GitMemory
  imports MergerProps
begin

text \<open>
  A repository held in memory that keeps the laws of \<open>git_repo\<close>, and the properties of the merger
  that rest on them.
\<close>

section \<open>Paths\<close>

fun normal_path :: "string list \<Rightarrow> string list \<Rightarrow> string list" where
  "normal_path [] acc = rev acc"
| "normal_path (c # cs) acc =
     (if c = '''' \<or> c = ''.'' then normal_path cs acc
      else if c = ''..'' then normal_path cs (tl acc) else normal_path cs (c # acc))"

definition mem_resolve :: "string \<Rightarrow> string list" where
  "mem_resolve path = normal_path (split_slash [] path) []"

lemma split_slash_no_slash: "CHR ''/'' \<notin> set acc \<Longrightarrow> \<forall>c \<in> set (split_slash acc s). CHR ''/'' \<notin> set c"
proof (induction s arbitrary: acc)
  case (Cons a s)
  show ?case using Cons.IH [of "[]"] Cons.IH [of "a # acc"] Cons.prems by simp
qed simp

lemma normal_path_proper: "\<forall>c \<in> set cs. CHR ''/'' \<notin> set c \<Longrightarrow> proper_path acc \<Longrightarrow> proper_path (normal_path cs acc)"
proof (induction cs arbitrary: acc)
  case Nil
  then show ?case by (simp add: proper_path_def)
next
  case (Cons c cs)
  have "proper_path (tl acc)" using Cons.prems(2) by (cases acc) (simp_all add: proper_path_def)
  moreover have "c \<noteq> '''' \<Longrightarrow> proper_path (c # acc)" using Cons.prems by (simp add: proper_path_def)
  ultimately show ?case using Cons by simp
qed

lemma mem_resolve_proper: "proper_path (mem_resolve path)"
  unfolding mem_resolve_def
  by (rule normal_path_proper, rule split_slash_no_slash) (simp_all add: proper_path_def)

section \<open>Repositories\<close>

record repo_state =
  rs_view :: repo_view
  rs_branches :: "string list"
  rs_paths :: "string list list"
  rs_config :: "string \<rightharpoonup> string"

record mem_git =
  mg_content :: "string list \<rightharpoonup> string"
  mg_files :: "string list list"
  mg_repos :: "string list \<rightharpoonup> repo_state"

definition git_ok :: "string \<Rightarrow> py_error + git_result" where
  "git_ok out = Inr \<lparr>gr_returncode = 0, gr_stdout = out, gr_stderr = ''''\<rparr>"

definition git_fails :: "string \<Rightarrow> py_error + git_result" where
  "git_fails out = Inr \<lparr>gr_returncode = 1, gr_stdout = out, gr_stderr = ''''\<rparr>"

lemma git_result_simps [simp]: "succeeded (git_ok out)" "\<not> succeeded (git_fails out)"
  by (simp_all add: git_ok_def git_fails_def)

definition rs_unchanged :: "repo_state \<Rightarrow> bool" where
  "rs_unchanged r = list_all (\<lambda>p. rv_staged (rs_view r) p = rv_tip (rs_view r) (rv_cur (rs_view r)) p) (rs_paths r)"

text \<open>A checkout is refused with staged changes, or when it would overwrite a changed file.\<close>

definition may_switch :: "repo_state \<Rightarrow> string \<Rightarrow> mem_git \<Rightarrow> bool" where
  "may_switch r base g \<longleftrightarrow> rs_unchanged r \<and> base \<in> set (rs_branches r)
     \<and> list_all (\<lambda>p. rv_tip (rs_view r) base p = rv_tip (rs_view r) (rv_cur (rs_view r)) p
          \<or> mg_content g p = rv_tip (rs_view r) (rv_cur (rs_view r)) p) (rs_paths r)"

definition switch_content :: "string list \<Rightarrow> repo_view \<Rightarrow> string \<Rightarrow> (string list \<rightharpoonup> string) \<Rightarrow> string list \<rightharpoonup> string" where
  "switch_content repo v base content =
     (\<lambda>p. if inside_repo repo p \<and> rv_tip v base p \<noteq> rv_tip v (rv_cur v) p then rv_tip v base p else content p)"

definition mem_checkout :: "string list \<Rightarrow> string list \<Rightarrow> string \<Rightarrow> string \<Rightarrow> repo_state \<Rightarrow> mem_git \<Rightarrow> (py_error + git_result) \<times> mem_git" where
  "mem_checkout repo args branch base r g =
     (if branch_name branch \<and> may_switch r base g
      then (git_ok '''', g\<lparr>mg_content := switch_content repo (rs_view r) base (mg_content g),
              mg_repos := (mg_repos g)(repo \<mapsto> r\<lparr>rs_view := git_effect args (mg_content g) (rs_view r),
                rs_branches := branch # rs_branches r\<rparr>)\<rparr>)
      else (git_fails ''error: checkout refused'', g))"

definition mem_update :: "string list \<Rightarrow> repo_state \<Rightarrow> mem_git \<Rightarrow> (py_error + git_result) \<times> mem_git" where
  "mem_update repo r g = (git_ok '''', g\<lparr>mg_repos := (mg_repos g)(repo \<mapsto> r)\<rparr>)"

definition mem_commit :: "string list \<Rightarrow> repo_state \<Rightarrow> mem_git \<Rightarrow> (py_error + git_result) \<times> mem_git" where
  "mem_commit repo r g =
     (let v = rs_view r
      in mem_update repo (r\<lparr>rs_view := v\<lparr>rv_tip := (rv_tip v)(rv_cur v := rv_staged v)\<rparr>,
           rs_branches := rv_cur v # rs_branches r\<rparr>) g)"

definition mem_add :: "string list \<Rightarrow> string \<Rightarrow> repo_state \<Rightarrow> mem_git \<Rightarrow> (py_error + git_result) \<times> mem_git" where
  "mem_add repo path r g =
     (let v = rs_view r
      in if path = ''.''
         then mem_update repo (r\<lparr>rs_view := v\<lparr>rv_staged := (\<lambda>q. if inside_repo repo q then mg_content g q else None)\<rparr>,
                rs_paths := filter (inside_repo repo) (mg_files g)\<rparr>) g
         else if inside_repo repo (mem_resolve path) \<and> mg_content g (mem_resolve path) \<noteq> None
         then mem_update repo (r\<lparr>rs_view := v\<lparr>rv_staged := add_effect path (mg_content g) v\<rparr>,
                rs_paths := mem_resolve path # rs_paths r\<rparr>) g
         else (git_fails ''fatal: pathspec did not match any files'', g))"

definition new_repo :: "string \<Rightarrow> repo_state" where
  "new_repo branch = \<lparr>rs_view = \<lparr>rv_cur = branch, rv_tip = (\<lambda>b. Map.empty), rv_staged = Map.empty\<rparr>,
     rs_branches = [], rs_paths = [], rs_config = Map.empty\<rparr>"

definition mem_run :: "string list \<Rightarrow> string list \<Rightarrow> mem_git \<Rightarrow> (py_error + git_result) \<times> mem_git" where
  "mem_run repo args g =
     (case mg_repos g repo of
        None \<Rightarrow>
          (case args of
             [a, b, c] \<Rightarrow> if a = ''init'' \<and> b = ''-b'' then mem_update repo (new_repo c) g else (git_fails ''fatal'', g)
           | _ \<Rightarrow> (git_fails ''fatal: not a git repository'', g))
      | Some r \<Rightarrow>
          (case args of
             [a, b] \<Rightarrow>
               if a = ''config'' then ((case rs_config r b of None \<Rightarrow> git_fails '''' | Some x \<Rightarrow> git_ok (x @ [CHR 0x0A])), g)
               else if a = ''checkout'' then (if b = ''HEAD'' then (git_ok '''', g) else mem_checkout repo args b b r g)
               else if a = ''add'' then mem_add repo b r g
               else (git_fails ''usage'', g)
           | [a, b, c] \<Rightarrow>
               if a = ''config'' then mem_update repo (r\<lparr>rs_config := (rs_config r)(b \<mapsto> c)\<rparr>) g
               else if a = ''rev-parse'' \<and> b = ''--verify''
               then ((if rv_cur (rs_view r) \<in> set (rs_branches r) then git_ok ''0123456'' else git_fails ''''), g)
               else if a = ''rev-parse'' then (git_ok (rv_cur (rs_view r) @ [CHR 0x0A]), g)
               else if a = ''commit'' \<and> b = ''-m''
               then (if rs_unchanged r then (git_fails ''nothing to commit'', g) else mem_commit repo r g)
               else (git_fails ''usage'', g)
           | [a, b, c, d] \<Rightarrow>
               if a = ''checkout'' \<and> b = ''-B'' then mem_checkout repo args c d r g
               else if a = ''commit'' then mem_commit repo r g
               else (git_fails ''usage'', g)
           | _ \<Rightarrow> (git_fails ''usage'', g)))"

definition mem_exists :: "mem_git \<Rightarrow> string list \<Rightarrow> bool" where
  "mem_exists g p \<longleftrightarrow> mg_content g p \<noteq> None \<or> (p \<noteq> [] \<and> last p = ''.git'' \<and> mg_repos g (butlast p) \<noteq> None)"

definition mem_git_api :: "mem_git git_api" where
  "mem_git_api = \<lparr>git_run = mem_run, fs_resolve = (\<lambda>g. mem_resolve), fs_exists = mem_exists,
     fs_mkdir = (\<lambda>d g. (None, g)),
     fs_write = (\<lambda>p code g. (None, g\<lparr>mg_content := (mg_content g)(p \<mapsto> code), mg_files := p # mg_files g\<rparr>))\<rparr>"

definition mem_view :: "mem_git \<Rightarrow> string list \<Rightarrow> repo_view option" where
  "mem_view g repo =
     (case mg_repos g repo of
        None \<Rightarrow> None
      | Some r \<Rightarrow> if branch_name (rv_cur (rs_view r)) \<and> rv_cur (rs_view r) \<in> set (rs_branches r) then Some (rs_view r) else None)"

section \<open>The laws\<close>

lemma mem_view_repo:
  "mem_view g repo = Some v \<longleftrightarrow>
     (\<exists>r. mg_repos g repo = Some r \<and> rs_view r = v \<and> branch_name (rv_cur v) \<and> rv_cur v \<in> set (rs_branches r))"
  by (auto simp: mem_view_def split: option.splits)

lemma mem_checkout_view:
  assumes "mem_view g repo = Some (rs_view r)" and "mg_repos g repo = Some r"
    and "mem_checkout repo args branch base r g = (x, g')" and "rv_cur (git_effect args (mg_content g) (rs_view r)) = branch"
  shows "mem_view g' repo = Some (if succeeded x then git_effect args (mg_content g) (rs_view r) else rs_view r)"
  using assms by (auto simp: mem_checkout_def mem_view_repo split: if_splits)

lemma mem_commit_view:
  assumes "mem_view g repo = Some (rs_view r)" and "mem_commit repo r g = (x, g')"
  shows "succeeded x \<and> mem_view g' repo = Some ((rs_view r)\<lparr>rv_tip := (rv_tip (rs_view r))(rv_cur (rs_view r) := rv_staged (rs_view r))\<rparr>)"
  using assms by (auto simp: mem_commit_def mem_update_def mem_view_repo Let_def)

lemma mem_add_view:
  assumes "mem_view g repo = Some (rs_view r)" and "mg_repos g repo = Some r" and "mem_add repo path r g = (x, g')" and "path \<noteq> ''.''"
  shows "mem_view g' repo = Some (if succeeded x then (rs_view r)\<lparr>rv_staged := add_effect path (mg_content g) (rs_view r)\<rparr> else rs_view r)"
  using assms by (auto simp: mem_add_def mem_update_def mem_view_repo Let_def split: if_splits)

lemma path_text_not_dot: "path_text p \<noteq> ''.''"
  by (cases p) (simp_all add: path_text_def)

lemma mem_run_view:
  assumes view: "mem_view g repo = Some v" and run: "mem_run repo args g = (x, g')" and args: "args \<in> merger_args repo"
  shows "mem_view g' repo = Some (if succeeded x then git_effect args (mg_content g) v else v)"
proof -
  obtain r where r: "mg_repos g repo = Some r" and v: "rs_view r = v" using view by (auto simp: mem_view_repo)
  have unchanged: "g' = g \<Longrightarrow> \<not> succeeded x \<or> git_effect args (mg_content g) v = v \<Longrightarrow> ?thesis"
    using view by auto
  consider (two) a b where "args = [a, b]" | (three) a b c where "args = [a, b, c]" | (four) a b c d where "args = [a, b, c, d]"
    | (other) "\<And>a b c d. args \<noteq> [a, b] \<and> args \<noteq> [a, b, c] \<and> args \<noteq> [a, b, c, d]"
    by metis
  then show ?thesis
  proof cases
    case two
    consider "a = ''config''" | "a = ''checkout''" | "a = ''add''" | "a \<noteq> ''config''" "a \<noteq> ''checkout''" "a \<noteq> ''add''" by blast
    then show ?thesis
    proof cases
      case 1
      show ?thesis by (rule unchanged) (use run r two 1 in \<open>auto simp: mem_run_def git_effect_def\<close>)
    next
      case 2
      show ?thesis
      proof (cases "b = ''HEAD''")
        case True
        show ?thesis by (rule unchanged) (use run r two 2 True in \<open>auto simp: mem_run_def git_effect_def\<close>)
      next
        case False
        then have "mem_checkout repo args b b r g = (x, g')" using run r two 2 by (simp add: mem_run_def)
        from mem_checkout_view [OF _ r this] show ?thesis using view v two 2 False by (simp add: git_effect_def)
      qed
    next
      case 3
      then have "mem_add repo b r g = (x, g')" using run r two by (simp add: mem_run_def)
      moreover have "b \<noteq> ''.''" using args two 3 path_text_not_dot by (auto simp: merger_args_def)
      ultimately show ?thesis using mem_add_view [of g repo r b x g'] view v r two 3 by (simp add: git_effect_def)
    next
      case 4
      show ?thesis by (rule unchanged) (use run r two 4 in \<open>auto simp: mem_run_def\<close>)
    qed
  next
    case three
    consider "a = ''config''" | "a = ''rev-parse''" | "a = ''commit''" "b = ''-m''" | "a \<noteq> ''config''" "a \<noteq> ''rev-parse''" "a \<noteq> ''commit'' \<or> b \<noteq> ''-m''" by blast
    then show ?thesis
    proof cases
      case 1
      then show ?thesis using view v run r three by (auto simp: mem_run_def git_effect_def mem_update_def mem_view_repo)
    next
      case 2
      show ?thesis by (rule unchanged) (use run r three 2 in \<open>auto simp: mem_run_def git_effect_def split: if_splits\<close>)
    next
      case 3
      show ?thesis
      proof (cases "rs_unchanged r")
        case True
        show ?thesis by (rule unchanged) (use run r three 3 True in \<open>auto simp: mem_run_def\<close>)
      next
        case False
        then have "mem_commit repo r g = (x, g')" using run r three 3 by (simp add: mem_run_def)
        from mem_commit_view [OF _ this] show ?thesis using view v three 3 by (simp add: git_effect_def)
      qed
    next
      case 4
      show ?thesis by (rule unchanged) (use run r three 4 in \<open>auto simp: mem_run_def\<close>)
    qed
  next
    case four
    then have "a \<noteq> ''commit''" using args by (auto simp: merger_args_def)
    show ?thesis
    proof (cases "a = ''checkout'' \<and> b = ''-B''")
      case True
      then have "mem_checkout repo args c d r g = (x, g')" using run r four by (simp add: mem_run_def)
      from mem_checkout_view [OF _ r this] show ?thesis using view v four True by (simp add: git_effect_def)
    next
      case False
      show ?thesis by (rule unchanged) (use run r four False \<open>a \<noteq> ''commit''\<close> in \<open>auto simp: mem_run_def\<close>)
    qed
  next
    case other
    then show ?thesis
      by (intro unchanged) (use run r in \<open>auto simp: mem_run_def split: list.splits\<close>)
  qed
qed

lemma mem_run_content:
  "mem_run repo args g = (x, g') \<Longrightarrow> \<not> inside_repo repo p \<Longrightarrow> mg_content g' p = mg_content g p"
  by (auto simp: mem_run_def mem_update_def mem_checkout_def mem_add_def mem_commit_def switch_content_def Let_def
      split: option.splits list.splits if_splits)

lemma mem_run_commit:
  assumes "mem_view g repo = Some v" and "rv_clean v" and "mem_run repo [''commit'', ''-m'', m] g = (x, g')"
  shows "\<not> succeeded x"
proof -
  obtain r where r: "mg_repos g repo = Some r" "rs_view r = v" using assms(1) by (auto simp: mem_view_repo)
  then have "rs_unchanged r" using assms(2) by (simp add: rs_unchanged_def rv_clean_def list_all_iff)
  with assms(3) r show ?thesis by (auto simp: mem_run_def)
qed

interpretation mem_git: git_repo mem_git_api mem_view mg_content
proof unfold_locales
  fix g g' :: mem_git and repo v args x
  assume "mem_view g repo = Some v" and "git_run mem_git_api repo args g = (x, g')" and "args \<in> merger_args repo"
  then show "mem_view g' repo = Some (if succeeded x then git_effect args (mg_content g) v else v)"
    using mem_run_view by (simp add: mem_git_api_def)
next
  fix g g' :: mem_git and repo args x p
  assume "git_run mem_git_api repo args g = (x, g')" and "\<not> inside_repo repo p"
  then show "mg_content g' p = mg_content g p" using mem_run_content by (simp add: mem_git_api_def)
next
  fix g g' :: mem_git and repo v x
  assume "mem_view g repo = Some v"
    and "git_run mem_git_api repo [''rev-parse'', ''--abbrev-ref'', ''HEAD''] g = (Inr x, g')"
  then show "gr_stdout x = rv_cur v @ [CHR 0x0A]"
    by (auto simp: mem_git_api_def mem_run_def mem_view_repo git_ok_def)
next
  fix g g' :: mem_git and repo v x
  assume "mem_view g repo = Some v"
    and "git_run mem_git_api repo [''rev-parse'', ''--verify'', ''HEAD''] g = (Inr x, g')"
  then show "gr_returncode x = 0"
    by (auto simp: mem_git_api_def mem_run_def mem_view_repo git_ok_def)
next
  fix g g' :: mem_git and repo v m x
  assume "mem_view g repo = Some v" and "rv_clean v" and "git_run mem_git_api repo [''commit'', ''-m'', m] g = (x, g')"
  then show "\<not> succeeded x" using mem_run_commit by (simp add: mem_git_api_def)
next
  fix g :: mem_git and repo v
  assume "mem_view g repo = Some v"
  then show "branch_name (rv_cur v)" and "fs_exists mem_git_api g (repo @ [''.git''])"
    by (auto simp: mem_view_repo mem_git_api_def mem_exists_def)
qed (auto simp: mem_git_api_def mem_view_def fun_eq_iff)

section \<open>Properties of the merger\<close>

text \<open>
  C7. A patch that the merger applies is committed on a branch of its own: after it, the branch
  \<open>omega_repair_\<dots>\<close> holds the base branch's files with the candidate's code in the target, every
  other branch holds what it held, the base branch is checked out again, and no file outside the
  repository has changed. The base branch itself does not receive the repair, although the ledger
  then says \<open>merged\<close>. Git keeps the laws of \<open>git_repo\<close>; the repository is clean, and not on the
  repair branch nor on a detached head.
\<close>

theorem patch_is_committed_beside_its_base:
  assumes laws: "git_repo api view content"
    and repo: "repo = fs_resolve api g0 repo_path" and "view g0 repo = Some v" and clean: "rv_clean v"
    and "\<And>g. fs_resolve api g (path_join repo rel) = target" and "safe_target repo target"
    and base: "rv_cur v \<noteq> repair_branch cid" "rv_cur v \<noteq> ''HEAD''"
    and run: "apply_patch api cid code rel repo_path g0 = Done g'"
  shows "inside_repo repo target
    \<and> view g' repo = Some (v\<lparr>rv_tip := (rv_tip v)(repair_branch cid := (rv_tip v (rv_cur v))(target \<mapsto> code))\<rparr>)
    \<and> (\<forall>p. \<not> inside_repo repo p \<longrightarrow> content g' p = content g0 p)"
proof -
  have "content g' p = content g0 p" if "\<not> inside_repo repo p" for p
    using git_repo.apply_patch_content [OF laws that [unfolded repo], of cid code rel] run by simp
  moreover note git_repo.apply_patch_view [OF laws assms(3) [unfolded repo] clean assms(5) [unfolded repo] assms(6) [unfolded repo] run]
  ultimately show ?thesis
    using base clean unfolding on_branch_effect
    by (simp add: repo git_effect_def committed_def rv_clean_def Let_def)
qed

text \<open>
  C38. A failed patch can strand the repository: a target outside the repository and code that the
  base already holds always fail. A failed patch changes no branch but its own, but once that
  branch exists it stays checked out, with nothing that returns to the base, so that the next
  patch takes it as its base.
\<close>

theorem failed_patch_strands_the_repository:
  assumes laws: "git_repo api view content"
    and repo: "repo = fs_resolve api g0 repo_path" and view: "view g0 repo = Some v" and clean: "rv_clean v"
    and target: "\<And>g. fs_resolve api g (path_join repo rel) = target" and safe: "safe_target repo target"
  shows "case apply_patch api cid code rel repo_path g0 of
      Done g' \<Rightarrow> inside_repo repo target \<and> rv_tip v (rv_cur v) target \<noteq> Some code
    | Crash e g' \<Rightarrow> \<exists>v'. view g' repo = Some v' \<and> (\<forall>b. b \<noteq> repair_branch cid \<longrightarrow> rv_tip v' b = rv_tip v b)
        \<and> (v' = v \<or> rv_cur v' = repair_branch cid)"
proof -
  note patch = git_repo.apply_patch_view [OF laws view [unfolded repo] clean target [unfolded repo] safe [unfolded repo] refl, of code cid]
  show ?thesis
  proof (cases "apply_patch api cid code rel repo_path g0")
    case (Done g')
    with patch show ?thesis by (simp add: repo)
  next
    case (Crash e g')
    with patch have "view g' repo = Some v \<or> (\<exists>v'. view g' repo = Some v'
        \<and> (same_commits (git_effect [''checkout'', ''-B'', repair_branch cid, rv_cur v] (content g0) v) v'
          \<or> v' = committed target code (git_effect [''checkout'', ''-B'', repair_branch cid, rv_cur v] (content g0) v)))"
      by (simp add: repo)
    then show ?thesis
      unfolding on_branch_effect using Crash by (auto simp: same_commits_def committed_def Let_def)
  qed
qed

definition sample_git :: mem_git where
  "sample_git =
     (let tree = [[''r'', ''a.py''] \<mapsto> ''x > 0'']
      in \<lparr>mg_content = tree([''etc''] \<mapsto> ''keep''), mg_files = [[''r'', ''a.py'']],
          mg_repos = [[''r''] \<mapsto> \<lparr>rs_view = \<lparr>rv_cur = ''main'', rv_tip = (\<lambda>b. if b = ''main'' then tree else Map.empty), rv_staged = tree\<rparr>,
            rs_branches = [''main''], rs_paths = [[''r'', ''a.py'']], rs_config = Map.empty\<rparr>]\<rparr>)"

definition sample_view :: repo_view where
  "sample_view = (let tree = [[''r'', ''a.py''] \<mapsto> ''x > 0'']
     in \<lparr>rv_cur = ''main'', rv_tip = (\<lambda>b. if b = ''main'' then tree else Map.empty), rv_staged = tree\<rparr>)"

definition is_done :: "'w outcome \<Rightarrow> bool" where
  "is_done out = (case out of Done w \<Rightarrow> True | Crash e w \<Rightarrow> False)"

lemma sample_git_facts:
  "fs_resolve mem_git_api sample_git ''/r'' = [''r'']" "rv_clean sample_view" "rv_cur sample_view = ''main''"
  "mem_view sample_git [''r''] = Some sample_view"
proof -
  show "fs_resolve mem_git_api sample_git ''/r'' = [''r'']" by code_simp
  show "rv_clean sample_view" "rv_cur sample_view = ''main''"
    by (simp_all add: sample_view_def rv_clean_def Let_def)
  have "branch_name ''main''" by code_simp
  then show "mem_view sample_git [''r''] = Some sample_view"
    by (simp add: mem_view_def sample_git_def sample_view_def Let_def)
qed

lemma sample_patch_runs: "\<exists>g'. apply_patch mem_git_api ''c1'' ''x >= 0'' ''a.py'' ''/r'' sample_git = Done g'"
proof -
  have "is_done (apply_patch mem_git_api ''c1'' ''x >= 0'' ''a.py'' ''/r'' sample_git)" by code_simp
  then show ?thesis by (auto simp: is_done_def split: outcome.splits)
qed

lemma sample_patch_strands:
  "\<exists>e g'. apply_patch mem_git_api ''c1'' ''x >= 0'' ''../etc'' ''/r'' sample_git = Crash e g'
     \<and> map_option rv_cur (mem_view g' [''r'']) = Some (repair_branch ''c1'')"
proof -
  have "case apply_patch mem_git_api ''c1'' ''x >= 0'' ''../etc'' ''/r'' sample_git of
      Done g' \<Rightarrow> False | Crash e g' \<Rightarrow> map_option rv_cur (mem_view g' [''r'']) = Some (repair_branch ''c1'')"
    by code_simp
  then show ?thesis by (auto split: outcome.splits)
qed

lemma sample_targets:
  "fs_resolve mem_git_api g (path_join [''r''] ''a.py'') = [''r'', ''a.py'']" "safe_target [''r''] [''r'', ''a.py'']"
  "fs_resolve mem_git_api g (path_join [''r''] ''../etc'') = [''etc'']" "safe_target [''r''] [''etc'']"
proof -
  have "mem_resolve (path_join [''r''] ''a.py'') = [''r'', ''a.py'']" "mem_resolve (path_join [''r''] ''../etc'') = [''etc'']"
    by code_simp+
  then show "fs_resolve mem_git_api g (path_join [''r''] ''a.py'') = [''r'', ''a.py'']"
    "fs_resolve mem_git_api g (path_join [''r''] ''../etc'') = [''etc'']"
    by (simp_all add: mem_git_api_def)
  show "safe_target [''r''] [''r'', ''a.py'']" "safe_target [''r''] [''etc'']" by code_simp+
qed

lemma sample_branches: "''main'' \<noteq> repair_branch ''c1''" "''main'' \<noteq> ''HEAD''"
  by code_simp+

theorem patch_is_committed_beside_its_base_witness:
  "\<exists>g'. apply_patch mem_git_api ''c1'' ''x >= 0'' ''a.py'' ''/r'' sample_git = Done g'
     \<and> mem_view g' [''r''] = Some (sample_view\<lparr>rv_tip := (rv_tip sample_view)
          (repair_branch ''c1'' := (rv_tip sample_view ''main'')([''r'', ''a.py''] \<mapsto> ''x >= 0''))\<rparr>)
     \<and> mg_content g' [''etc''] = Some ''keep''"
proof -
  obtain g' where run: "apply_patch mem_git_api ''c1'' ''x >= 0'' ''a.py'' ''/r'' sample_git = Done g'"
    using sample_patch_runs by blast
  have "\<not> inside_repo [''r''] [''etc'']" "mg_content sample_git [''etc''] = Some ''keep''" by code_simp+
  with patch_is_committed_beside_its_base [OF mem_git.git_repo_axioms sample_git_facts(1) [symmetric] sample_git_facts(4,2)
      sample_targets(1,2) _ _ run] sample_branches sample_git_facts(3) run
  show ?thesis by auto
qed

theorem failed_patch_strands_the_repository_witness:
  "\<exists>e g' v'. apply_patch mem_git_api ''c1'' ''x >= 0'' ''../etc'' ''/r'' sample_git = Crash e g'
     \<and> mem_view g' [''r''] = Some v' \<and> rv_cur v' = repair_branch ''c1'' \<and> rv_tip v' ''main'' = rv_tip sample_view ''main''"
proof -
  obtain e g' where run: "apply_patch mem_git_api ''c1'' ''x >= 0'' ''../etc'' ''/r'' sample_git = Crash e g'"
    and cur: "map_option rv_cur (mem_view g' [''r'']) = Some (repair_branch ''c1'')"
    using sample_patch_strands by blast
  note patch = failed_patch_strands_the_repository [OF mem_git.git_repo_axioms sample_git_facts(1) [symmetric] sample_git_facts(4,2)
      sample_targets(3,4), of "''x >= 0''" "''c1''", unfolded run outcome.case]
  then obtain v' where "mem_view g' [''r''] = Some v'" and "\<forall>b. b \<noteq> repair_branch ''c1'' \<longrightarrow> rv_tip v' b = rv_tip sample_view b"
    by blast
  with run cur sample_branches show ?thesis by auto
qed

end
