(* ===== verification/MergerMessages.thy ===== *)
theory MergerMessages
  imports GitMemory LedgerProps PolicyGateProps
begin

text \<open>Who may merge for a tree, and what the ledger and the shared store hold afterwards.\<close>

lemma claim_tree_cases:
  assumes "shared_store R" and "claim_tree R tree cid w = (won, w')" and "cid \<noteq> []"
  shows "won \<longleftrightarrow> w_string R w (tree_accepted_key tree) \<in> {None, Some (Txt cid)}"
    and "won \<Longrightarrow> w_string R w' (tree_accepted_key tree) = Some (Txt cid)"
    and "\<not> won \<Longrightarrow> r_data R (w_store w') = r_data R (w_store w)"
    and "w_db w' = w_db w"
  using assms
  by (cases "rd_strings (r_data R (w_store w)) (tree_accepted_key tree)";
      auto simp: claim_tree_def Let_def w_string_def split_beta shared_store.setnx_data shared_store.setnx_value
        or_text_def split: if_splits rtext.splits list.splits)+

lemma fetch_merge_candidate_metadata [simp]:
  "fetch_candidate_status (merge_candidate_metadata c m db) c' = fetch_candidate_status db c'"
  by (cases "map_of (db_candidates db) c") (auto simp: merge_candidate_metadata_def fetch_candidate_status_def)

lemma fetch_update_task_status [simp]:
  "fetch_candidate_status (snd (update_task_status t s db)) c = fetch_candidate_status db c"
  by (auto simp: update_task_status_def fetch_candidate_status_def)

lemma accepted_moves_on:
  "fetch_candidate_status db c = Some ''accepted'' \<Longrightarrow> s \<in> {''merged'', ''merge_failed''}
   \<Longrightarrow> fetch_candidate_status (snd (update_candidate_status c s None db)) c = Some s"
  by (auto simp: update_candidate_status_def can_transition_candidate_status_def)

text \<open>
  C15. The merger serves the candidate that holds the tree: an entry of another candidate is passed
  over and changes nothing. An accepted candidate that holds the tree, or finds it free, gets
  exactly one attempt; when it succeeds the candidate is merged and keeps the tree, and when it
  fails, whatever the reason, the candidate's merge has failed for good and the tree is free again,
  so that the policy gate accepts the next verified candidate of the task.
\<close>

theorem merger_serves_the_holder:
  assumes store: "shared_store (mg_redis env)" and "ge_redis gate = mg_redis env"
    and "message = Some v" and "text_json v = Some payload"
    and "payload_str payload ''tree_id'' = Inr tree" and "payload_str payload ''capsule_id'' = Inr cid" and "cid \<noteq> []"
    and accepted: "fetch_candidate_status (w_db w) cid = Some ''accepted''"
  shows "\<exists>w'. if w_string (mg_redis env) w (tree_accepted_key tree) \<in> {None, Some (Txt cid)}
    then merger_message env message (w, g) = Done (w', outcome_world (merge_payload env payload cid g))
      \<and> (case merge_payload env payload cid g of
           Done g' \<Rightarrow> w_string (mg_redis env) w' (tree_accepted_key tree) = Some (Txt cid)
             \<and> fetch_candidate_status (w_db w') cid = Some ''merged''
         | Crash e g' \<Rightarrow> w_string (mg_redis env) w' (tree_accepted_key tree) = None
             \<and> fetch_candidate_status (w_db w') cid = Some ''merge_failed''
             \<and> fst (reserve_tree gate tree other w') = None)
    else merger_message env message (w, g) = Done (w', g) \<and> w_db w' = w_db w
      \<and> r_data (mg_redis env) (w_store w') = r_data (mg_redis env) (w_store w)"
proof -
  let ?R = "mg_redis env" and ?key = "tree_accepted_key tree"
  obtain won w1 where claim: "claim_tree ?R tree cid w = (won, w1)" by fastforce
  note claimed = claim_tree_cases [OF store claim \<open>cid \<noteq> []\<close>]
  have message: "merger_message env message (w, g) = (case (won, w1) of (False, w) \<Rightarrow> Done (w, g)
      | (True, w) \<Rightarrow> (case merge_payload env payload cid g of
           Done g \<Rightarrow> Done (record_merge env tree cid w, g)
         | Crash e g \<Rightarrow> Done (record_merge_failure env tree cid e w, g)))"
    using assms(3-6) claim by (simp add: merger_message_def)
  show ?thesis
  proof (cases won)
    case False
    with message claimed show ?thesis by auto
  next
    case True
    have acc: "fetch_candidate_status (w_db w1) cid = Some ''accepted''" using accepted claimed(4) by simp
    show ?thesis
    proof (cases "merge_payload env payload cid g")
      case (Done g')
      have "w_string ?R (record_merge env tree cid w1) ?key = Some (Txt cid)"
        and "fetch_candidate_status (w_db (record_merge env tree cid w1)) cid = Some ''merged''"
        using claimed(2) True accepted_moves_on [OF acc, of "''merged''"] by (simp_all add: record_merge_def w_string_def)
      with Done True message claimed(1) show ?thesis by auto
    next
      case (Crash e g')
      let ?w = "record_merge_failure env tree cid e w1"
      have free: "w_string ?R ?w ?key = None"
        using store by (simp add: record_merge_failure_def w_string_def Let_def)
      have "fetch_candidate_status (w_db ?w) cid = Some ''merge_failed''"
        using accepted_moves_on [OF acc, of "''merge_failed''"] by (simp add: record_merge_failure_def Let_def)
      moreover have "fst (reserve_tree gate tree other ?w) = None"
        using free store assms(2)
        by (simp add: reserve_tree_def Let_def split_beta shared_store.setnx_value w_string_def)
      ultimately show ?thesis using Crash True message claimed(1) free by auto
    qed
  qed
qed

definition sample_merger :: "(redis_data, mem_git) merger_env" where
  "sample_merger = \<lparr>mg_redis = mem_redis, mg_git = mem_git_api, mg_error_text = (\<lambda>e. ''error''), mg_duration_ms = 1\<rparr>"

definition sample_entry :: json where
  "sample_entry = JObj [(''tree_id'', JStr ''t''), (''capsule_id'', JStr ''c1''), (''code'', JStr ''x >= 0''),
     (''source_relpath'', JStr ''../etc''), (''repo_path'', JStr ''/r'')]"

definition merge_world :: "redis_data world" where
  "merge_world = \<lparr>w_store = empty_data\<lparr>rd_strings := [tree_accepted_key ''t'' \<mapsto> Txt ''c1'']\<rparr>,
     w_db = empty_db\<lparr>db_candidates := [(''c1'', sample_candidate\<lparr>cr_status := ''accepted''\<rparr>)]\<rparr>\<rparr>"

theorem merger_serves_the_holder_witness:
  "\<exists>w' g'. merger_message sample_merger (Some (Doc sample_entry)) (merge_world, sample_git) = Done (w', g')
     \<and> w_string mem_redis w' (tree_accepted_key ''t'') = None
     \<and> fetch_candidate_status (w_db w') ''c1'' = Some ''merge_failed''
     \<and> fst (reserve_tree sample_gate ''t'' ''c2'' w') = None"
proof -
  have env: "mg_redis sample_merger = mem_redis" "ge_redis sample_gate = mem_redis" "mg_git sample_merger = mem_git_api"
    by (simp_all add: sample_merger_def sample_gate_def)
  have fields: "payload_str sample_entry ''tree_id'' = Inr ''t''" "payload_str sample_entry ''capsule_id'' = Inr ''c1''"
      "payload_str sample_entry ''code'' = Inr ''x >= 0''" "payload_str sample_entry ''source_relpath'' = Inr ''../etc''"
      "payload_str sample_entry ''repo_path'' = Inr ''/r''"
    by code_simp+
  obtain e g' where crash: "merge_payload sample_merger sample_entry ''c1'' sample_git = Crash e g'"
    using sample_patch_strands by (auto simp: merge_payload_def fields env)
  have "fetch_candidate_status (w_db merge_world) ''c1'' = Some ''accepted''"
    and holds: "w_string mem_redis merge_world (tree_accepted_key ''t'') = Some (Txt ''c1'')"
    by (simp_all add: merge_world_def fetch_candidate_status_def w_string_def mem_redis_def)
  with merger_serves_the_holder [of sample_merger sample_gate "Some (Doc sample_entry)" "Doc sample_entry" sample_entry "''t''" "''c1''"
      merge_world sample_git "''c2''"] fields crash
  show ?thesis
    by (auto simp: env mem.shared_store_axioms)
qed

end
