(* ===== verification/Dispatcher.thy ===== *)
theory Dispatcher
  imports PolicyGate TreeSearch
begin

text \<open>
  The dispatcher (\<open>dispatcher.py\<close>): it takes the queued executions from the dispatch stream and
  hands each capsule to its executor over a connection. The connection is a parameter: the capsule
  is delivered, or the attempt raises an \<open>OSError\<close> (\<open>Refused\<close>: no connection, or one that broke at any
  time, also after the last byte was sent), or it raises another exception (a port out of range
  does).
\<close>

datatype delivery = Delivered | Refused string | Broken py_error

record 's dispatcher_env =
  di_redis :: "'s redis"
  di_settings :: omega_settings
  di_send :: "string \<Rightarrow> int \<Rightarrow> json \<Rightarrow> delivery"
  di_sha256 :: "string \<Rightarrow> string"
  di_now :: real

text \<open>The result the dispatcher reports for a capsule that no executor took.\<close>

definition refused_pack :: "'s dispatcher_env \<Rightarrow> execution_request \<Rightarrow> string \<Rightarrow> verification_pack" where
  "refused_pack env request exc =
     \<lparr>vp_capsule_id = er_candidate_id request, vp_run_id = er_run_id request, vp_success = False,
      vp_runtime = 0, vp_node_id = ''dispatcher'', vp_hardware_isolated = False,
      vp_inputs_digest = di_sha256 env (tc_code (er_capsule request)),
      vp_tests_passed = 0, vp_tests_failed = 999,
      vp_error_signature = Some (''DispatchError: '' @ exc), vp_attestation = None,
      vp_artifact_uri = None, vp_meta = []\<rparr>"

definition count_inflight :: "'s redis \<Rightarrow> 's world \<Rightarrow> 's world" where
  "count_inflight R w = w\<lparr>w_store := snd (r_incr R STATS_INFLIGHT (w_store w))\<rparr>"

definition uncount_inflight :: "'s redis \<Rightarrow> 's world \<Rightarrow> 's world" where
  "uncount_inflight R w = w\<lparr>w_store := snd (r_decr R STATS_INFLIGHT (w_store w))\<rparr>"

definition report_refused :: "'s dispatcher_env \<Rightarrow> execution_request \<Rightarrow> string \<Rightarrow> 's world \<Rightarrow> 's world" where
  "report_refused env request exc w =
     (let pack = refused_pack env request exc;
          w = uncount_inflight (di_redis env) w;
          w = w\<lparr>w_db := snd (update_candidate_status (er_candidate_id request) ''dispatch_failed'' None (w_db w))\<rparr>;
          w = w\<lparr>w_db := complete_execution pack (di_now env) (w_db w)\<rparr>
      in w_exec (di_redis env) [CXAdd STREAM_RESULTS (Doc (pack_to_json pack))] w)"

definition dispatch_meta :: "'s dispatcher_env \<Rightarrow> execution_request \<Rightarrow> jsonb" where
  "dispatch_meta env request =
     [''dispatch'' \<mapsto> JObj
        [(''queue_wait_ms'', JFloat (max 0 ((di_now env - er_created_at request) * 1000))),
         (''preferred_core'', JInt (case er_preferred_executor_core request of
            Some core \<Rightarrow> core | None \<Rightarrow> er_executor_core request)),
         (''assigned_core'', JInt (er_executor_core request))]]"

definition mark_delivered :: "'s dispatcher_env \<Rightarrow> execution_request \<Rightarrow> 's world \<Rightarrow> 's world" where
  "mark_delivered env request w =
     w\<lparr>w_db := snd (update_candidate_status (er_candidate_id request) ''running'' None
        (merge_execution_meta (er_run_id request) (dispatch_meta env request)
          (mark_execution_started (er_run_id request) None (di_now env) (w_db w))))\<rparr>"

definition dispatch :: "'s dispatcher_env \<Rightarrow> execution_request \<Rightarrow> 's world \<Rightarrow> 's world outcome" where
  "dispatch env request w =
     (let port = om_executor_base_port (di_settings env) + er_executor_core request;
          w = count_inflight (di_redis env) w
      in case di_send env (om_executor_host (di_settings env)) port (capsule_to_json (er_capsule request)) of
           Refused exc \<Rightarrow> Done (report_refused env request exc w)
         | Broken e \<Rightarrow> Crash e w
         | Delivered \<Rightarrow> Done (mark_delivered env request w))"

definition message_request :: "rtext option \<Rightarrow> py_error + execution_request" where
  "message_request payload =
     (case payload of
        None \<Rightarrow> Inl KeyError
      | Some v \<Rightarrow>
          (case text_json v of
             None \<Rightarrow> Inl ValueError
           | Some j \<Rightarrow> (case request_from_json j of None \<Rightarrow> Inl TypeError | Some request \<Rightarrow> Inr request)))"

fun dispatcher_loop ::
    "'s dispatcher_env \<Rightarrow> (string \<times> rtext option) list \<Rightarrow> 's handled \<Rightarrow> 's handled outcome" where
  "dispatcher_loop env [] st = Done st"
| "dispatcher_loop env ((message_id, payload) # messages) (pipe, w) =
     (let pipe = pipe @ [CXAck STREAM_DISPATCH ''dispatch_group'' message_id]
      in case message_request payload of
           Inl e \<Rightarrow> Crash e (pipe, w)
         | Inr request \<Rightarrow>
             (case dispatch env request w of
                Crash e w \<Rightarrow> Crash e (pipe, w)
              | Done w \<Rightarrow> dispatcher_loop env messages (pipe, w)))"

definition dispatcher_batch :: "'s dispatcher_env \<Rightarrow> (string \<times> rtext option) list \<Rightarrow> 's world \<Rightarrow> 's world outcome" where
  "dispatcher_batch env messages w =
     (case dispatcher_loop env messages ([], w) of
        Crash e (pipe, w) \<Rightarrow> Crash e w
      | Done (pipe, w) \<Rightarrow> Done (w_exec (di_redis env) pipe w))"

end
