(* ===== verification/Funnel.thy ===== *)
theory Funnel
  imports PyText Planning
begin

text \<open>
  The verification funnel (\<open>guest_agent/funnel.py\<close>): linter, type checker, targeted test and full
  suite, run one after the other on the candidate's workspace. The processes are a parameter that
  acts on a state of any type; the clock is read from that state.
\<close>

section \<open>Running a command\<close>

datatype proc_result =
    Exited (pr_returncode: int) (pr_stdout: string) (pr_stderr: string)
  | TimedOut
  | NotRun py_error

text \<open>\<open>fe_run\<close> takes the command, the directory, the value of \<open>PYTHONPATH\<close> and the seconds allowed.\<close>

record 'e funnel_env =
  fe_tool :: "string \<Rightarrow> string"
  fe_existing_path :: string
  fe_run :: "string list \<Rightarrow> string option \<Rightarrow> string \<Rightarrow> nat \<Rightarrow> 'e \<Rightarrow> proc_result \<times> 'e"
  fe_clock :: "'e \<Rightarrow> real"

definition python_path :: "'e funnel_env \<Rightarrow> string option \<Rightarrow> string" where
  "python_path env cwd =
     (case cwd of
        None \<Rightarrow> fe_existing_path env
      | Some d \<Rightarrow>
          if d = [] then fe_existing_path env
          else if fe_existing_path env = [] then d
          else d @ '':'' @ fe_existing_path env)"

definition join_lines :: "string list \<Rightarrow> string" where
  "join_lines parts = (case parts of [] \<Rightarrow> [] | p # ps \<Rightarrow> p @ concat (map (\<lambda>q. CHR 0x0A # q) ps))"

definition run_cmd :: "'e funnel_env \<Rightarrow> string list \<Rightarrow> string option \<Rightarrow> nat \<Rightarrow> 'e \<Rightarrow> (py_error + bool \<times> string) \<times> 'e" where
  "run_cmd env cmd cwd timeout e =
     (case fe_run env cmd cwd (python_path env cwd) timeout e of
        (NotRun err, e) \<Rightarrow> (Inl err, e)
      | (TimedOut, e) \<Rightarrow> (Inr (False, ''Timeout''), e)
      | (Exited returncode out err, e) \<Rightarrow>
          (Inr (returncode = 0, py_strip (join_lines (filter (\<lambda>part. part \<noteq> []) [out, err]))), e))"

section \<open>Counting tests\<close>

text \<open>
  \<open>re.findall(r"(\d+)\s+(passed|failed|error|errors)", output)\<close>. At one place the digits and the
  blanks are taken as far as they go: giving one back would leave a digit before the blanks, or a
  blank before the label. \<open>errors\<close> is never chosen, since \<open>error\<close> matches before it.
\<close>

definition count_labels :: "string list" where
  "count_labels = [''passed'', ''failed'', ''error'', ''errors'']"

definition match_count :: "string \<Rightarrow> (string \<times> string \<times> string) option" where
  "match_count s =
     (let digits = takeWhile is_digit s;
          blanks = takeWhile py_isspace (dropWhile is_digit s);
          rest = dropWhile py_isspace (dropWhile is_digit s)
      in if digits = [] \<or> blanks = [] then None
         else map_option (\<lambda>label. (digits, label, drop (length label) rest)) (find (\<lambda>label. is_prefix label rest) count_labels))"

lemma match_count_shorter: "match_count s = Some (ds, label, rest) \<Longrightarrow> length rest < length s"
proof -
  assume m: "match_count s = Some (ds, label, rest)"
  then have "takeWhile is_digit s \<noteq> []"
    and rest: "rest = drop (length label) (dropWhile py_isspace (dropWhile is_digit s))"
    by (auto simp: match_count_def Let_def split: if_splits)
  then have "length (dropWhile is_digit s) < length s"
    by (cases s) (auto simp: le_imp_less_Suc length_dropWhile_le split: if_splits)
  moreover have "length rest \<le> length (dropWhile is_digit s)"
    unfolding rest using length_dropWhile_le [of py_isspace "dropWhile is_digit s"] by simp
  ultimately show ?thesis by simp
qed

function find_counts :: "string \<Rightarrow> (string \<times> string) list" where
  "find_counts [] = []"
| "find_counts (c # cs) =
     (case match_count (c # cs) of
        None \<Rightarrow> find_counts cs
      | Some (digits, label, rest) \<Rightarrow> (digits, label) # find_counts rest)"
  by pat_completeness auto
termination
  by (relation "measure length") (auto dest: match_count_shorter)

fun add_counts :: "(string \<times> string) list \<Rightarrow> int \<times> int \<Rightarrow> py_error + int \<times> int" where
  "add_counts [] counts = Inr counts"
| "add_counts ((digits, label) # found) (passed, failed) =
     (if max_str_digits < length digits then Inl ValueError
      else let v = int (digits_val digits)
           in add_counts found (if label = ''passed'' then (passed + v, failed) else (passed, failed + v)))"

definition parse_pytest_counts :: "string \<Rightarrow> py_error + int \<times> int" where
  "parse_pytest_counts output = add_counts (find_counts output) (0, 0)"

section \<open>The stages\<close>

record funnel_result =
  fr_success :: bool
  fr_tests_passed :: int
  fr_tests_failed :: int
  fr_error :: "string option"
  fr_runtime :: real
  fr_stages :: "(string \<times> real) list"
  fr_failed_stage :: "string option"
  fr_full_suite_attempted :: bool

type_synonym 'e funnel_outcome = "(py_error + funnel_result) \<times> 'e"

definition funnel_fail ::
    "'e funnel_env \<Rightarrow> real \<Rightarrow> (string \<times> real) list \<Rightarrow> string \<Rightarrow> int \<Rightarrow> int \<Rightarrow> string \<Rightarrow> 'e \<Rightarrow> 'e funnel_outcome" where
  "funnel_fail env started stages error tests_passed tests_failed failed_stage e =
     (Inr \<lparr>fr_success = False, fr_tests_passed = tests_passed, fr_tests_failed = tests_failed,
        fr_error = Some error, fr_runtime = fe_clock env e - started, fr_stages = stages,
        fr_failed_stage = Some failed_stage, fr_full_suite_attempted = (failed_stage = ''full_suite'')\<rparr>, e)"

text \<open>A command with its time, under the name the result gives it.\<close>

definition funnel_stage ::
    "'e funnel_env \<Rightarrow> string \<Rightarrow> string list \<Rightarrow> string option \<Rightarrow> nat \<Rightarrow> (string \<times> real) list
       \<Rightarrow> (bool \<Rightarrow> string \<Rightarrow> (string \<times> real) list \<Rightarrow> 'e \<Rightarrow> 'e funnel_outcome) \<Rightarrow> 'e \<Rightarrow> 'e funnel_outcome" where
  "funnel_stage env name cmd cwd timeout stages continue e =
     (case run_cmd env cmd cwd timeout e of
        (Inl err, e') \<Rightarrow> (Inl err, e')
      | (Inr (ok, output), e') \<Rightarrow>
          continue ok output (stages @ [(name, (fe_clock env e' - fe_clock env e) * 1000)]) e')"

definition lint_cmd :: "'e funnel_env \<Rightarrow> string \<Rightarrow> string list" where
  "lint_cmd env target_file = [fe_tool env ''ruff'', ''check'', target_file, ''--select'', ''E,F'']"

definition type_cmd :: "'e funnel_env \<Rightarrow> string \<Rightarrow> string list" where
  "type_cmd env target_file = [fe_tool env ''mypy'', target_file, ''--ignore-missing-imports'']"

definition targeted_cmd :: "'e funnel_env \<Rightarrow> string \<Rightarrow> string list" where
  "targeted_cmd env target_test = [fe_tool env ''pytest'', target_test, ''-q'', ''-x'', ''--disable-warnings'']"

definition full_suite_cmd :: "'e funnel_env \<Rightarrow> string \<Rightarrow> string option \<Rightarrow> string list" where
  "full_suite_cmd env target_test cwd =
     [fe_tool env ''pytest'', ''-q'', ''--disable-warnings''] @ (if \<not> truthy cwd then [target_test] else [])"

definition full_suite_stage ::
    "'e funnel_env \<Rightarrow> real \<Rightarrow> string \<Rightarrow> string option \<Rightarrow> int \<Rightarrow> (string \<times> real) list \<Rightarrow> 'e \<Rightarrow> 'e funnel_outcome" where
  "full_suite_stage env started target_test cwd targeted_passed stages =
     funnel_stage env ''full_suite_ms'' (full_suite_cmd env target_test cwd) cwd 60 stages (\<lambda>ok output stages e.
       case parse_pytest_counts output of
         Inl err \<Rightarrow> (Inl err, e)
       | Inr (full_passed, full_failed) \<Rightarrow>
           (Inr \<lparr>fr_success = ok,
              fr_tests_passed = (if full_passed \<noteq> 0 then full_passed else targeted_passed),
              fr_tests_failed = (if full_failed \<noteq> 0 then full_failed else if ok then 0 else 1),
              fr_error = (if ok then None else Some (or_list output ''RegressionError'')),
              fr_runtime = fe_clock env e - started, fr_stages = stages,
              fr_failed_stage = (if ok then None else Some ''full_suite''),
              fr_full_suite_attempted = True\<rparr>, e))"

definition targeted_stage ::
    "'e funnel_env \<Rightarrow> real \<Rightarrow> string \<Rightarrow> string option \<Rightarrow> (string \<times> real) list \<Rightarrow> 'e \<Rightarrow> 'e funnel_outcome" where
  "targeted_stage env started target_test cwd stages =
     funnel_stage env ''targeted_pytest_ms'' (targeted_cmd env target_test) cwd 30 stages (\<lambda>ok output stages e.
       case parse_pytest_counts output of
         Inl err \<Rightarrow> (Inl err, e)
       | Inr (targeted_passed, targeted_failed) \<Rightarrow>
           if \<not> ok
           then funnel_fail env started stages (or_list output ''TargetTestFailed'') targeted_passed
                  (if targeted_failed \<noteq> 0 then targeted_failed else 1) ''targeted_pytest'' e
           else full_suite_stage env started target_test cwd targeted_passed stages e)"

definition typecheck_stage ::
    "'e funnel_env \<Rightarrow> real \<Rightarrow> string \<Rightarrow> string \<Rightarrow> string option \<Rightarrow> (string \<times> real) list \<Rightarrow> 'e \<Rightarrow> 'e funnel_outcome" where
  "typecheck_stage env started target_file target_test cwd stages =
     funnel_stage env ''typecheck_ms'' (type_cmd env target_file) cwd 20 stages (\<lambda>ok output stages e.
       if \<not> ok then funnel_fail env started stages (or_list output ''TypeError'') 0 999 ''typecheck'' e
       else targeted_stage env started target_test cwd stages e)"

definition execute_funnel :: "'e funnel_env \<Rightarrow> string \<Rightarrow> string \<Rightarrow> string option \<Rightarrow> 'e \<Rightarrow> 'e funnel_outcome" where
  "execute_funnel env target_file target_test cwd e =
     (let started = fe_clock env e
      in funnel_stage env ''lint_ms'' (lint_cmd env target_file) cwd 20 [] (\<lambda>ok output stages e.
           if \<not> ok then funnel_fail env started stages (or_list output ''LintError'') 0 999 ''lint'' e
           else typecheck_stage env started target_file target_test cwd stages e) e)"

end
