(* ===== verification/Executor.thy ===== *)
theory Executor
  imports Dispatcher Merger Funnel
begin

text \<open>
  The simulator that stands for the isolated executors (\<open>simulator_executor.py\<close>): it lays the
  capsule out in a temporary directory, runs the funnel there, stores the evidence
  (\<open>cas_client.py\<close>), signs the verification pack and publishes it. The machine (files, processes,
  the object store) is a parameter with a state of any type.
\<close>

section \<open>The workspace\<close>

record 'e workspace_api =
  ws_tmp :: "'e \<Rightarrow> (py_error + string list) \<times> 'e"
  ws_mkdir :: "string list \<Rightarrow> 'e \<Rightarrow> py_error option \<times> 'e"
  ws_write :: "string list \<Rightarrow> string \<Rightarrow> 'e \<Rightarrow> py_error option \<times> 'e"
  ws_cleanup :: "string list \<Rightarrow> 'e \<Rightarrow> py_error option \<times> 'e"

text \<open>\<open>Path(p).parts\<close> of a relative path.\<close>

definition path_parts :: "string \<Rightarrow> string list" where
  "path_parts p = filter (\<lambda>x. x \<noteq> '''' \<and> x \<noteq> ''.'') (split_slash [] p)"

definition is_absolute :: "string \<Rightarrow> bool" where
  "is_absolute p \<longleftrightarrow> (p \<noteq> [] \<and> hd p = CHR ''/'')"

definition safe_target_path :: "string list \<Rightarrow> string \<Rightarrow> py_error + string list" where
  "safe_target_path base relative_path =
     (if is_absolute relative_path \<or> ''..'' \<in> set (path_parts relative_path) then Inl ValueError
      else Inr (base @ path_parts relative_path))"

text \<open>Steps on the machine that may raise, one after the other.\<close>

definition then_step :: "py_error option \<times> 'e \<Rightarrow> ('e \<Rightarrow> py_error option \<times> 'e) \<Rightarrow> py_error option \<times> 'e" where
  "then_step r f = (case r of (Some err, e) \<Rightarrow> (Some err, e) | (None, e) \<Rightarrow> f e)"

definition with_target :: "py_error + string list \<Rightarrow> (string list \<Rightarrow> 'e \<Rightarrow> py_error option \<times> 'e) \<Rightarrow> 'e \<Rightarrow> py_error option \<times> 'e" where
  "with_target target f e = (case target of Inl err \<Rightarrow> (Some err, e) | Inr p \<Rightarrow> f p e)"

fun materialize_snapshot :: "'e workspace_api \<Rightarrow> string list \<Rightarrow> (string \<times> string) list \<Rightarrow> 'e \<Rightarrow> py_error option \<times> 'e" where
  "materialize_snapshot fs base [] e = (None, e)"
| "materialize_snapshot fs base ((relative_path, content) # snapshot) e =
     then_step
       (with_target (safe_target_path base relative_path) (\<lambda>target e.
          then_step (ws_mkdir fs (butlast target) e) (ws_write fs target content)) e)
       (materialize_snapshot fs base snapshot)"

definition capsule_source :: "task_capsule \<Rightarrow> string" where
  "capsule_source capsule = or_list (tc_source_relpath capsule) (path_name (tc_source_path capsule))"

definition capsule_test :: "task_capsule \<Rightarrow> string" where
  "capsule_test capsule = or_list (tc_test_relpath capsule) (path_name (tc_test_path capsule))"

definition prepare_workspace :: "'e workspace_api \<Rightarrow> string list \<Rightarrow> task_capsule \<Rightarrow> 'e \<Rightarrow> py_error option \<times> 'e" where
  "prepare_workspace fs repo capsule e =
     then_step (ws_mkdir fs repo e) (\<lambda>e.
     then_step (materialize_snapshot fs repo (tc_repo_snapshot capsule) e)
       (with_target (safe_target_path repo (capsule_source capsule)) (\<lambda>source.
        with_target (safe_target_path repo (capsule_test capsule)) (\<lambda>test e.
          then_step (ws_mkdir fs (butlast source) e) (\<lambda>e.
          then_step (ws_mkdir fs (butlast test) e) (\<lambda>e.
          then_step (ws_write fs source (tc_code capsule) e)
            (ws_write fs test (tc_test_code capsule))))))))"

section \<open>The funnel as a process\<close>

definition funnel_json :: "funnel_result \<Rightarrow> (string \<times> json) list" where
  "funnel_json r =
     [(''success'', JBool (fr_success r)), (''tests_passed'', JInt (fr_tests_passed r)),
      (''tests_failed'', JInt (fr_tests_failed r)), (''error'', js_of_opt_str (fr_error r)),
      (''runtime'', JFloat (fr_runtime r)),
      (''meta'', JObj
         [(''stages'', JObj (map (\<lambda>(name, ms). (name, JFloat ms)) (fr_stages r))),
          (''failed_stage'', js_of_opt_str (fr_failed_stage r)),
          (''full_suite_attempted'', JBool (fr_full_suite_attempted r))])]"

text \<open>
  What the funnel's process prints: the result as the one document on its standard output, or,
  when an exception ends it, nothing there and a traceback on the other.
\<close>

definition funnel_main ::
    "'e funnel_env \<Rightarrow> (py_error \<Rightarrow> string) \<Rightarrow> string \<Rightarrow> string \<Rightarrow> string option \<Rightarrow> 'e \<Rightarrow> ((string \<times> json) list option \<times> string) \<times> 'e" where
  "funnel_main env traceback target_file target_test cwd e =
     (case execute_funnel env target_file target_test cwd e of
        (Inl err, e) \<Rightarrow> ((None, traceback err), e)
      | (Inr r, e) \<Rightarrow> ((Some (funnel_json r), ''''), e))"

section \<open>Evidence\<close>

text \<open>
  The artifact store: a bundle goes to the object store under the digest of its text, or, when
  there is none or it fails, to a local file of that name.
\<close>

record 'e artifact_api =
  as_digest :: "json \<Rightarrow> string"
  as_client :: "py_error + bool"
  as_bucket :: string
  as_buckets :: "'e \<Rightarrow> (py_error + string list) \<times> 'e"
  as_create_bucket :: "string \<Rightarrow> 'e \<Rightarrow> py_error option \<times> 'e"
  as_put_object :: "string \<Rightarrow> string \<Rightarrow> json \<Rightarrow> 'e \<Rightarrow> py_error option \<times> 'e"
  as_write_local :: "string \<Rightarrow> json \<Rightarrow> 'e \<Rightarrow> py_error option \<times> 'e"
  as_local_path :: "string \<Rightarrow> string"

definition object_name :: "'e artifact_api \<Rightarrow> string \<Rightarrow> json \<Rightarrow> string" where
  "object_name api namespace payload = namespace @ ''/'' @ as_digest api payload @ ''.json''"

definition put_remote :: "'e artifact_api \<Rightarrow> string \<Rightarrow> json \<Rightarrow> 'e \<Rightarrow> py_error option \<times> 'e" where
  "put_remote api name payload e =
     (case as_buckets api e of
        (Inl err, e) \<Rightarrow> (Some err, e)
      | (Inr existing, e) \<Rightarrow>
          then_step (if as_bucket api \<notin> set existing then as_create_bucket api (as_bucket api) e else (None, e))
            (as_put_object api (as_bucket api) name payload))"

definition put_bundle :: "'e artifact_api \<Rightarrow> string \<Rightarrow> json \<Rightarrow> 'e \<Rightarrow> (py_error + string) \<times> 'e" where
  "put_bundle api namespace payload e =
     (let name = object_name api namespace payload;
          local = (\<lambda>e. case as_write_local api name payload e of
             (Some err, e) \<Rightarrow> (Inl err, e) | (None, e) \<Rightarrow> (Inr (as_local_path api name), e))
      in case as_client api of
           Inl err \<Rightarrow> (Inl err, e)
         | Inr False \<Rightarrow> local e
         | Inr True \<Rightarrow>
             (case put_remote api name payload e of
                (None, e) \<Rightarrow> (Inr (''s3://'' @ as_bucket api @ ''/'' @ name), e)
              | (Some err, e) \<Rightarrow> local e))"

section \<open>Executing a capsule\<close>

record ('k, 'v, 's, 'e) executor_env =
  ex_redis :: "'s redis"
  ex_node_id :: string
  ex_signing_key :: 'k
  ex_crypto :: "('k, 'v) crypto"
  ex_store :: "'e artifact_api"
  ex_funnel :: "'e funnel_env"
  ex_fs :: "'e workspace_api"
  ex_sha256 :: "string \<Rightarrow> string"
  ex_error_text :: "py_error \<Rightarrow> string"
  ex_traceback :: "py_error \<Rightarrow> string"

definition unknown_result :: "(string \<times> json) list" where
  "unknown_result =
     [(''success'', JBool False), (''tests_passed'', JInt 0), (''tests_failed'', JInt 1),
      (''error'', JStr ''Unknown''), (''runtime'', JFloat 0), (''meta'', JObj [])]"

definition elapsed_ms :: "'e funnel_env \<Rightarrow> 'e \<Rightarrow> 'e \<Rightarrow> real" where
  "elapsed_ms env e0 e1 = (fe_clock env e1 - fe_clock env e0) * 1000"

text \<open>
  The body of the \<open>with\<close> statement: the result so far, the time the layout took, and the exception
  that ended the body, if one did.
\<close>

definition run_in_directory ::
    "('k, 'v, 's, 'e) executor_env \<Rightarrow> task_capsule \<Rightarrow> string list \<Rightarrow> 'e \<Rightarrow> ((string \<times> json) list \<times> real \<times> py_error option) \<times> 'e" where
  "run_in_directory env capsule tmp_dir e =
     (let tmp_repo = tmp_dir @ [''repo'']
      in case prepare_workspace (ex_fs env) tmp_repo capsule e of
           (Some err, e) \<Rightarrow> ((unknown_result, 0, Some err), e)
         | (None, e1) \<Rightarrow>
             (case (safe_target_path tmp_repo (capsule_source capsule), safe_target_path tmp_repo (capsule_test capsule)) of
                (Inr source, Inr test) \<Rightarrow>
                  (case funnel_main (ex_funnel env) (ex_traceback env) (path_text source) (path_text test) (Some (path_text tmp_repo)) e1 of
                     ((stdout, stderr), e2) \<Rightarrow>
                       (((case stdout of
                            Some printed \<Rightarrow> printed
                          | None \<Rightarrow> dict_set ''error'' (JStr (or_list (py_strip stderr) ''NoOutput'')) unknown_result),
                         elapsed_ms (ex_funnel env) e e1, None), e2))
              | (Inl err, _) \<Rightarrow> ((unknown_result, 0, Some err), e1)
              | (_, Inl err) \<Rightarrow> ((unknown_result, 0, Some err), e1)))"

definition run_capsule ::
    "('k, 'v, 's, 'e) executor_env \<Rightarrow> task_capsule \<Rightarrow> 'e \<Rightarrow> ((string \<times> json) list \<times> real) \<times> 'e" where
  "run_capsule env capsule e =
     (let failed = (\<lambda>err result. dict_set ''error'' (JStr (ex_error_text env err)) result)
      in case ws_tmp (ex_fs env) e of
           (Inl err, e) \<Rightarrow> ((failed err unknown_result, 0), e)
         | (Inr tmp_dir, e) \<Rightarrow>
             (case run_in_directory env capsule tmp_dir e of
                ((result, ms, raised), e) \<Rightarrow>
                  (case ws_cleanup (ex_fs env) tmp_dir e of
                     (cleanup_raised, e) \<Rightarrow>
                       (case (cleanup_raised, raised) of
                          (Some err, _) \<Rightarrow> ((failed err result, ms), e)
                        | (None, Some err) \<Rightarrow> ((failed err result, ms), e)
                        | (None, None) \<Rightarrow> ((result, ms), e)))))"

text \<open>
  Reading the result's fields. The values the funnel prints are a truth value, integers and a text
  or null; a value of another type, which it never prints, raises here.
\<close>

definition result_success :: "(string \<times> json) list \<Rightarrow> py_error + bool" where
  "result_success result = (case map_of result ''success'' of
     None \<Rightarrow> Inr False | Some j \<Rightarrow> (case js_bool j of None \<Rightarrow> Inl TypeError | Some b \<Rightarrow> Inr b))"

definition result_count :: "(string \<times> json) list \<Rightarrow> string \<Rightarrow> int \<Rightarrow> py_error + int" where
  "result_count result f dflt = (case map_of result f of
     None \<Rightarrow> Inr dflt | Some j \<Rightarrow> (case js_int j of None \<Rightarrow> Inl TypeError | Some n \<Rightarrow> Inr n))"

definition result_error :: "(string \<times> json) list \<Rightarrow> py_error + string option" where
  "result_error result = (case map_of result ''error'' of
     None \<Rightarrow> Inr None | Some j \<Rightarrow> (case js_nullable js_str j of None \<Rightarrow> Inl TypeError | Some s \<Rightarrow> Inr s))"

definition result_meta :: "(string \<times> json) list \<Rightarrow> json" where
  "result_meta result = (case map_of result ''meta'' of Some (JObj m) \<Rightarrow> JObj m | _ \<Rightarrow> JObj [])"

definition evidence :: "('k, 'v, 's, 'e) executor_env \<Rightarrow> task_capsule \<Rightarrow> (string \<times> json) list \<Rightarrow> json" where
  "evidence env capsule result =
     JObj [(''run_id'', JStr (tc_run_id capsule)), (''capsule'', capsule_to_json capsule),
       (''funnel_result'', JObj result), (''executor'', JStr (ex_node_id env))]"

definition pack_meta :: "task_capsule \<Rightarrow> real \<Rightarrow> real \<Rightarrow> json \<Rightarrow> (string \<times> json) list" where
  "pack_meta capsule materialize_ms artifact_ms funnel_meta =
     [(''transport'', JObj [(''repo_snapshot_bytes'', JInt (tc_repo_snapshot_bytes capsule)),
         (''repo_snapshot_files'', JInt (tc_repo_snapshot_files capsule)),
         (''repo_snapshot_digest'', JStr (tc_repo_snapshot_digest capsule))]),
      (''simulator'', JObj [(''materialize_ms'', JFloat materialize_ms), (''artifact_write_ms'', JFloat artifact_ms)]),
      (''funnel'', funnel_meta)]"

definition execution_pack ::
    "('k, 'v, 's, 'e) executor_env \<Rightarrow> task_capsule \<Rightarrow> (string \<times> json) list \<Rightarrow> real \<Rightarrow> string
       \<Rightarrow> (string \<times> json) list \<Rightarrow> py_error + verification_pack" where
  "execution_pack env capsule result runtime artifact_uri meta =
     py_bind (result_success result) (\<lambda>success.
     py_bind (result_count result ''tests_passed'' 0) (\<lambda>tests_passed.
     py_bind (result_count result ''tests_failed'' 1) (\<lambda>tests_failed.
     py_bind (result_error result) (\<lambda>error_signature.
       Inr \<lparr>vp_capsule_id = tc_id capsule, vp_run_id = tc_run_id capsule, vp_success = success,
            vp_runtime = runtime, vp_node_id = ex_node_id env, vp_hardware_isolated = False,
            vp_inputs_digest = ex_sha256 env (tc_code capsule), vp_tests_passed = tests_passed,
            vp_tests_failed = tests_failed, vp_error_signature = error_signature, vp_attestation = None,
            vp_artifact_uri = Some artifact_uri, vp_meta = meta\<rparr>))))"

text \<open>The pack on the stream, and the place given back.\<close>

definition publish :: "('k, 'v, 's, 'e) executor_env \<Rightarrow> verification_pack \<Rightarrow> 's world \<Rightarrow> 's world" where
  "publish env pack w =
     uncount_inflight (ex_redis env)
       (w_exec (ex_redis env)
         [CXAdd STREAM_RESULTS (Doc (pack_to_json (sign_pack (ex_crypto env) pack (ex_signing_key env))))] w)"

definition execute_capsule ::
    "('k, 'v, 's, 'e) executor_env \<Rightarrow> task_capsule \<Rightarrow> 's world \<times> 'e \<Rightarrow> ('s world \<times> 'e) outcome" where
  "execute_capsule env capsule st =
     (case st of (w, e0) \<Rightarrow>
        (case run_capsule env capsule e0 of
           ((result, materialize_ms), e1) \<Rightarrow>
             (case put_bundle (ex_store env) ''executions'' (evidence env capsule result) e1 of
                (Inl err, e2) \<Rightarrow> Crash err (w, e2)
              | (Inr artifact_uri, e2) \<Rightarrow>
                  (let clock = fe_clock (ex_funnel env);
                       meta = pack_meta capsule materialize_ms (elapsed_ms (ex_funnel env) e1 e2) (result_meta result)
                   in case execution_pack env capsule result (clock e2 - clock e0) artifact_uri meta of
                        Inl err \<Rightarrow> Crash err (w, e2)
                      | Inr pack \<Rightarrow> Done (publish env pack w, e2)))))"

text \<open>A connection: the capsule is the document received; a connection without one is ignored.\<close>

definition handle_connection ::
    "('k, 'v, 's, 'e) executor_env \<Rightarrow> rtext option \<Rightarrow> 's world \<times> 'e \<Rightarrow> ('s world \<times> 'e) outcome" where
  "handle_connection env data st =
     (case data of
        None \<Rightarrow> Done st
      | Some v \<Rightarrow>
          (case text_json v of
             None \<Rightarrow> Crash ValueError st
           | Some j \<Rightarrow> (case capsule_from_json j of None \<Rightarrow> Crash TypeError st | Some capsule \<Rightarrow> execute_capsule env capsule st)))"

end
