(* ===== verification/FunnelProps.thy ===== *)
theory FunnelProps
  imports Funnel
begin

text \<open>What the funnel's verdict says of the four commands, and how it counts the tests.\<close>

section \<open>The verdict\<close>

lemma add_counts_nonneg:
  "add_counts found (p, f) = Inr (p', f') \<Longrightarrow> p \<le> p' \<and> f \<le> f'"
proof (induction found arbitrary: p f)
  case (Cons x found)
  obtain digits label where x: "x = (digits, label)" by fastforce
  with Cons.prems Cons.IH show ?case
    by (cases "label = ''passed''") (fastforce simp: Let_def split: if_splits)+
qed simp

lemma parse_pytest_counts_nonneg: "parse_pytest_counts out = Inr (p, f) \<Longrightarrow> 0 \<le> p \<and> 0 \<le> f"
  using add_counts_nonneg [of "find_counts out" 0 0] by (simp add: parse_pytest_counts_def)

text \<open>The command ended by itself with exit status 0, and printed \<open>printed\<close>.\<close>

definition exits_zero :: "'e funnel_env \<Rightarrow> string list \<Rightarrow> string option \<Rightarrow> nat \<Rightarrow> 'e \<Rightarrow> 'e \<Rightarrow> string \<Rightarrow> bool" where
  "exits_zero env cmd cwd timeout e e' printed \<longleftrightarrow>
     (\<exists>out err. fe_run env cmd cwd (python_path env cwd) timeout e = (Exited 0 out err, e')
        \<and> printed = py_strip (join_lines (filter (\<lambda>part. part \<noteq> []) [out, err])))"

lemma run_cmd_ok: "run_cmd env cmd cwd timeout e = (Inr (True, printed), e') \<longleftrightarrow> exits_zero env cmd cwd timeout e e' printed"
  by (auto simp: run_cmd_def exits_zero_def split: prod.splits proc_result.splits)

lemma stage_cases:
  assumes "funnel_stage env name cmd cwd timeout stages continue e = (Inr r, e')"
  obtains (passes) printed e1 t where "exits_zero env cmd cwd timeout e e1 printed"
      and "continue True printed (stages @ [(name, t)]) e1 = (Inr r, e')"
  | (fails) printed e1 t where "\<And>e2 printed. \<not> exits_zero env cmd cwd timeout e e2 printed"
      and "continue False printed (stages @ [(name, t)]) e1 = (Inr r, e')"
proof -
  obtain v e1 where run: "run_cmd env cmd cwd timeout e = (v, e1)" by fastforce
  with assms obtain ok printed where v: "v = Inr (ok, printed)"
    by (auto simp: funnel_stage_def split: sum.splits)
  show thesis
  proof (cases ok)
    case True
    with assms run v passes [of e1 printed "(fe_clock env e1 - fe_clock env e) * 1000"] run_cmd_ok [of env cmd cwd timeout e printed e1] show thesis by (auto simp: funnel_stage_def)
  next
    case False
    with run v have "\<not> exits_zero env cmd cwd timeout e e2 out" for e2 out
      by (simp flip: run_cmd_ok)
    with assms run v False fails [of printed "(fe_clock env e1 - fe_clock env e) * 1000" e1] show thesis by (auto simp: funnel_stage_def)
  qed
qed

definition cannot_exit_zero :: "'e funnel_env \<Rightarrow> string list \<Rightarrow> string option \<Rightarrow> nat \<Rightarrow> 'e \<Rightarrow> bool" where
  "cannot_exit_zero env cmd cwd timeout e \<longleftrightarrow> (\<forall>e' printed. \<not> exits_zero env cmd cwd timeout e e' printed)"

text \<open>What a result says of itself, whichever stage made it.\<close>

definition consistent_result :: "funnel_result \<Rightarrow> bool" where
  "consistent_result r \<longleftrightarrow> (fr_success r \<longleftrightarrow> fr_error r = None) \<and> (fr_success r \<longleftrightarrow> fr_failed_stage r = None)
     \<and> (\<not> fr_success r \<longrightarrow> 1 \<le> fr_tests_failed r) \<and> 0 \<le> fr_tests_passed r
     \<and> (fr_full_suite_attempted r \<longleftrightarrow> fr_failed_stage r \<in> {None, Some ''full_suite''})"

lemma exits_zero_unique: "exits_zero env cmd cwd t e e1 o1 \<Longrightarrow> exits_zero env cmd cwd t e e2 o2 \<Longrightarrow> e1 = e2"
  by (auto simp: exits_zero_def)

text \<open>
  The stages from one on, with what each may leave: \<open>won\<close> holds of the state after the last one,
  \<open>lost\<close> of the label of the one that failed.
\<close>

definition stage_verdict :: "funnel_result \<Rightarrow> bool \<Rightarrow> (string \<Rightarrow> bool) \<Rightarrow> bool" where
  "stage_verdict r won lost \<longleftrightarrow> consistent_result r \<and> fr_success r = won \<and> (\<forall>s. fr_failed_stage r = Some s \<longleftrightarrow> lost s)"

lemma verdict_of_failure:
  assumes "funnel_fail env started stages error p f stage e = (Inr r, e')" and "1 \<le> f" and "0 \<le> p"
    and "cannot_exit_zero env cmd cwd t e0"
  shows "stage_verdict r (\<exists>e1 o1. exits_zero env cmd cwd t e0 e1 o1 \<and> won e1)
     (\<lambda>s. s = stage \<and> cannot_exit_zero env cmd cwd t e0 \<or> (\<exists>e1 o1. exits_zero env cmd cwd t e0 e1 o1 \<and> lost e1 s))"
  using assms by (auto simp: funnel_fail_def stage_verdict_def consistent_result_def cannot_exit_zero_def)

lemma verdict_of_next:
  assumes "stage_verdict r (won e1) (lost e1)" and "exits_zero env cmd cwd t e0 e1 o1"
  shows "stage_verdict r (\<exists>e1 o1. exits_zero env cmd cwd t e0 e1 o1 \<and> won e1)
     (\<lambda>s. s = stage \<and> cannot_exit_zero env cmd cwd t e0 \<or> (\<exists>e1 o1. exits_zero env cmd cwd t e0 e1 o1 \<and> lost e1 s))"
proof -
  have same: "(\<exists>e2 o2. exits_zero env cmd cwd t e0 e2 o2 \<and> P e2) \<longleftrightarrow> P e1" for P
    using assms(2) exits_zero_unique by metis
  show ?thesis
    using assms unfolding same stage_verdict_def cannot_exit_zero_def by blast
qed

lemma full_suite_verdict:
  assumes "full_suite_stage env started tt cwd targeted_passed stages e = (Inr r, e')" and "0 \<le> targeted_passed"
  shows "stage_verdict r (\<exists>printed. exits_zero env (full_suite_cmd env tt cwd) cwd 60 e e' printed)
    (\<lambda>s. s = ''full_suite'' \<and> cannot_exit_zero env (full_suite_cmd env tt cwd) cwd 60 e)"
  using assms(1) unfolding full_suite_stage_def
proof (cases rule: stage_cases)
  case (passes printed e1 t)
  then show ?thesis
    using assms(2) parse_pytest_counts_nonneg [of printed]
    by (fastforce simp: stage_verdict_def consistent_result_def cannot_exit_zero_def split: sum.splits prod.splits)
next
  case (fails printed e1 t)
  then show ?thesis
    using assms(2) parse_pytest_counts_nonneg [of printed]
    by (fastforce simp: stage_verdict_def consistent_result_def cannot_exit_zero_def split: sum.splits prod.splits)
qed

lemma targeted_verdict:
  assumes "targeted_stage env started tt cwd stages e = (Inr r, e')"
  shows "stage_verdict r (\<exists>e1 o1. exits_zero env (targeted_cmd env tt) cwd 30 e e1 o1
      \<and> (\<exists>o2. exits_zero env (full_suite_cmd env tt cwd) cwd 60 e1 e' o2))
    (\<lambda>s. s = ''targeted_pytest'' \<and> cannot_exit_zero env (targeted_cmd env tt) cwd 30 e
      \<or> (\<exists>e1 o1. exits_zero env (targeted_cmd env tt) cwd 30 e e1 o1
         \<and> s = ''full_suite'' \<and> cannot_exit_zero env (full_suite_cmd env tt cwd) cwd 60 e1))"
  using assms unfolding targeted_stage_def
proof (cases rule: stage_cases)
  case (passes printed e1 t)
  then obtain p f where parse: "parse_pytest_counts printed = Inr (p, f)"
    and full: "full_suite_stage env started tt cwd p (stages @ [(''targeted_pytest_ms'', t)]) e1 = (Inr r, e')"
    by (auto split: sum.splits)
  have "0 \<le> p" using parse_pytest_counts_nonneg [OF parse] by simp
  show ?thesis by (rule verdict_of_next [OF _ passes(1)]) (rule full_suite_verdict [OF full \<open>0 \<le> p\<close>])
next
  case (fails printed e1 t)
  then obtain p f where parse: "parse_pytest_counts printed = Inr (p, f)"
    and failed: "funnel_fail env started (stages @ [(''targeted_pytest_ms'', t)]) (or_list printed ''TargetTestFailed'') p
      (if f \<noteq> 0 then f else 1) ''targeted_pytest'' e1 = (Inr r, e')"
    by (auto split: sum.splits)
  have "cannot_exit_zero env (targeted_cmd env tt) cwd 30 e" using fails(1) unfolding cannot_exit_zero_def by blast
  from verdict_of_failure [OF failed _ _ this] parse_pytest_counts_nonneg [OF parse] show ?thesis by auto
qed

lemma typecheck_verdict:
  assumes "typecheck_stage env started tf tt cwd stages e = (Inr r, e')"
  shows "stage_verdict r (\<exists>e1 o1. exits_zero env (type_cmd env tf) cwd 20 e e1 o1
      \<and> (\<exists>e2 o2. exits_zero env (targeted_cmd env tt) cwd 30 e1 e2 o2
        \<and> (\<exists>o3. exits_zero env (full_suite_cmd env tt cwd) cwd 60 e2 e' o3)))
    (\<lambda>s. s = ''typecheck'' \<and> cannot_exit_zero env (type_cmd env tf) cwd 20 e
      \<or> (\<exists>e1 o1. exits_zero env (type_cmd env tf) cwd 20 e e1 o1
         \<and> (s = ''targeted_pytest'' \<and> cannot_exit_zero env (targeted_cmd env tt) cwd 30 e1
           \<or> (\<exists>e2 o2. exits_zero env (targeted_cmd env tt) cwd 30 e1 e2 o2
              \<and> s = ''full_suite'' \<and> cannot_exit_zero env (full_suite_cmd env tt cwd) cwd 60 e2))))"
  using assms unfolding typecheck_stage_def
proof (cases rule: stage_cases)
  case (passes printed e1 t)
  then have "targeted_stage env started tt cwd (stages @ [(''typecheck_ms'', t)]) e1 = (Inr r, e')" by simp
  from targeted_verdict [OF this] show ?thesis by (rule verdict_of_next [OF _ passes(1)])
next
  case (fails printed e1 t)
  then have failed: "funnel_fail env started (stages @ [(''typecheck_ms'', t)]) (or_list printed ''TypeError'') 0 999 ''typecheck'' e1 = (Inr r, e')"
    by simp
  have "cannot_exit_zero env (type_cmd env tf) cwd 20 e" using fails(1) unfolding cannot_exit_zero_def by blast
  from verdict_of_failure [OF failed _ _ this] show ?thesis by auto
qed

lemma funnel_stages_verdict:
  assumes "execute_funnel env tf tt cwd e = (Inr r, e')"
  shows "stage_verdict r (\<exists>e1 o1. exits_zero env (lint_cmd env tf) cwd 20 e e1 o1
      \<and> (\<exists>e2 o2. exits_zero env (type_cmd env tf) cwd 20 e1 e2 o2
        \<and> (\<exists>e3 o3. exits_zero env (targeted_cmd env tt) cwd 30 e2 e3 o3
          \<and> (\<exists>o4. exits_zero env (full_suite_cmd env tt cwd) cwd 60 e3 e' o4))))
    (\<lambda>s. s = ''lint'' \<and> cannot_exit_zero env (lint_cmd env tf) cwd 20 e
      \<or> (\<exists>e1 o1. exits_zero env (lint_cmd env tf) cwd 20 e e1 o1
        \<and> (s = ''typecheck'' \<and> cannot_exit_zero env (type_cmd env tf) cwd 20 e1
          \<or> (\<exists>e2 o2. exits_zero env (type_cmd env tf) cwd 20 e1 e2 o2
             \<and> (s = ''targeted_pytest'' \<and> cannot_exit_zero env (targeted_cmd env tt) cwd 30 e2
               \<or> (\<exists>e3 o3. exits_zero env (targeted_cmd env tt) cwd 30 e2 e3 o3
                  \<and> s = ''full_suite'' \<and> cannot_exit_zero env (full_suite_cmd env tt cwd) cwd 60 e3))))))"
  using assms unfolding execute_funnel_def Let_def
proof (cases rule: stage_cases)
  case (passes printed e1 t)
  then have "typecheck_stage env (fe_clock env e) tf tt cwd ([] @ [(''lint_ms'', t)]) e1 = (Inr r, e')" by simp
  from typecheck_verdict [OF this] show ?thesis by (rule verdict_of_next [OF _ passes(1)])
next
  case (fails printed e1 t)
  then have failed: "funnel_fail env (fe_clock env e) ([] @ [(''lint_ms'', t)]) (or_list printed ''LintError'') 0 999 ''lint'' e1 = (Inr r, e')"
    by simp
  have "cannot_exit_zero env (lint_cmd env tf) cwd 20 e" using fails(1) unfolding cannot_exit_zero_def by blast
  from verdict_of_failure [OF failed _ _ this] show ?thesis by auto
qed

lemma flatten_stages:
  "(\<exists>e1 o1. A e1 o1 \<and> (\<exists>e2 o2. B e1 e2 o2 \<and> (\<exists>e3 o3. C e2 e3 o3 \<and> (\<exists>o4. D e3 o4))))
   \<longleftrightarrow> (\<exists>e1 e2 e3 o1 o2 o3 o4. A e1 o1 \<and> B e1 e2 o2 \<and> C e2 e3 o3 \<and> D e3 o4)"
  by blast

lemma funnel_verdict:
  assumes "execute_funnel env tf tt cwd e = (Inr r, e')"
  shows "(fr_success r \<longleftrightarrow> (\<exists>e1 e2 e3 o1 o2 o3 o4. exits_zero env (lint_cmd env tf) cwd 20 e e1 o1
      \<and> exits_zero env (type_cmd env tf) cwd 20 e1 e2 o2 \<and> exits_zero env (targeted_cmd env tt) cwd 30 e2 e3 o3
      \<and> exits_zero env (full_suite_cmd env tt cwd) cwd 60 e3 e' o4))"
    and "consistent_result r"
proof -
  note verdict = funnel_stages_verdict [OF assms, unfolded stage_verdict_def]
  show "(fr_success r \<longleftrightarrow> (\<exists>e1 e2 e3 o1 o2 o3 o4. exits_zero env (lint_cmd env tf) cwd 20 e e1 o1
      \<and> exits_zero env (type_cmd env tf) cwd 20 e1 e2 o2 \<and> exits_zero env (targeted_cmd env tt) cwd 30 e2 e3 o3
      \<and> exits_zero env (full_suite_cmd env tt cwd) cwd 60 e3 e' o4))"
    by (rule verdict [THEN conjunct2, THEN conjunct1, unfolded flatten_stages])
  show "consistent_result r" by (rule verdict [THEN conjunct1])
qed

text \<open>
  C13. The funnel reports success exactly when linter, type checker, targeted test and full suite
  have run in this order, each on the workspace the one before left, and each has ended by itself,
  in its time, with exit status 0. Otherwise the result names the stage that failed, and exactly
  that one: \<open>lint\<close> when the linter did not end with 0; \<open>typecheck\<close> when the linter did and the type
  checker did not; \<open>targeted_pytest\<close> and \<open>full_suite\<close> likewise. It then carries an error and at
  least one failed test, so that no reader can take it for a proof. The full suite counts as
  attempted exactly when the three stages before it passed.
\<close>

theorem verdict_needs_every_stage:
  assumes "execute_funnel env tf tt cwd e = (Inr r, e')"
  shows "(fr_success r \<longleftrightarrow> (\<exists>e1 e2 e3 o1 o2 o3 o4. exits_zero env (lint_cmd env tf) cwd 20 e e1 o1
      \<and> exits_zero env (type_cmd env tf) cwd 20 e1 e2 o2 \<and> exits_zero env (targeted_cmd env tt) cwd 30 e2 e3 o3
      \<and> exits_zero env (full_suite_cmd env tt cwd) cwd 60 e3 e' o4))
    \<and> (fr_failed_stage r = Some stage \<longleftrightarrow>
        stage = ''lint'' \<and> cannot_exit_zero env (lint_cmd env tf) cwd 20 e
      \<or> (\<exists>e1 o1. exits_zero env (lint_cmd env tf) cwd 20 e e1 o1
        \<and> (stage = ''typecheck'' \<and> cannot_exit_zero env (type_cmd env tf) cwd 20 e1
          \<or> (\<exists>e2 o2. exits_zero env (type_cmd env tf) cwd 20 e1 e2 o2
             \<and> (stage = ''targeted_pytest'' \<and> cannot_exit_zero env (targeted_cmd env tt) cwd 30 e2
               \<or> (\<exists>e3 o3. exits_zero env (targeted_cmd env tt) cwd 30 e2 e3 o3
                  \<and> stage = ''full_suite'' \<and> cannot_exit_zero env (full_suite_cmd env tt cwd) cwd 60 e3))))))
    \<and> (fr_success r \<longleftrightarrow> fr_error r = None) \<and> (fr_success r \<longleftrightarrow> fr_failed_stage r = None)
    \<and> (\<not> fr_success r \<longrightarrow> 1 \<le> fr_tests_failed r) \<and> 0 \<le> fr_tests_passed r
    \<and> (fr_full_suite_attempted r \<longleftrightarrow> fr_failed_stage r \<in> {None, Some ''full_suite''})"
proof -
  note lost = funnel_stages_verdict [OF assms, unfolded stage_verdict_def, THEN conjunct2, THEN conjunct2, THEN spec [of _ stage]]
  show ?thesis
    using funnel_verdict [OF assms] lost unfolding consistent_result_def
    by (elim conjE) (intro conjI; assumption)
qed

definition sample_funnel :: "nat funnel_env" where
  "sample_funnel = \<lparr>fe_tool = id, fe_existing_path = '''', fe_run = (\<lambda>cmd cwd path t e. (Exited 0 ''1 passed'' '''', Suc e)), fe_clock = real\<rparr>"

theorem verdict_needs_every_stage_witness:
  "\<exists>r e'. execute_funnel sample_funnel ''s.py'' ''t.py'' (Some ''/w'') 0 = (Inr r, e') \<and> fr_success r \<and> fr_failed_stage r = None"
proof -
  have "case fst (execute_funnel sample_funnel ''s.py'' ''t.py'' (Some ''/w'') 0) of Inl e \<Rightarrow> False | Inr r \<Rightarrow> fr_success r"
    by code_simp
  then obtain r e' where run: "execute_funnel sample_funnel ''s.py'' ''t.py'' (Some ''/w'') 0 = (Inr r, e')" and "fr_success r"
    by (cases "execute_funnel sample_funnel ''s.py'' ''t.py'' (Some ''/w'') 0") (auto split: sum.splits)
  with verdict_needs_every_stage [OF run] show ?thesis by blast
qed

section \<open>The counts\<close>

text \<open>What pytest prints last: counts with their labels, separated by commas.\<close>

definition summary_labels :: "string list" where
  "summary_labels = [''passed'', ''failed'', ''error'', ''errors'', ''skipped'', ''deselected'', ''xfailed'', ''xpassed'', ''warning'', ''warnings'']"

definition summary_part :: "nat \<times> string \<Rightarrow> string" where
  "summary_part part = nat_str (fst part) @ CHR '' '' # snd part"

fun summary_text :: "(nat \<times> string) list \<Rightarrow> string" where
  "summary_text [] = []"
| "summary_text [part] = summary_part part"
| "summary_text (part # parts) = summary_part part @ '', '' @ summary_text parts"

definition counted :: "string list \<Rightarrow> (nat \<times> string) list \<Rightarrow> int" where
  "counted labels parts = sum_list (map (int \<circ> fst) (filter (\<lambda>part. snd part \<in> set labels) parts))"

lemma match_count_no_digit: "\<not> is_digit c \<Longrightarrow> match_count (c # s) = None"
  by (simp add: match_count_def)

lemma find_counts_skip: "\<forall>c \<in> set noise. \<not> is_digit c \<Longrightarrow> find_counts (noise @ s) = find_counts s"
  by (induction noise) (simp_all add: match_count_no_digit)

lemma match_count_part:
  assumes "\<forall>c \<in> set ds. is_digit c" and "ds \<noteq> []" and "label \<noteq> []" and "\<not> py_isspace (hd label)"
  shows "match_count (ds @ CHR '' '' # label @ rest)
    = map_option (\<lambda>l. (ds, l, drop (length l) (label @ rest))) (find (\<lambda>l. is_prefix l (label @ rest)) count_labels)"
proof -
  have space: "\<not> is_digit CHR '' ''" "py_isspace CHR '' ''" by code_simp+
  obtain c cs where label: "label = c # cs" using assms(3) by (cases label) auto
  have "takeWhile is_digit (ds @ CHR '' '' # label @ rest) = ds"
    "dropWhile is_digit (ds @ CHR '' '' # label @ rest) = CHR '' '' # label @ rest"
    using assms(1) space by (simp_all add: takeWhile_append2 dropWhile_append2)
  then show ?thesis using assms space label by (simp add: match_count_def Let_def)
qed

lemma find_counts_ignored:
  assumes "\<forall>c \<in> set ds. is_digit c" and "label \<noteq> []" and "\<not> py_isspace (hd label)" and "find (\<lambda>l. is_prefix l (label @ rest)) count_labels = None"
  shows "find_counts (ds @ CHR '' '' # label @ rest) = find_counts (CHR '' '' # label @ rest)"
  using assms(1)
proof (induction ds)
  case (Cons d ds)
  then have "match_count ((d # ds) @ CHR '' '' # label @ rest) = None"
    using match_count_part [of "d # ds" label rest] assms by simp
  with Cons show ?case by simp
qed simp

lemma find_counts_counted:
  assumes "\<forall>c \<in> set ds. is_digit c" and "ds \<noteq> []" and "label \<noteq> []" and "\<not> py_isspace (hd label)"
    and "find (\<lambda>l. is_prefix l (label @ rest)) count_labels = Some l"
  shows "find_counts (ds @ CHR '' '' # label @ rest) = (ds, l) # find_counts (drop (length l) (label @ rest))"
proof -
  obtain d ds' where "ds = d # ds'" using assms(2) by (cases ds) auto
  with match_count_part [OF assms(1-4), of rest] assms(5) show ?thesis by simp
qed

definition found_label :: "string \<Rightarrow> string option" where
  "found_label label = (if label = ''errors'' then Some ''error'' else if label \<in> set count_labels then Some label else None)"

definition found_part :: "nat \<times> string \<Rightarrow> (string \<times> string) list" where
  "found_part part = (case found_label (snd part) of None \<Rightarrow> [] | Some l \<Rightarrow> [(nat_str (fst part), l)])"

lemma label_facts:
  assumes "label \<in> set summary_labels"
  shows "label \<noteq> []" and "\<not> py_isspace (hd label)" and "\<forall>c \<in> set (CHR '' '' # label). \<not> is_digit c"
    and "find (\<lambda>l. is_prefix l (label @ rest)) count_labels = found_label label"
    and "found_label label = Some l \<Longrightarrow> \<exists>s. label = l @ s \<and> (\<forall>c \<in> set s. \<not> is_digit c)"
proof -
  have "list_all (\<lambda>l. l \<noteq> [] \<and> \<not> py_isspace (hd l) \<and> list_all (\<lambda>c. \<not> is_digit c) (CHR '' '' # l)) summary_labels" by code_simp
  with assms show "label \<noteq> []" "\<not> py_isspace (hd label)" and digits: "\<forall>c \<in> set (CHR '' '' # label). \<not> is_digit c"
    by (simp_all add: list_all_iff)
  show "find (\<lambda>l. is_prefix l (label @ rest)) count_labels = found_label label"
    using assms unfolding summary_labels_def list.set insert_iff empty_iff
    by (elim disjE; hypsubst?; (simp add: count_labels_def found_label_def)?)
  show "\<exists>s. label = l @ s \<and> (\<forall>c \<in> set s. \<not> is_digit c)" if "found_label label = Some l"
  proof (cases "label = ''errors''")
    case True
    then have "label = l @ ''s''" using that by (simp add: found_label_def)
    with digits show ?thesis by auto
  next
    case False
    then have "label = l @ []" using that by (simp add: found_label_def split: if_splits)
    then show ?thesis by (intro exI [of _ "[]"]) simp
  qed
qed

lemma find_counts_part:
  assumes "snd part \<in> set summary_labels"
  shows "find_counts (summary_part part @ rest) = found_part part @ find_counts rest"
proof -
  obtain n label where part: "part = (n, label)" by fastforce
  note facts = label_facts [OF assms [unfolded part snd_conv]]
  have whole: "summary_part part @ rest = nat_str n @ CHR '' '' # label @ rest" by (simp add: summary_part_def part)
  have digits: "\<forall>c \<in> set (nat_str n). is_digit c" using nat_str_digits by blast
  show ?thesis
  proof (cases "found_label label")
    case None
    have "find_counts (CHR '' '' # label @ rest) = find_counts rest"
      using find_counts_skip [OF facts(3), of rest] by simp
    with find_counts_ignored [OF digits facts(1,2), of rest] facts(4) None whole show ?thesis
      by (simp add: found_part_def part)
  next
    case (Some l)
    then obtain s where s: "label = l @ s" "\<forall>c \<in> set s. \<not> is_digit c" using facts(5) by blast
    have "drop (length l) (label @ rest) = s @ rest" using s(1) by simp
    with find_counts_counted [OF digits nat_str_nonempty facts(1,2), of rest l] facts(4) Some whole find_counts_skip [OF s(2), of rest]
    show ?thesis by (simp add: found_part_def part)
  qed
qed

lemma find_counts_summary:
  "\<forall>part \<in> set parts. snd part \<in> set summary_labels
   \<Longrightarrow> find_counts (summary_text parts @ rest) = concat (map found_part parts) @ find_counts rest"
proof (induction parts rule: summary_text.induct)
  case (3 part part' parts)
  have "\<forall>c \<in> set '', ''. \<not> is_digit c" by code_simp
  with 3 show ?case by (simp add: find_counts_part find_counts_skip [of "'', ''", simplified])
qed (simp_all add: find_counts_part)

lemma add_counts_found:
  "\<forall>part \<in> set parts. length (nat_str (fst part)) \<le> max_str_digits
   \<Longrightarrow> add_counts (concat (map found_part parts)) (p, f)
     = Inr (p + counted [''passed''] parts, f + counted [''failed'', ''error'', ''errors''] parts)"
  by (induction parts arbitrary: p f)
    (auto simp: counted_def found_part_def found_label_def count_labels_def digits_val_nat_str Let_def)

text \<open>
  C22. The counts survive the printing: from the summary pytest prints last, after any text without
  digits and before any text in which nothing counts, the parser reads back the number of passed
  tests and the sum of the failed ones and the errors; skipped, deselected, xfailed and xpassed
  tests and warnings count for neither. (A number with more than 4300 digits is refused.)
\<close>

theorem summary_counts_read_back:
  assumes "\<forall>part \<in> set parts. snd part \<in> set summary_labels \<and> length (nat_str (fst part)) \<le> max_str_digits"
    and "\<forall>c \<in> set noise. \<not> is_digit c" and "find_counts ending = []"
  shows "parse_pytest_counts (noise @ summary_text parts @ ending)
    = Inr (counted [''passed''] parts, counted [''failed'', ''error'', ''errors''] parts)"
  using assms add_counts_found [of parts 0 0]
  by (simp add: parse_pytest_counts_def find_counts_skip find_counts_summary)

theorem summary_counts_read_back_witness:
  "parse_pytest_counts (''..F.E '' @ summary_text [(1, ''failed''), (12, ''passed''), (3, ''xfailed''), (2, ''errors'')] @ '' in 0.12s'')
    = Inr (12, 3)"
proof -
  have "find_counts '' in 0.12s'' = []" "list_all (\<lambda>c. \<not> is_digit c) ''..F.E ''"
      "list_all (\<lambda>part. snd part \<in> set summary_labels \<and> length (nat_str (fst part)) \<le> max_str_digits)
        [(1, ''failed''), (12, ''passed''), (3, ''xfailed''), (2, ''errors'')]"
    by code_simp+
  with summary_counts_read_back [of "[(1, ''failed''), (12, ''passed''), (3, ''xfailed''), (2, ''errors'')]" "''..F.E ''" "'' in 0.12s''"]
  show ?thesis by (simp add: list_all_iff counted_def)
qed

end
