(* ===== verification/ExecutionProps.thy ===== *)
theory ExecutionProps
  imports Executor FunnelProps
begin

text \<open>
  Properties of dispatching and executing: what reaches the workspace, what a published success
  rests on, and that every dispatched execution is accounted for.
\<close>

section \<open>The workspace\<close>

text \<open>
  What the layout relies on of the file system: creating a directory changes no file, and
  writing one changes no other.
\<close>

locale workspace =
  fixes fs :: "'e workspace_api"
    and content :: "'e \<Rightarrow> string list \<rightharpoonup> string"
  assumes mkdir: "ws_mkdir fs d e = (r, e') \<Longrightarrow> content e' = content e"
    and write_other: "ws_write fs t s e = (r, e') \<Longrightarrow> p \<noteq> t \<Longrightarrow> content e' p = content e p"
    and write_done: "ws_write fs t s e = (None, e') \<Longrightarrow> content e' t = Some s"
begin

lemma write_content: "ws_write fs t s e = (None, e') \<Longrightarrow> content e' = (content e)(t \<mapsto> s)"
  by (auto simp: fun_eq_iff write_other write_done)

end

lemma then_step_cases:
  assumes "then_step r f = (err, e')"
  obtains (stops) x e where "r = (Some x, e)" and "err = Some x" and "e' = e"
  | (goes) e where "r = (None, e)" and "f e = (err, e')"
  using assms by (cases r) (auto simp: then_step_def split: option.splits)

lemma safe_target_inside: "safe_target_path base rel = Inr t \<Longrightarrow> t = base @ path_parts rel \<and> inside_repo base t \<and> ''..'' \<notin> set (path_parts rel)"
  by (auto simp: safe_target_path_def inside_repo_def is_prefix_iff split: if_splits)

text \<open>The files a snapshot stands for: a later entry for a path replaces an earlier one.\<close>

definition snapshot_files :: "string list \<Rightarrow> (string \<times> string) list \<Rightarrow> (string list \<rightharpoonup> string)" where
  "snapshot_files base snapshot = map_of (rev (map (\<lambda>(rel, s). (base @ path_parts rel, s)) snapshot))"

lemma snapshot_files_simps [simp]:
  "snapshot_files base [] = Map.empty"
  "f ++ snapshot_files base ((rel, s) # snapshot) = f(base @ path_parts rel \<mapsto> s) ++ snapshot_files base snapshot"
  by (auto simp: snapshot_files_def map_add_def fun_eq_iff split: option.splits)

context workspace
begin

lemma materialize_content:
  assumes "materialize_snapshot fs base snapshot e = (r, e')"
  shows "\<not> inside_repo base p \<Longrightarrow> content e' p = content e p"
    and "r = None \<Longrightarrow> content e' = content e ++ snapshot_files base snapshot"
proof -
  have "(\<not> inside_repo base p \<longrightarrow> content e' p = content e p)
    \<and> (r = None \<longrightarrow> content e' = content e ++ snapshot_files base snapshot)"
    using assms
  proof (induction snapshot arbitrary: e)
    case (Cons x snapshot)
    obtain rel s where x: "x = (rel, s)" by fastforce
    have "then_step
       (with_target (safe_target_path base rel) (\<lambda>target e. then_step (ws_mkdir fs (butlast target) e) (ws_write fs target s)) e)
       (materialize_snapshot fs base snapshot) = (r, e')"
      using Cons.prems by (simp add: x)
    then show ?case
    proof (cases rule: then_step_cases)
      case (stops err e1)
      have "content e1 p = content e p" if outside: "\<not> inside_repo base p"
      proof (cases "safe_target_path base rel")
        case (Inl x)
        with stops show ?thesis by (simp add: with_target_def)
      next
        case (Inr t)
        have "p \<noteq> t" using safe_target_inside [OF Inr] outside by auto
        from stops Inr have "then_step (ws_mkdir fs (butlast t) e) (ws_write fs t s) = (Some err, e1)" by (simp add: with_target_def)
        then show ?thesis
          by (cases rule: then_step_cases) (auto dest: mkdir simp: write_other [OF _ \<open>p \<noteq> t\<close>])
      qed
      with stops show ?thesis by simp
    next
      case (goes e1)
      then obtain t where t: "safe_target_path base rel = Inr t"
        and step: "then_step (ws_mkdir fs (butlast t) e) (ws_write fs t s) = (None, e1)"
        by (cases "safe_target_path base rel") (auto simp: with_target_def)
      note inside = safe_target_inside [OF t]
      obtain e0 where m: "ws_mkdir fs (butlast t) e = (None, e0)" and wr: "ws_write fs t s e0 = (None, e1)"
        using step by (cases rule: then_step_cases) auto
      have e1: "content e1 = (content e)(t \<mapsto> s)" using write_content [OF wr] mkdir [OF m] by simp
      have "p \<noteq> t" if "\<not> inside_repo base p" using inside that by auto
      with Cons.IH [OF goes(2)] inside show ?thesis by (auto simp: x e1 simp del: fun_upd_apply simp: fun_upd_other)
    qed
  qed simp
  then show "\<not> inside_repo base p \<Longrightarrow> content e' p = content e p"
    and "r = None \<Longrightarrow> content e' = content e ++ snapshot_files base snapshot"
    by blast+
qed

lemma write_under:
  assumes "ws_write fs (base @ q) s e = (r, e')"
  shows "\<not> inside_repo base p \<Longrightarrow> content e' p = content e p"
proof -
  assume "\<not> inside_repo base p"
  then have "p \<noteq> base @ q" by (auto simp: inside_repo_def is_prefix_iff)
  with write_other [OF assms] show ?thesis by blast
qed

lemma prepare_content:
  assumes "prepare_workspace fs repo capsule e = (r, e')"
  shows "\<not> inside_repo repo p \<Longrightarrow> content e' p = content e p"
    and "r = None \<Longrightarrow> \<exists>source test. safe_target_path repo (capsule_source capsule) = Inr source
      \<and> safe_target_path repo (capsule_test capsule) = Inr test
      \<and> content e' = (content e ++ snapshot_files repo (tc_repo_snapshot capsule))(source \<mapsto> tc_code capsule, test \<mapsto> tc_test_code capsule)"
proof -
  let ?snap = "content e ++ snapshot_files repo (tc_repo_snapshot capsule)"
  have "(\<not> inside_repo repo p \<longrightarrow> content e' p = content e p) \<and> (r = None \<longrightarrow> (\<exists>source test.
      safe_target_path repo (capsule_source capsule) = Inr source \<and> safe_target_path repo (capsule_test capsule) = Inr test
      \<and> content e' = ?snap(source \<mapsto> tc_code capsule, test \<mapsto> tc_test_code capsule)))"
    using assms unfolding prepare_workspace_def
  proof (cases rule: then_step_cases)
    case (stops x e1)
    then show ?thesis by (auto dest: mkdir)
  next
    case (goes e1)
    have e1: "content e1 = content e" using mkdir goes(1) by blast
    from goes(2) show ?thesis
    proof (cases rule: then_step_cases)
      case (stops x e2)
      then show ?thesis using materialize_content(1) [OF stops(1)] e1 by auto
    next
      case (goes e2)
      have outside: "\<not> inside_repo repo p \<Longrightarrow> content e2 p = content e p" and snap: "content e2 = ?snap"
        using materialize_content [OF goes(1)] e1 by auto
      show ?thesis
      proof (cases "safe_target_path repo (capsule_source capsule)")
        case (Inl x)
        with goes(2) outside show ?thesis by (auto simp: with_target_def)
      next
        case source: (Inr source)
        show ?thesis
        proof (cases "safe_target_path repo (capsule_test capsule)")
          case (Inl x)
          with goes(2) source outside show ?thesis by (auto simp: with_target_def)
        next
          case test: (Inr test)
          obtain q q' where q: "source = repo @ q" "test = repo @ q'"
            using safe_target_inside [OF source] safe_target_inside [OF test] by auto
          obtain x3 e3 where m3: "ws_mkdir fs (butlast source) e2 = (x3, e3)" by fastforce
          obtain x4 e4 where m4: "ws_mkdir fs (butlast test) e3 = (x4, e4)" by fastforce
          obtain x5 e5 where w5: "ws_write fs source (tc_code capsule) e4 = (x5, e5)" by fastforce
          obtain x6 e6 where w6: "ws_write fs test (tc_test_code capsule) e5 = (x6, e6)" by fastforce
          have c: "content e3 = content e2" "content e4 = content e2" using mkdir [OF m3] mkdir [OF m4] by simp_all
          have o5: "\<not> inside_repo repo p \<Longrightarrow> content e5 p = content e p"
            using write_under [OF w5 [unfolded q(1)], of p] outside c by simp
          have o6: "\<not> inside_repo repo p \<Longrightarrow> content e6 p = content e p"
            using write_under [OF w6 [unfolded q(2)], of p] o5 by simp
          have d5: "x5 = None \<Longrightarrow> content e5 = ?snap(source \<mapsto> tc_code capsule)"
            using write_content [of source "tc_code capsule" e4 e5] w5 c snap by simp
          have d6: "x5 = None \<Longrightarrow> x6 = None \<Longrightarrow> content e6 = ?snap(source \<mapsto> tc_code capsule, test \<mapsto> tc_test_code capsule)"
            using write_content [of test "tc_test_code capsule" e5 e6] w6 d5 by simp
          have "(r, e') = (case (x3, x4, x5) of (Some x, _, _) \<Rightarrow> (Some x, e3) | (None, Some x, _) \<Rightarrow> (Some x, e4)
              | (None, None, Some x) \<Rightarrow> (Some x, e5) | (None, None, None) \<Rightarrow> (x6, e6))"
            using goes(2) source test m3 m4 w5 w6 by (auto simp: with_target_def then_step_def split: option.splits)
          then show ?thesis
            using outside c o5 o6 d6 source test by (auto split: option.splits)
        qed
      qed
    qed
  qed
  then show "\<not> inside_repo repo p \<Longrightarrow> content e' p = content e p"
    and "r = None \<Longrightarrow> \<exists>source test. safe_target_path repo (capsule_source capsule) = Inr source
      \<and> safe_target_path repo (capsule_test capsule) = Inr test
      \<and> content e' = (content e ++ snapshot_files repo (tc_repo_snapshot capsule))(source \<mapsto> tc_code capsule, test \<mapsto> tc_test_code capsule)"
    by blast+
qed

end

section \<open>A machine held in memory\<close>

record machine =
  mc_files :: "string list \<rightharpoonup> string"
  mc_clock :: nat

definition mem_workspace :: "machine workspace_api" where
  "mem_workspace =
     \<lparr>ws_tmp = (\<lambda>e. (Inr [''tmp''], e)), ws_mkdir = (\<lambda>d e. (None, e)),
      ws_write = (\<lambda>p s e. (None, e\<lparr>mc_files := (mc_files e)(p \<mapsto> s), mc_clock := Suc (mc_clock e)\<rparr>)),
      ws_cleanup = (\<lambda>d e. (None, e\<lparr>mc_files := (\<lambda>p. if inside_repo d p then None else mc_files e p)\<rparr>))\<rparr>"

interpretation mem_ws: workspace mem_workspace mc_files
  by unfold_locales (auto simp: mem_workspace_def)

text \<open>
  C14. A workspace is the snapshot with the candidate's code and the test laid over it, the test
  over the code where both have one path. Whatever a capsule asks for, and even when the layout
  stops half-way, no file outside the workspace changes: absolute paths and paths with \<open>..\<close> are
  refused.
\<close>

theorem workspace_holds_the_candidate:
  assumes "workspace fs content" and "prepare_workspace fs repo capsule e = (r, e')"
  shows "(\<forall>p. \<not> inside_repo repo p \<longrightarrow> content e' p = content e p)
    \<and> (r = None \<longrightarrow> \<not> is_absolute (capsule_source capsule) \<and> \<not> is_absolute (capsule_test capsule)
        \<and> content e' = (content e ++ snapshot_files repo (tc_repo_snapshot capsule))
             (repo @ path_parts (capsule_source capsule) \<mapsto> tc_code capsule,
              repo @ path_parts (capsule_test capsule) \<mapsto> tc_test_code capsule))"
  using workspace.prepare_content [OF assms] by (fastforce simp: safe_target_path_def split: if_splits)

definition sample_capsule :: task_capsule where
  "sample_capsule =
     \<lparr>tc_id = ''c1'', tc_tree_id = ''t'', tc_source_path = ''/r/s.py'', tc_test_path = ''/r/t.py'', tc_code = ''new'',
      tc_test_code = ''check'', tc_run_id = ''run'', tc_source_relpath = ''s.py'', tc_test_relpath = '''',
      tc_repo_snapshot = [(''s.py'', ''old''), (''lib/m.py'', ''kept'')], tc_repo_snapshot_digest = ''d'',
      tc_repo_snapshot_bytes = 7, tc_repo_snapshot_files = 2\<rparr>"

definition sample_machine :: machine where
  "sample_machine = \<lparr>mc_files = [[''etc''] \<mapsto> ''keep''], mc_clock = 0\<rparr>"

theorem workspace_holds_the_candidate_witness:
  "\<exists>e'. prepare_workspace mem_workspace [''tmp'', ''repo''] sample_capsule sample_machine = (None, e')
     \<and> mc_files e' [''tmp'', ''repo'', ''s.py''] = Some ''new'' \<and> mc_files e' [''tmp'', ''repo'', ''t.py''] = Some ''check''
     \<and> mc_files e' [''tmp'', ''repo'', ''lib'', ''m.py''] = Some ''kept'' \<and> mc_files e' [''etc''] = Some ''keep''"
proof -
  have "fst (prepare_workspace mem_workspace [''tmp'', ''repo''] sample_capsule sample_machine) = None" by code_simp
  then obtain e' where run: "prepare_workspace mem_workspace [''tmp'', ''repo''] sample_capsule sample_machine = (None, e')"
    by (metis prod.collapse)
  have parts: "path_parts (capsule_source sample_capsule) = [''s.py'']" "path_parts (capsule_test sample_capsule) = [''t.py'']"
    "path_parts ''s.py'' = [''s.py'']" "path_parts ''lib/m.py'' = [''lib'', ''m.py'']" "\<not> inside_repo [''tmp'', ''repo''] [''etc'']"
    by code_simp+
  have "tc_repo_snapshot sample_capsule = [(''s.py'', ''old''), (''lib/m.py'', ''kept'')]" "tc_code sample_capsule = ''new''"
    "tc_test_code sample_capsule = ''check''" "mc_files sample_machine [''etc''] = Some ''keep''"
    by (simp_all add: sample_capsule_def sample_machine_def)
  with workspace_holds_the_candidate [OF mem_ws.workspace_axioms run] parts run show ?thesis
    by (auto simp: snapshot_files_def)
qed

section \<open>What a published result rests on\<close>

definition well_typed :: "(string \<times> json) list \<Rightarrow> bool" where
  "well_typed result \<longleftrightarrow> (\<exists>b p f s. result_success result = Inr b \<and> result_count result ''tests_passed'' 0 = Inr p
     \<and> result_count result ''tests_failed'' 1 = Inr f \<and> result_error result = Inr s)"

lemma result_of_error:
  "result_success (dict_set ''error'' (JStr x) result) = result_success result"
  "result_count (dict_set ''error'' (JStr x) result) ''tests_passed'' d = result_count result ''tests_passed'' d"
  "result_count (dict_set ''error'' (JStr x) result) ''tests_failed'' d = result_count result ''tests_failed'' d"
  "result_error (dict_set ''error'' (JStr x) result) = Inr (Some x)"
  by (simp_all add: result_success_def result_count_def result_error_def)

lemma result_of_funnel:
  "result_success (funnel_json r) = Inr (fr_success r)"
  "result_count (funnel_json r) ''tests_passed'' d = Inr (fr_tests_passed r)"
  "result_count (funnel_json r) ''tests_failed'' d = Inr (fr_tests_failed r)"
  "result_error (funnel_json r) = Inr (fr_error r)"
  by (simp_all add: result_success_def result_count_def result_error_def funnel_json_def js_of_opt_str_def split: option.split)

lemma result_of_unknown:
  "result_success unknown_result = Inr False" "result_count unknown_result ''tests_passed'' d = Inr 0"
  "result_count unknown_result ''tests_failed'' d = Inr 1" "result_error unknown_result = Inr (Some ''Unknown'')"
  by (simp_all add: result_success_def result_count_def result_error_def unknown_result_def)

lemmas result_reads = result_of_error result_of_funnel result_of_unknown

text \<open>The body of the \<open>with\<close> statement ran to its end and the funnel printed \<open>r\<close>.\<close>

definition verified_by :: "('k, 'v, 's, 'e) executor_env \<Rightarrow> task_capsule \<Rightarrow> string list \<Rightarrow> funnel_result \<Rightarrow> bool" where
  "verified_by env capsule repo r \<longleftrightarrow>
     (\<exists>e0 e1 e2 source test. prepare_workspace (ex_fs env) repo capsule e0 = (None, e1)
        \<and> safe_target_path repo (capsule_source capsule) = Inr source \<and> safe_target_path repo (capsule_test capsule) = Inr test
        \<and> execute_funnel (ex_funnel env) (path_text source) (path_text test) (Some (path_text repo)) e1 = (Inr r, e2))"

lemma run_in_directory_result:
  assumes "run_in_directory env capsule tmp e = ((result, ms, raised), e')"
  shows "well_typed result \<and> (result_success result = Inr True \<longrightarrow>
    (\<exists>r. verified_by env capsule (tmp @ [''repo'']) r \<and> fr_success r \<and> result_count result ''tests_failed'' 1 = Inr (fr_tests_failed r)))"
proof -
  let ?repo = "tmp @ [''repo'']"
  obtain x e1 where prep: "prepare_workspace (ex_fs env) ?repo capsule e = (x, e1)" by fastforce
  show ?thesis
  proof (cases "x = None \<and> (\<exists>s t. safe_target_path ?repo (capsule_source capsule) = Inr s \<and> safe_target_path ?repo (capsule_test capsule) = Inr t)")
    case False
    with assms prep show ?thesis
      by (cases x; cases "safe_target_path ?repo (capsule_source capsule)"; cases "safe_target_path ?repo (capsule_test capsule)")
        (auto simp: run_in_directory_def well_typed_def result_reads)
  next
    case True
    then obtain s t where st: "safe_target_path ?repo (capsule_source capsule) = Inr s" "safe_target_path ?repo (capsule_test capsule) = Inr t" by blast
    obtain v e2 where funnel: "execute_funnel (ex_funnel env) (path_text s) (path_text t) (Some (path_text ?repo)) e1 = (v, e2)" by fastforce
    have result: "result = (case v of Inl err \<Rightarrow> dict_set ''error'' (JStr (or_list (py_strip (ex_traceback env err)) ''NoOutput'')) unknown_result
        | Inr r \<Rightarrow> funnel_json r)"
      using assms prep True st funnel by (auto simp: run_in_directory_def funnel_main_def split: sum.splits)
    show ?thesis
    proof (cases v)
      case (Inl err)
      with result show ?thesis by (auto simp: well_typed_def result_reads)
    next
      case (Inr r)
      have "verified_by env capsule ?repo r" using prep True st funnel Inr by (auto simp: verified_by_def)
      with result Inr show ?thesis by (auto simp: well_typed_def result_reads)
    qed
  qed
qed

lemma run_capsule_result:
  assumes "run_capsule env capsule e = ((result, ms), e')"
  shows "well_typed result \<and> (result_success result = Inr True \<longrightarrow>
    (\<exists>repo r. verified_by env capsule repo r \<and> fr_success r \<and> result_count result ''tests_failed'' 1 = Inr (fr_tests_failed r)))"
proof -
  obtain tmp e0 where tmp: "ws_tmp (ex_fs env) e = (tmp, e0)" by fastforce
  show ?thesis
  proof (cases tmp)
    case (Inl err)
    with assms tmp show ?thesis by (auto simp: run_capsule_def well_typed_def result_reads)
  next
    case (Inr dir)
    obtain result' ms' raised e1 where run: "run_in_directory env capsule dir e0 = ((result', ms', raised), e1)"
      by (metis surj_pair)
    obtain c e2 where clean: "ws_cleanup (ex_fs env) dir e1 = (c, e2)" by fastforce
    have "result = result' \<or> (\<exists>err. result = dict_set ''error'' (JStr (ex_error_text env err)) result')"
      using assms tmp Inr run clean by (cases c; cases raised) (auto simp: run_capsule_def)
    with run_in_directory_result [OF run] show ?thesis
      by (auto simp: well_typed_def result_reads) blast+
  qed
qed

section \<open>Results and places\<close>

definition results :: "'s redis \<Rightarrow> 's world \<Rightarrow> rtext list" where
  "results R w = rd_streams (r_data R (w_store w)) STREAM_RESULTS"

definition inflight :: "'s redis \<Rightarrow> 's world \<Rightarrow> int" where
  "inflight R w = counter (rd_strings (r_data R (w_store w)) STATS_INFLIGHT)"

lemma inflight_simps:
  assumes "shared_store R"
  shows "inflight R (count_inflight R w) = inflight R w + 1" and "inflight R (uncount_inflight R w) = inflight R w - 1"
    and "results R (count_inflight R w) = results R w" and "results R (uncount_inflight R w) = results R w"
    and "inflight R (w_exec R [CXAdd STREAM_RESULTS v] w) = inflight R w"
    and "results R (w_exec R [CXAdd STREAM_RESULTS v] w) = results R w @ [v]"
    and "inflight R (w\<lparr>w_db := db\<rparr>) = inflight R w" and "results R (w\<lparr>w_db := db\<rparr>) = results R w"
  using assms
  by (simp_all add: inflight_def results_def count_inflight_def uncount_inflight_def shared_store.incr_data shared_store.decr_data)

definition describes :: "('k, 'v, 's, 'e) executor_env \<Rightarrow> task_capsule \<Rightarrow> verification_pack \<Rightarrow> bool" where
  "describes env capsule pack \<longleftrightarrow> vp_capsule_id pack = tc_id capsule \<and> vp_run_id pack = tc_run_id capsule
     \<and> vp_inputs_digest pack = ex_sha256 env (tc_code capsule) \<and> \<not> vp_hardware_isolated pack"

lemma execution_pack_exists:
  assumes "well_typed result"
  shows "\<exists>pack. execution_pack env capsule result runtime uri meta = Inr pack \<and> describes env capsule pack
    \<and> result_success result = Inr (vp_success pack) \<and> result_count result ''tests_failed'' 1 = Inr (vp_tests_failed pack)"
proof -
  obtain b p f s where "result_success result = Inr b" "result_count result ''tests_passed'' 0 = Inr p"
    "result_count result ''tests_failed'' 1 = Inr f" "result_error result = Inr s"
    using assms by (auto simp: well_typed_def)
  then show ?thesis by (simp add: execution_pack_def describes_def)
qed

lemma execute_capsule_cases:
  assumes "execute_capsule env capsule (w, e) = out"
  obtains (published) pack e' where "out = Done (publish env pack w, e')" and "describes env capsule pack"
      and "vp_success pack \<longrightarrow> (\<exists>repo r. verified_by env capsule repo r \<and> fr_success r \<and> vp_tests_failed pack = fr_tests_failed r)"
  | (lost) err e1 e' result where "out = Crash err (w, e')"
      and "put_bundle (ex_store env) ''executions'' (evidence env capsule result) e1 = (Inl err, e')"
proof -
  obtain result ms e1 where run: "run_capsule env capsule e = ((result, ms), e1)" by (metis surj_pair)
  obtain uri e2 where put: "put_bundle (ex_store env) ''executions'' (evidence env capsule result) e1 = (uri, e2)" by fastforce
  show thesis
  proof (cases uri)
    case (Inl err)
    with assms run put lost show thesis by (auto simp: execute_capsule_def)
  next
    case (Inr u)
    note result = run_capsule_result [OF run]
    let ?meta = "pack_meta capsule ms (elapsed_ms (ex_funnel env) e1 e2) (result_meta result)"
    let ?runtime = "fe_clock (ex_funnel env) e2 - fe_clock (ex_funnel env) e"
    obtain pack where pack: "execution_pack env capsule result ?runtime u ?meta = Inr pack" and "describes env capsule pack"
      and "result_success result = Inr (vp_success pack)" and "result_count result ''tests_failed'' 1 = Inr (vp_tests_failed pack)"
      using execution_pack_exists result by blast
    with result assms run put Inr published [of pack e2] show thesis
      by (auto simp: execute_capsule_def Let_def)
  qed
qed

text \<open>
  C2. A published success was verified: a capsule that is executed yields exactly one result, for
  this capsule, this run and the digest of this code, signed by the executor. When it claims
  success, the workspace was laid out completely and linter, type checker, targeted test and full
  suite each ended with status 0 on it, in this order. Without a result there was no place to
  store the evidence.
\<close>

theorem published_success_was_verified:
  assumes "shared_store (ex_redis env)" and "execute_capsule env capsule (w, e) = out"
  shows "case out of
      Done (w', e') \<Rightarrow> \<exists>pack. results (ex_redis env) w' = results (ex_redis env) w
            @ [Doc (pack_to_json (sign_pack (ex_crypto env) pack (ex_signing_key env)))]
          \<and> describes env capsule pack
          \<and> (vp_success pack \<longrightarrow> (\<exists>repo source test e0 e1 e2 e3 e4 e5 o1 o2 o3 o4.
              prepare_workspace (ex_fs env) repo capsule e0 = (None, e1)
              \<and> safe_target_path repo (capsule_source capsule) = Inr source \<and> safe_target_path repo (capsule_test capsule) = Inr test
              \<and> exits_zero (ex_funnel env) (lint_cmd (ex_funnel env) (path_text source)) (Some (path_text repo)) 20 e1 e2 o1
              \<and> exits_zero (ex_funnel env) (type_cmd (ex_funnel env) (path_text source)) (Some (path_text repo)) 20 e2 e3 o2
              \<and> exits_zero (ex_funnel env) (targeted_cmd (ex_funnel env) (path_text test)) (Some (path_text repo)) 30 e3 e4 o3
              \<and> exits_zero (ex_funnel env) (full_suite_cmd (ex_funnel env) (path_text test) (Some (path_text repo))) (Some (path_text repo)) 60 e4 e5 o4))
    | Crash err (w', e') \<Rightarrow> w' = w \<and> (\<exists>bundle e1. fst (put_bundle (ex_store env) ''executions'' bundle e1) = Inl err)"
  using assms(2)
proof (cases rule: execute_capsule_cases)
  case (lost err e1 e' result)
  then show ?thesis by (auto intro!: exI [of _ "evidence env capsule result"] exI [of _ e1])
next
  case (published pack e')
  have "results (ex_redis env) (publish env pack w) = results (ex_redis env) w
      @ [Doc (pack_to_json (sign_pack (ex_crypto env) pack (ex_signing_key env)))]"
    by (simp add: publish_def inflight_simps [OF assms(1)])
  moreover have "\<exists>repo source test e0 e1 e2 e3 e4 e5 o1 o2 o3 o4.
              prepare_workspace (ex_fs env) repo capsule e0 = (None, e1)
              \<and> safe_target_path repo (capsule_source capsule) = Inr source \<and> safe_target_path repo (capsule_test capsule) = Inr test
              \<and> exits_zero (ex_funnel env) (lint_cmd (ex_funnel env) (path_text source)) (Some (path_text repo)) 20 e1 e2 o1
              \<and> exits_zero (ex_funnel env) (type_cmd (ex_funnel env) (path_text source)) (Some (path_text repo)) 20 e2 e3 o2
              \<and> exits_zero (ex_funnel env) (targeted_cmd (ex_funnel env) (path_text test)) (Some (path_text repo)) 30 e3 e4 o3
              \<and> exits_zero (ex_funnel env) (full_suite_cmd (ex_funnel env) (path_text test) (Some (path_text repo))) (Some (path_text repo)) 60 e4 e5 o4"
    if success: "vp_success pack"
  proof -
    from published(3) success obtain repo r where v: "verified_by env capsule repo r" and r: "fr_success r" by blast
    from v obtain e0 e1 e2 source test where
      layout: "prepare_workspace (ex_fs env) repo capsule e0 = (None, e1)"
        "safe_target_path repo (capsule_source capsule) = Inr source" "safe_target_path repo (capsule_test capsule) = Inr test"
      and run: "execute_funnel (ex_funnel env) (path_text source) (path_text test) (Some (path_text repo)) e1 = (Inr r, e2)"
      unfolding verified_by_def by blast
    from funnel_verdict [OF run] r layout show ?thesis by blast
  qed
  ultimately show ?thesis using published(1,2) by auto
qed

definition sample_artifacts :: "machine artifact_api" where
  "sample_artifacts =
     \<lparr>as_digest = (\<lambda>j. ''d''), as_client = Inr False, as_bucket = ''b'', as_buckets = (\<lambda>e. (Inr [], e)),
      as_create_bucket = (\<lambda>b e. (None, e)), as_put_object = (\<lambda>b k j e. (None, e)),
      as_write_local = (\<lambda>name j e. (None, e)), as_local_path = (\<lambda>name. ''/cas/'' @ name)\<rparr>"

definition sample_tools :: "machine funnel_env" where
  "sample_tools =
     \<lparr>fe_tool = id, fe_existing_path = '''',
      fe_run = (\<lambda>cmd cwd path t e. (if mc_files e [''tmp'', ''repo'', ''s.py''] = Some ''new'' then Exited 0 ''1 passed'' '''' else TimedOut, e)),
      fe_clock = (\<lambda>e. real (mc_clock e))\<rparr>"

definition sample_executor :: "(string, string, redis_data, machine) executor_env" where
  "sample_executor =
     \<lparr>ex_redis = mem_redis, ex_node_id = ''sim-core-0'', ex_signing_key = ''k'', ex_crypto = echo_crypto,
      ex_store = sample_artifacts, ex_funnel = sample_tools, ex_fs = mem_workspace, ex_sha256 = id,
      ex_error_text = (\<lambda>e. ''error''), ex_traceback = (\<lambda>e. ''Traceback'')\<rparr>"

lemma sample_evidence: "fst (put_bundle (ex_store sample_executor) ''executions'' bundle e1) \<noteq> Inl err"
  by (simp add: sample_executor_def sample_artifacts_def put_bundle_def Let_def)

lemma sample_executor_store: "ex_redis sample_executor = mem_redis" "shared_store (ex_redis sample_executor)"
  by (simp_all add: sample_executor_def mem.shared_store_axioms)

theorem published_success_was_verified_witness:
  "\<exists>w' e' pack. execute_capsule sample_executor sample_capsule (empty_world, sample_machine) = Done (w', e')
     \<and> results mem_redis w' = [Doc (pack_to_json (sign_pack echo_crypto pack ''k''))] \<and> vp_capsule_id pack = ''c1''
     \<and> vp_inputs_digest pack = ''new''"
proof -
  note result = published_success_was_verified [of sample_executor sample_capsule empty_world sample_machine, OF sample_executor_store(2) refl]
  have "results mem_redis empty_world = []"
    by (simp add: results_def empty_world_def empty_data_def mem_redis_def)
  moreover have "ex_crypto sample_executor = echo_crypto" "ex_signing_key sample_executor = ''k''" "ex_sha256 sample_executor = id"
    by (simp_all add: sample_executor_def)
  moreover have "tc_id sample_capsule = ''c1''" "tc_code sample_capsule = ''new''" by (simp_all add: sample_capsule_def)
  ultimately show ?thesis
    using result sample_evidence
    by (auto simp: sample_executor_store(1) describes_def split: outcome.splits prod.splits)
qed

text \<open>
  C6. Every dispatched execution is accounted for: the number of executions in flight counts those
  handed over and not yet answered. A refused connection leaves it as it was and publishes one
  failed result in the executor's place; a delivered capsule raises it by one until the executor
  publishes its one result and lowers it again. The two leaks are the exceptions: a delivery that
  fails with another exception than \<open>OSError\<close>, and evidence that cannot be stored, leave the place
  taken for ever and no result.
\<close>

theorem every_dispatch_is_accounted_for:
  assumes store: "shared_store (di_redis env)" and same: "ex_redis exe = di_redis env"
  shows "case di_send env (om_executor_host (di_settings env)) (om_executor_base_port (di_settings env) + er_executor_core request)
        (capsule_to_json (er_capsule request)) of
      Refused exc \<Rightarrow> \<exists>w'. dispatch env request w = Done w' \<and> inflight (di_redis env) w' = inflight (di_redis env) w
        \<and> results (di_redis env) w' = results (di_redis env) w @ [Doc (pack_to_json (refused_pack env request exc))]
    | Broken err \<Rightarrow> \<exists>w'. dispatch env request w = Crash err w' \<and> inflight (di_redis env) w' = inflight (di_redis env) w + 1
        \<and> results (di_redis env) w' = results (di_redis env) w
    | Delivered \<Rightarrow> \<exists>w1. dispatch env request w = Done w1 \<and> inflight (di_redis env) w1 = inflight (di_redis env) w + 1
        \<and> results (di_redis env) w1 = results (di_redis env) w
        \<and> (case handle_connection exe (Some (Doc (capsule_to_json (er_capsule request)))) (w1, e) of
             Done (w2, e2) \<Rightarrow> inflight (di_redis env) w2 = inflight (di_redis env) w
               \<and> (\<exists>pack. results (di_redis env) w2 = results (di_redis env) w
                    @ [Doc (pack_to_json (sign_pack (ex_crypto exe) pack (ex_signing_key exe)))]
                  \<and> vp_run_id pack = tc_run_id (er_capsule request))
           | Crash err (w2, e2) \<Rightarrow> inflight (di_redis env) w2 = inflight (di_redis env) w + 1
               \<and> results (di_redis env) w2 = results (di_redis env) w)"
proof (cases "di_send env (om_executor_host (di_settings env)) (om_executor_base_port (di_settings env) + er_executor_core request)
        (capsule_to_json (er_capsule request))")
  case (Refused exc)
  then show ?thesis by (simp add: dispatch_def report_refused_def Let_def inflight_simps [OF store])
next
  case (Broken err)
  then show ?thesis by (simp add: dispatch_def Let_def inflight_simps [OF store])
next
  case Delivered
  let ?w1 = "mark_delivered env request (count_inflight (di_redis env) w)" and ?c = "capsule_canon (er_capsule request)"
  have w1: "dispatch env request w = Done ?w1" "inflight (di_redis env) ?w1 = inflight (di_redis env) w + 1"
    "results (di_redis env) ?w1 = results (di_redis env) w"
    using Delivered by (simp_all add: dispatch_def mark_delivered_def Let_def inflight_simps [OF store])
  have handled: "handle_connection exe (Some (Doc (capsule_to_json (er_capsule request)))) (?w1, e) = execute_capsule exe ?c (?w1, e)"
    by (simp add: handle_connection_def capsule_decode)
  show ?thesis
  proof (cases rule: execute_capsule_cases [OF refl, of exe ?c ?w1 e])
    case (1 pack e')
    then show ?thesis
      using Delivered w1 handled
      by (auto simp: publish_def inflight_simps [OF store] same describes_def capsule_canon_def)
  next
    case (2 err e1 e' result)
    then show ?thesis using Delivered w1 handled by auto
  qed
qed

definition sample_dispatcher :: "redis_data dispatcher_env" where
  "sample_dispatcher =
     \<lparr>di_redis = mem_redis,
      di_settings = \<lparr>om_redis = '''', om_cas_endpoint = '''', om_cas_bucket = '''', om_cas_access_key = '''', om_cas_secret_key = '''',
       om_executor_host = ''h'', om_executor_base_port = 7000, om_executor_cores = 1, om_telemetry_host = '''',
       om_telemetry_port = 0, om_worker_heartbeat_ttl_seconds = 30\<rparr>,
      di_send = (\<lambda>host port capsule. if port = 7000 then Delivered else Refused ''connection refused''), di_sha256 = id, di_now = 5\<rparr>"

definition sample_request :: execution_request where
  "sample_request = \<lparr>er_run_id = ''run'', er_candidate_id = ''c1'', er_task_id = ''t'', er_executor_core = 0,
     er_capsule = sample_capsule, er_created_at = 4, er_preferred_executor_core = None\<rparr>"

theorem every_dispatch_is_accounted_for_witness:
  "\<exists>w1 w2. dispatch sample_dispatcher sample_request empty_world = Done w1 \<and> inflight mem_redis w1 = inflight mem_redis empty_world + 1
     \<and> dispatch sample_dispatcher (sample_request\<lparr>er_executor_core := 1\<rparr>) empty_world = Done w2
     \<and> inflight mem_redis w2 = inflight mem_redis empty_world"
proof -
  have env: "shared_store (di_redis sample_dispatcher)" "ex_redis sample_executor = di_redis sample_dispatcher" "di_redis sample_dispatcher = mem_redis"
    by (simp_all add: sample_dispatcher_def sample_executor_def mem.shared_store_axioms)
  note both = every_dispatch_is_accounted_for [OF env(1,2), of sample_request empty_world sample_machine]
    every_dispatch_is_accounted_for [OF env(1,2), of "sample_request\<lparr>er_executor_core := 1\<rparr>" empty_world sample_machine]
  from both show ?thesis
    by (auto simp: sample_dispatcher_def sample_request_def)
qed

end
