(* ===== verification/SettingsProps.thy ===== *)
theory SettingsProps
  imports Settings
begin

text \<open>Which of the three sources a setting comes from.\<close>

fun is_table :: "json \<Rightarrow> bool" where
  "is_table (JObj d) = True"
| "is_table _ = False"

definition merge_value :: "json option \<Rightarrow> json \<Rightarrow> json" where
  "merge_value old value = (case (value, old) of (JObj v, Some (JObj b)) \<Rightarrow> JObj (merge_dicts b v) | _ \<Rightarrow> value)"

lemma map_of_merge_dicts:
  "distinct (dict_keys override) \<Longrightarrow> map_of (merge_dicts merged override) k
    = (case map_of override k of None \<Rightarrow> map_of merged k | Some v \<Rightarrow> Some (merge_value (map_of merged k) v))"
proof (induction override arbitrary: merged)
  case (Cons x override)
  obtain key v where x: "x = (key, v)" by fastforce
  have "key \<notin> set (dict_keys override)" using Cons.prems x by simp
  then have "map_of override key = None" by (simp add: map_of_eq_None_iff)
  moreover have step: "merge_dicts merged (x # override) = merge_dicts (dict_set key (merge_value (map_of merged key) v) merged) override"
    by (simp add: x merge_value_def)
  ultimately show ?case
    unfolding step using Cons by (cases "map_of override k") (auto simp: x split: option.split)
qed simp

lemma merge_value_scalar: "\<not> is_table (merge_value old v) \<Longrightarrow> merge_value old v = v"
  by (auto simp: merge_value_def split: json.splits option.splits)

text \<open>A table of a file, and a key of it; the profile's value hides the base's.\<close>

definition table_of :: "toml \<Rightarrow> string \<Rightarrow> toml" where
  "table_of t name = (case map_of t name of Some (JObj s) \<Rightarrow> s | _ \<Rightarrow> [])"

definition file_value :: "toml \<Rightarrow> toml option \<Rightarrow> string \<Rightarrow> string \<Rightarrow> string \<Rightarrow> json option" where
  "file_value base profile_table profile name key =
     (case (if profile = ''omega'' then None else profile_table) of
        None \<Rightarrow> map_of (table_of base name) key
      | Some p \<Rightarrow> (case map_of (table_of p name) key of Some v \<Rightarrow> Some v | None \<Rightarrow> map_of (table_of base name) key))"

definition tables_distinct :: "toml \<Rightarrow> bool" where
  "tables_distinct t \<longleftrightarrow> distinct (dict_keys t) \<and> (\<forall>name. distinct (dict_keys (table_of t name)))"

lemma merged_value:
  assumes "section_of (merged_config base p profile) name = Inr t" and "map_of t key = Some j" and "\<not> is_table j"
    and "\<And>q. p = Some q \<Longrightarrow> tables_distinct q"
  shows "file_value base p profile name key = Some j"
proof (cases "profile = ''omega'' \<or> p = None")
  case True
  then have "merged_config base p profile = base" by (auto simp: merged_config_def)
  with True assms(1,2) show ?thesis
    by (auto simp: section_of_def file_value_def table_of_def split: option.splits json.splits elim!: js_obj.elims)
next
  case False
  then obtain q where q: "p = Some q" "profile \<noteq> ''omega''" by auto
  have d: "distinct (dict_keys q)" "distinct (dict_keys (table_of q name))" using assms(4) [OF q(1)] by (auto simp: tables_distinct_def)
  have merged: "merged_config base p profile = merge_dicts base q" using q by (simp add: merged_config_def)
  from assms(1) have t: "map_of (merge_dicts base q) name = Some (JObj t)"
    unfolding merged by (auto simp: section_of_def split: option.splits elim!: js_obj.elims)
  show ?thesis
  proof (cases "map_of q name")
    case None
    with t assms(2) q show ?thesis by (simp add: map_of_merge_dicts [OF d(1)] file_value_def table_of_def)
  next
    case (Some v)
    with t have v: "merge_value (map_of base name) v = JObj t" by (simp add: map_of_merge_dicts [OF d(1)])
    show ?thesis
    proof (cases "is_table v \<and> (\<exists>b. map_of base name = Some (JObj b))")
      case True
      then obtain o' b where o: "v = JObj o'" and b: "map_of base name = Some (JObj b)" by (cases v) auto
      have tables: "table_of q name = o'" "table_of base name = b" using Some o b by (simp_all add: table_of_def)
      have "t = merge_dicts b o'" using v o b by (simp add: merge_value_def)
      with assms(2) d(2) tables have "(case map_of o' key of None \<Rightarrow> map_of b key | Some v \<Rightarrow> Some (merge_value (map_of b key) v)) = Some j"
        by (simp add: map_of_merge_dicts)
      with assms(3) q tables show ?thesis by (auto simp: file_value_def merge_value_scalar [symmetric] dest: merge_value_scalar split: option.splits)
    next
      case False
      then have "v = JObj t" using v by (auto simp: merge_value_def split: json.splits option.splits)
      moreover have "table_of base name = []" using False calculation by (auto simp: table_of_def split: option.splits json.splits)
      ultimately show ?thesis using Some assms(2) q by (simp add: file_value_def table_of_def)
    qed
  qed
qed

section \<open>The environment over the files\<close>

definition setting_value ::
    "(string \<Rightarrow> string option) \<Rightarrow> (string \<times> string) list \<Rightarrow> json option \<Rightarrow> string \<Rightarrow> json option" where
  "setting_value env overrides in_files key =
     (case map_of overrides key of
        None \<Rightarrow> in_files
      | Some variable \<Rightarrow>
          (case env variable of
             None \<Rightarrow> in_files
           | Some v \<Rightarrow> (case env_value key v of Inl e \<Rightarrow> None | Inr j \<Rightarrow> Some j)))"

lemma setting_value_other:
  "k \<noteq> key \<Longrightarrow> setting_value env ((key, var) # ovs) old k = setting_value env ovs old k"
  by (simp add: setting_value_def)

lemma setting_value_absent: "k \<notin> set (dict_keys ovs) \<Longrightarrow> setting_value env ovs old k = old"
  by (simp add: setting_value_def map_of_eq_None_iff [THEN iffD2])

lemma setting_value_first:
  "setting_value env ((k, var) # ovs) old k =
     (case env var of None \<Rightarrow> old | Some v \<Rightarrow> (case env_value k v of Inl e \<Rightarrow> None | Inr j \<Rightarrow> Some j))"
  by (simp add: setting_value_def)

lemma env_value_postgres: "env_value ''postgres_url'' v = Inr (JStr v)"
proof -
  have "\<not> ends_with ''postgres_url'' ''_port''" "\<not> ends_with ''postgres_url'' ''_cores''" by code_simp+
  then show ?thesis by (simp add: env_value_def)
qed

lemma apply_overrides_lookup:
  assumes "apply_overrides env ovs (md, om) = Inr (md', om')" and "distinct (dict_keys ovs)"
  shows "k \<noteq> ''postgres_url'' \<Longrightarrow> map_of om' k = setting_value env ovs (map_of om k) k"
    and "map_of md' ''postgres_url'' = setting_value env ovs (map_of md ''postgres_url'') ''postgres_url''"
proof -
  have "(k \<noteq> ''postgres_url'' \<longrightarrow> map_of om' k = setting_value env ovs (map_of om k) k)
    \<and> map_of md' ''postgres_url'' = setting_value env ovs (map_of md ''postgres_url'') ''postgres_url''"
    using assms
  proof (induction ovs arbitrary: md om)
    case Nil
    then show ?case by (simp add: setting_value_def)
  next
    case (Cons x ovs)
    obtain key var where x: "x = (key, var)" by fastforce
    have fresh: "key \<notin> set (dict_keys ovs)" and d: "distinct (dict_keys ovs)" using Cons.prems(2) x by simp_all
    have absent: "setting_value env ovs old k' = old" if "k' = key" for k' old
      using setting_value_absent [OF fresh] that by simp
    show ?case
    proof (cases "env var")
      case None
      then have "apply_overrides env ovs (md, om) = Inr (md', om')" using Cons.prems(1) x by simp
      from Cons.IH [OF this d] show ?thesis
        using None by (cases "k = key"; cases "key = ''postgres_url''") (simp_all add: x setting_value_other setting_value_first absent)
    next
      case (Some v)
      show ?thesis
      proof (cases "key = ''postgres_url''")
        case True
        then have "apply_overrides env ovs (dict_set key (JStr v) md, om) = Inr (md', om')" using Cons.prems(1) x Some by simp
        from Cons.IH [OF this d] show ?thesis
          using Some True by (simp add: x setting_value_other setting_value_first absent env_value_postgres)
      next
        case False
        then obtain j where j: "env_value key v = Inr j"
          and "apply_overrides env ovs (md, dict_set key j om) = Inr (md', om')"
          using Cons.prems(1) x Some by (auto split: sum.splits)
        from Cons.IH [OF this(2) d] show ?thesis
          using Some False j
          by (cases "k = key") (simp_all add: x setting_value_other setting_value_first absent)
      qed
    qed
  qed
  then show "k \<noteq> ''postgres_url'' \<Longrightarrow> map_of om' k = setting_value env ovs (map_of om k) k"
    and "map_of md' ''postgres_url'' = setting_value env ovs (map_of md ''postgres_url'') ''postgres_url''" by blast+
qed

section \<open>Precedence\<close>

definition omega_toml :: "omega_settings \<Rightarrow> toml" where
  "omega_toml s =
     [(''redis'', JStr (om_redis s)), (''cas_endpoint'', JStr (om_cas_endpoint s)), (''cas_bucket'', JStr (om_cas_bucket s)),
      (''cas_access_key'', JStr (om_cas_access_key s)), (''cas_secret_key'', JStr (om_cas_secret_key s)),
      (''executor_host'', JStr (om_executor_host s)), (''executor_base_port'', JInt (om_executor_base_port s)),
      (''executor_cores'', JInt (om_executor_cores s)), (''telemetry_host'', JStr (om_telemetry_host s)),
      (''telemetry_port'', JInt (om_telemetry_port s)), (''worker_heartbeat_ttl_seconds'', JInt (om_worker_heartbeat_ttl_seconds s))]"

definition budgets_toml :: "budget_settings \<Rightarrow> toml" where
  "budgets_toml s =
     [(''max_capsules'', JInt (bs_max_capsules s)), (''max_wall_seconds'', JInt (bs_max_wall_seconds s)),
      (''max_diff_lines'', JInt (bs_max_diff_lines s)), (''max_touched_files'', JInt (bs_max_touched_files s)),
      (''max_depth'', JInt (bs_max_depth s)), (''max_children'', JInt (bs_max_children s)),
      (''suspicious_line_count'', JInt (bs_suspicious_line_count s))]"

definition policy_toml :: "policy_settings \<Rightarrow> toml" where
  "policy_toml s =
     [(''deny_edit_tests'', JBool (ps_deny_edit_tests s)), (''deny_disable_asserts'', JBool (ps_deny_disable_asserts s)),
      (''require_hardware_isolation'', JBool (ps_require_hardware_isolation s))]"

lemma read_scalar:
  "arg js_str m k = Some x \<longleftrightarrow> m k = Some (JStr x)" "arg js_int m k = Some n \<longleftrightarrow> m k = Some (JInt n)"
  "arg js_bool m k = Some b \<longleftrightarrow> m k = Some (JBool b)"
  by (auto simp: arg_def bind_eq_Some_conv elim!: js_str.elims js_int.elims js_bool.elims)

lemma kwargs_obj: "kwargs req [] (JObj t) = Some m \<Longrightarrow> m = map_of t"
  by (simp split: if_splits)

lemma omega_from_toml: "omega_from t = Some s \<Longrightarrow> \<forall>(k, j) \<in> set (omega_toml s). map_of t k = Some j \<and> \<not> is_table j"
  unfolding omega_from_def bind_eq_Some_conv read_scalar by (elim exE conjE) (drule kwargs_obj, auto simp: omega_toml_def)

lemma budgets_from_toml: "budgets_from t = Some s \<Longrightarrow> \<forall>(k, j) \<in> set (budgets_toml s). map_of t k = Some j \<and> \<not> is_table j"
  unfolding budgets_from_def bind_eq_Some_conv read_scalar by (elim exE conjE) (drule kwargs_obj, auto simp: budgets_toml_def)

lemma policy_from_toml: "policy_from t = Some s \<Longrightarrow> \<forall>(k, j) \<in> set (policy_toml s). map_of t k = Some j \<and> \<not> is_table j"
  unfolding policy_from_def bind_eq_Some_conv read_scalar by (elim exE conjE) (drule kwargs_obj, auto simp: policy_toml_def)

lemma metadata_from_toml: "metadata_from t = Some s \<Longrightarrow> map_of t ''postgres_url'' = Some (JStr s)"
  unfolding metadata_from_def bind_eq_Some_conv read_scalar by (elim exE conjE) (drule kwargs_obj, auto)

lemma overrides_distinct: "distinct (dict_keys env_overrides)"
  by code_simp

lemma setting_value_cong:
  "setting_value env ovs old k = Some j \<Longrightarrow> (old = Some j \<Longrightarrow> old' = Some j) \<Longrightarrow> setting_value env ovs old' k = Some j"
  by (auto simp: setting_value_def split: option.splits)

text \<open>
  C33. Every setting comes from the source of highest precedence that gives it: the environment
  variable over the profile's file over the base file for the eleven settings of the daemons and
  the database address, the profile over the base for budgets and policy, which no variable
  overrides; ports and core counts of the environment are read as integers. TOML tables have
  no key twice.
\<close>

theorem environment_over_profile_over_base:
  assumes "load_config env (Inr base) (Inr p) profile = Inr cfg" and "\<And>q. p = Some q \<Longrightarrow> tables_distinct q"
  shows "(\<forall>(k, j) \<in> set (omega_toml (ac_omega cfg)).
        setting_value env env_overrides (file_value base p profile ''omega'' k) k = Some j)
    \<and> setting_value env env_overrides (file_value base p profile ''metadata'' ''postgres_url'') ''postgres_url''
        = Some (JStr (ac_postgres_url cfg))
    \<and> (\<forall>(k, j) \<in> set (budgets_toml (ac_budgets cfg)). file_value base p profile ''budgets'' k = Some j)
    \<and> (\<forall>(k, j) \<in> set (policy_toml (ac_policy cfg)). file_value base p profile ''policy'' k = Some j)"
proof -
  let ?merged = "merged_config base p profile"
  have "load_config env (Inr base) (Inr p) profile = Inr cfg \<Longrightarrow> merged_config base (if profile \<noteq> ''omega'' then p else None) profile = ?merged"
    by (simp add: merged_config_def)
  with assms(1) obtain md om md' om' bs ps where md: "section_of ?merged ''metadata'' = Inr md" and om: "section_of ?merged ''omega'' = Inr om"
    and over: "apply_overrides env env_overrides (md, om) = Inr (md', om')"
    and bs: "section_of ?merged ''budgets'' = Inr bs" and ps: "section_of ?merged ''policy'' = Inr ps"
    and built: "metadata_from md' = Some (ac_postgres_url cfg)" "omega_from om' = Some (ac_omega cfg)"
      "budgets_from bs = Some (ac_budgets cfg)" "policy_from ps = Some (ac_policy cfg)"
    by (auto simp: load_config_def bind_value_Inr Let_def split: if_splits)
  note lookup = apply_overrides_lookup [OF over overrides_distinct]
  note from_files = merged_value [OF _ _ _ assms(2)]
  have "setting_value env env_overrides (file_value base p profile ''omega'' k) k = Some j"
    if "(k, j) \<in> set (omega_toml (ac_omega cfg))" for k j
  proof -
    have j: "map_of om' k = Some j" "\<not> is_table j" using omega_from_toml [OF built(2)] that by auto
    have "k \<noteq> ''postgres_url''" using that by (auto simp: omega_toml_def)
    from setting_value_cong [OF trans [OF lookup(1) [OF this, symmetric] j(1)]] from_files [OF om _ j(2)]
    show ?thesis by blast
  qed
  moreover have "setting_value env env_overrides (file_value base p profile ''metadata'' ''postgres_url'') ''postgres_url''
      = Some (JStr (ac_postgres_url cfg))"
    using setting_value_cong [OF trans [OF lookup(2) [symmetric] metadata_from_toml [OF built(1)]]]
      from_files [OF md, of "''postgres_url''" "JStr (ac_postgres_url cfg)"] by simp
  moreover have "file_value base p profile ''budgets'' k = Some j" if "(k, j) \<in> set (budgets_toml (ac_budgets cfg))" for k j
    using budgets_from_toml [OF built(3)] that from_files [OF bs] by blast
  moreover have "file_value base p profile ''policy'' k = Some j" if "(k, j) \<in> set (policy_toml (ac_policy cfg))" for k j
    using policy_from_toml [OF built(4)] that from_files [OF ps] by blast
  ultimately show ?thesis by auto
qed

definition sample_base :: toml where
  "sample_base =
     [(''repo'', JObj [(''language'', JStr ''python''), (''package_manager'', JStr ''pip'')]),
      (''metadata'', JObj [(''postgres_url'', JStr ''pg'')]),
      (''omega'', JObj [(''redis'', JStr ''r''), (''cas_endpoint'', JStr ''e''), (''cas_bucket'', JStr ''b''),
         (''cas_access_key'', JStr ''a''), (''cas_secret_key'', JStr ''s''), (''executor_host'', JStr ''h''),
         (''executor_base_port'', JInt 18000), (''executor_cores'', JInt 2), (''telemetry_host'', JStr ''h''),
         (''telemetry_port'', JInt 8787), (''worker_heartbeat_ttl_seconds'', JInt 10)]),
      (''budgets'', JObj [(''max_capsules'', JInt 200), (''max_wall_seconds'', JInt 600), (''max_diff_lines'', JInt 10),
         (''max_touched_files'', JInt 1), (''max_depth'', JInt 6), (''max_children'', JInt 4), (''suspicious_line_count'', JInt 5)]),
      (''policy'', JObj [(''deny_edit_tests'', JBool True), (''deny_disable_asserts'', JBool True),
         (''require_hardware_isolation'', JBool True)])]"

definition sample_profile :: toml where
  "sample_profile = [(''policy'', JObj [(''require_hardware_isolation'', JBool False)]), (''omega'', JObj [(''executor_cores'', JInt 4)])]"

definition sample_variables :: "string \<Rightarrow> string option" where
  "sample_variables = (\<lambda>v. if v = ''OMEGA_EXECUTOR_BASE_PORT'' then Some ''19_000'' else None)"

theorem environment_over_profile_over_base_witness:
  "\<exists>cfg. load_config sample_variables (Inr sample_base) (Inr (Some sample_profile)) ''dev'' = Inr cfg
     \<and> om_executor_base_port (ac_omega cfg) = 19000 \<and> om_executor_cores (ac_omega cfg) = 4
     \<and> om_telemetry_port (ac_omega cfg) = 8787 \<and> \<not> ps_require_hardware_isolation (ac_policy cfg)"
proof -
  have "case load_config sample_variables (Inr sample_base) (Inr (Some sample_profile)) ''dev'' of Inl e \<Rightarrow> False | Inr cfg \<Rightarrow> True" by code_simp
  then obtain cfg where run: "load_config sample_variables (Inr sample_base) (Inr (Some sample_profile)) ''dev'' = Inr cfg"
    by (auto split: sum.splits)
  have "tables_distinct sample_profile"
    by (simp add: tables_distinct_def table_of_def sample_profile_def)
  with environment_over_profile_over_base [OF run] have *:
    "\<forall>(k, j) \<in> set (omega_toml (ac_omega cfg)). setting_value sample_variables env_overrides (file_value sample_base (Some sample_profile) ''dev'' ''omega'' k) k = Some j"
    "\<forall>(k, j) \<in> set (policy_toml (ac_policy cfg)). file_value sample_base (Some sample_profile) ''dev'' ''policy'' k = Some j"
    by auto
  have computed: "setting_value sample_variables env_overrides (file_value sample_base (Some sample_profile) ''dev'' ''omega'' ''executor_base_port'') ''executor_base_port'' = Some (JInt 19000)"
    "setting_value sample_variables env_overrides (file_value sample_base (Some sample_profile) ''dev'' ''omega'' ''executor_cores'') ''executor_cores'' = Some (JInt 4)"
    "setting_value sample_variables env_overrides (file_value sample_base (Some sample_profile) ''dev'' ''omega'' ''telemetry_port'') ''telemetry_port'' = Some (JInt 8787)"
    "file_value sample_base (Some sample_profile) ''dev'' ''policy'' ''require_hardware_isolation'' = Some (JBool False)"
    by code_simp+
  have "om_executor_base_port (ac_omega cfg) = 19000 \<and> om_executor_cores (ac_omega cfg) = 4 \<and> om_telemetry_port (ac_omega cfg) = 8787"
    using *(1) computed(1-3) by (simp add: omega_toml_def)
  moreover have "\<not> ps_require_hardware_isolation (ac_policy cfg)"
    using *(2) computed(4) by (simp add: policy_toml_def)
  ultimately show ?thesis using run by blast
qed

end
