(* ===== verification/Coverage.thy ===== *)
theory Coverage
  imports FaultLocalization PyText Merger
begin

text \<open>
  Coverage analysis (\<open>coverage_analysis.py\<close>): the tests pytest collects, each run alone under
  coverage, and the matrix of the lines they executed, from which the fault localiser ranks the
  suspicious lines. The processes and the file system are a parameter.
\<close>

section \<open>Collecting the tests\<close>

record 'e coverage_env =
  cv_collect :: "string \<Rightarrow> 'e \<Rightarrow> (py_error + string) \<times> 'e"
  cv_exists :: "string \<Rightarrow> 'e \<Rightarrow> bool"
  cv_resolve :: "string \<Rightarrow> 'e \<Rightarrow> string list"
  cv_run :: "string \<Rightarrow> 'e \<Rightarrow> (py_error + int) \<times> 'e"
  cv_report :: "string \<Rightarrow> 'e \<Rightarrow> (py_error + rtext option) \<times> 'e"
  cv_clock :: "'e \<Rightarrow> real"
  cv_ranking_seconds :: real

text \<open>\<open>str.splitlines()\<close>, without the ends.\<close>

definition strip_end :: "string \<Rightarrow> string" where
  "strip_end line = rev (dropWhile is_str_break (rev line))"

definition str_splitlines :: "string \<Rightarrow> string list" where
  "str_splitlines s = map strip_end (splitlines_keepends s)"

text \<open>A resolved path relative to another one that contains it, as text.\<close>

definition relative_text :: "string list \<Rightarrow> string" where
  "relative_text parts = (case parts of [] \<Rightarrow> ''.'' | p # ps \<Rightarrow> p @ concat (map (\<lambda>q. CHR ''/'' # q) ps))"

definition normalized_text :: "string list \<Rightarrow> string list \<Rightarrow> string" where
  "normalized_text repo_path candidate =
     (if is_prefix repo_path candidate then relative_text (drop (length repo_path) candidate) else path_text candidate)"

definition resolve_candidate :: "'e coverage_env \<Rightarrow> string list \<Rightarrow> string \<Rightarrow> 'e \<Rightarrow> string list" where
  "resolve_candidate env repo_path path_part e =
     (if (path_part \<noteq> [] \<and> hd path_part = CHR ''/'') \<or> cv_exists env path_part e
      then cv_resolve env path_part e
      else cv_resolve env (path_join repo_path path_part) e)"

definition node_id_of_line :: "'e coverage_env \<Rightarrow> string list \<Rightarrow> 'e \<Rightarrow> string \<Rightarrow> string option" where
  "node_id_of_line env repo_path e line =
     (let stripped = py_strip line
      in if stripped = [] \<or> hd stripped = CHR ''='' then None
         else case str_find stripped ''::'' of
           None \<Rightarrow> None
         | Some i \<Rightarrow>
             Some (normalized_text repo_path (resolve_candidate env repo_path (take i stripped) e)
               @ ''::'' @ drop (i + 2) stripped))"

definition pytest_node_ids :: "'e coverage_env \<Rightarrow> string list \<Rightarrow> string list \<Rightarrow> 'e \<Rightarrow> (py_error + string list) \<times> 'e" where
  "pytest_node_ids env test_path repo_path e =
     (let rel_test = normalized_text repo_path test_path
      in case cv_collect env rel_test e of
           (Inl err, e) \<Rightarrow> (Inl err, e)
         | (Inr stdout, e) \<Rightarrow>
             (let node_ids = List.map_filter (node_id_of_line env repo_path e) (str_splitlines stdout)
              in (Inr (if node_ids \<noteq> [] then node_ids else [rel_test]), e)))"

section \<open>The matrix\<close>

definition match_file_key :: "'e coverage_env \<Rightarrow> (string \<times> json) list \<Rightarrow> string list \<Rightarrow> string list \<Rightarrow> 'e \<Rightarrow> string option" where
  "match_file_key env files source_abs repo_path e =
     find (\<lambda>key. cv_resolve env (if key \<noteq> [] \<and> hd key = CHR ''/'' then key else path_join repo_path key) e = source_abs)
       (dict_keys files)"

definition count_line :: "string \<Rightarrow> int \<Rightarrow> coverage_matrix \<Rightarrow> coverage_matrix" where
  "count_line bucket line matrix =
     (let stats = dict_get matrix line [(''passed'', 0), (''failed'', 0)]
      in dict_set line (dict_set bucket (dict_get stats bucket 0 + 1) stats) matrix)"

fun count_lines :: "string \<Rightarrow> int list \<Rightarrow> coverage_matrix \<Rightarrow> coverage_matrix" where
  "count_lines bucket [] matrix = matrix"
| "count_lines bucket (line # lines) matrix = count_lines bucket lines (count_line bucket line matrix)"

text \<open>
  The lines of the source that a report names, None where it has no entry for the source. The code
  applies \<open>int\<close> to each; coverage writes integers, and anything else is refused here.
\<close>

definition executed_lines ::
    "'e coverage_env \<Rightarrow> string list \<Rightarrow> string list \<Rightarrow> rtext \<Rightarrow> 'e \<Rightarrow> py_error + int list option" where
  "executed_lines env source repo text e =
     (case text_json text of
        None \<Rightarrow> Inl ValueError
      | Some report \<Rightarrow>
          (case js_obj report of
             None \<Rightarrow> Inl TypeError
           | Some d \<Rightarrow>
               (case js_obj (dict_get d ''files'' (JObj [])) of
                  None \<Rightarrow> Inl TypeError
                | Some files \<Rightarrow>
                    (case match_file_key env files source repo e of
                       None \<Rightarrow> Inr None
                     | Some key \<Rightarrow>
                         if key = [] then Inr None
                         else case js_obj (dict_get files key JNull) of
                           None \<Rightarrow> Inl TypeError
                         | Some entry \<Rightarrow>
                             (case js_list js_int (dict_get entry ''executed_lines'' (JArr [])) of
                                None \<Rightarrow> Inl TypeError
                              | Some lines \<Rightarrow> Inr (Some lines))))))"

record coverage_state =
  cs_matrix :: coverage_matrix
  cs_passed :: nat
  cs_failed :: nat
  cs_seconds :: real

text \<open>One test alone: what it executed, in the bucket of its outcome.\<close>

definition run_node ::
    "'e coverage_env \<Rightarrow> string list \<Rightarrow> string list \<Rightarrow> string \<Rightarrow> coverage_state \<Rightarrow> 'e \<Rightarrow> (py_error + coverage_state) \<times> 'e" where
  "run_node env source repo node_id st e =
     (case cv_run env node_id e of
        (Inl err, e) \<Rightarrow> (Inl err, e)
      | (Inr returncode, e1) \<Rightarrow>
          (case cv_report env node_id e1 of
             (Inl err, e) \<Rightarrow> (Inl err, e)
           | (Inr report, e2) \<Rightarrow>
               (let bucket = (if returncode = 0 then ''passed'' else ''failed'');
                    st = (if returncode = 0 then st\<lparr>cs_passed := Suc (cs_passed st)\<rparr> else st\<lparr>cs_failed := Suc (cs_failed st)\<rparr>)
                in case report of
                     None \<Rightarrow> (Inr st, e2)
                   | Some text \<Rightarrow>
                       (case executed_lines env source repo text e2 of
                          Inl err \<Rightarrow> (Inl err, e2)
                        | Inr None \<Rightarrow> (Inr st, e2)
                        | Inr (Some lines) \<Rightarrow>
                            (Inr (st\<lparr>cs_matrix := count_lines bucket lines (cs_matrix st),
                               cs_seconds := cs_seconds st + (cv_clock env e2 - cv_clock env e)\<rparr>), e2)))))"

fun run_nodes ::
    "'e coverage_env \<Rightarrow> string list \<Rightarrow> string list \<Rightarrow> string list \<Rightarrow> coverage_state \<Rightarrow> 'e \<Rightarrow> (py_error + coverage_state) \<times> 'e" where
  "run_nodes env source repo [] st e = (Inr st, e)"
| "run_nodes env source repo (node_id # node_ids) st e =
     (case run_node env source repo node_id st e of
        (Inl err, e) \<Rightarrow> (Inl err, e)
      | (Inr st, e) \<Rightarrow> run_nodes env source repo node_ids st e)"

section \<open>The report\<close>

record coverage_build_report =
  cb_matrix :: coverage_matrix
  cb_suspicious_lines :: "int list"
  cb_failed_count :: nat
  cb_passed_count :: nat
  cb_node_ids :: "string list"
  cb_timings :: "(string \<times> real) list"

definition build_coverage_report ::
    "'e coverage_env \<Rightarrow> string \<Rightarrow> string \<Rightarrow> string \<Rightarrow> int \<Rightarrow> 'e \<Rightarrow> (py_error + coverage_build_report) \<times> 'e" where
  "build_coverage_report env source_path test_path repo_path suspicious_line_count e0 =
     (let source = cv_resolve env source_path e0;
          test = cv_resolve env test_path e0;
          repo = cv_resolve env repo_path e0
      in case pytest_node_ids env test repo e0 of
           (Inl err, e) \<Rightarrow> (Inl err, e)
         | (Inr node_ids, e1) \<Rightarrow>
             (case run_nodes env source repo node_ids \<lparr>cs_matrix = [], cs_passed = 0, cs_failed = 0, cs_seconds = 0\<rparr> e1 of
                (Inl err, e) \<Rightarrow> (Inl err, e)
              | (Inr st, e2) \<Rightarrow>
                  (Inr \<lparr>cb_matrix = cs_matrix st,
                     cb_suspicious_lines =
                       get_top_k_lines \<lparr>total_failed = cs_failed st, total_passed = cs_passed st\<rparr> (cs_matrix st) suspicious_line_count,
                     cb_failed_count = cs_failed st, cb_passed_count = cs_passed st, cb_node_ids = node_ids,
                     cb_timings = [(''pytest_collect_seconds'', cv_clock env e1 - cv_clock env e0),
                       (''coverage_matrix_seconds'', cs_seconds st), (''suspicious_ranking_seconds'', cv_ranking_seconds env),
                       (''coverage_total_seconds'', cv_clock env e2 - cv_clock env e0)]\<rparr>, e2)))"

text \<open>The report as the tuple of its main parts; nothing in the repository calls it.\<close>

definition build_coverage_matrix ::
    "'e coverage_env \<Rightarrow> string \<Rightarrow> string \<Rightarrow> string \<Rightarrow> int \<Rightarrow> 'e
       \<Rightarrow> (py_error + coverage_matrix \<times> int list \<times> nat \<times> nat \<times> string list) \<times> 'e" where
  "build_coverage_matrix env source_path test_path repo_path suspicious_line_count e =
     (case build_coverage_report env source_path test_path repo_path suspicious_line_count e of
        (Inl err, e) \<Rightarrow> (Inl err, e)
      | (Inr report, e) \<Rightarrow>
          (Inr (cb_matrix report, cb_suspicious_lines report, cb_failed_count report, cb_passed_count report, cb_node_ids report), e))"

end
