(* ===== verification/Seed.thy ===== *)
theory Seed
  imports Coverage CandidateBudget TreeSearch Signatures
begin

text \<open>
  Seeding a repair task (\<open>omega_cli.py\<close>): the snapshot of the repository, the coverage report, the
  plan, and the root of the search tree in the shared store and the ledger. Reading files, the
  listing of the repository, hashes, clocks and the random identifier are parameters.
\<close>

section \<open>The snapshot\<close>

definition IGNORED_SNAPSHOT_DIRS :: "string list" where
  "IGNORED_SNAPSHOT_DIRS =
     [''.git'', ''.hg'', ''.svn'', ''.venv'', ''.mypy_cache'', ''.pytest_cache'', ''__pycache__'', ''node_modules'',
      ''dist'', ''build'', ''target'', ''tmp'']"

definition MAX_SNAPSHOT_BYTES :: nat where
  "MAX_SNAPSHOT_BYTES = 512 * 1024"

text \<open>An entry below the repository, as \<open>rglob\<close> finds it: its path there, its kind, size and text.\<close>

record dir_entry =
  de_parts :: "string list"
  de_is_dir :: bool
  de_is_symlink :: bool
  de_size :: nat
  de_text :: "py_error + string"

fun snapshot_repo_files :: "dir_entry list \<Rightarrow> py_error + (string \<times> string) list" where
  "snapshot_repo_files [] = Inr []"
| "snapshot_repo_files (entry # entries) =
     (if de_is_dir entry \<or> (\<exists>part \<in> set (de_parts entry). part \<in> set IGNORED_SNAPSHOT_DIRS)
        \<or> de_is_symlink entry \<or> de_size entry > MAX_SNAPSHOT_BYTES
      then snapshot_repo_files entries
      else case de_text entry of
        Inl UnicodeDecodeError \<Rightarrow> snapshot_repo_files entries
      | Inl err \<Rightarrow> Inl err
      | Inr text \<Rightarrow> py_bind (snapshot_repo_files entries) (\<lambda>snapshot. Inr ((relative_text (de_parts entry), text) # snapshot)))"

definition snapshot_json :: "(string \<times> string) list \<Rightarrow> json" where
  "snapshot_json snapshot = js_sort (JObj (map (\<lambda>(path, text). (path, JStr text)) snapshot))"

definition snapshot_bytes :: "(string \<times> string) list \<Rightarrow> int" where
  "snapshot_bytes snapshot = sum_list (map (\<lambda>(path, text). int (length (utf8_encode text))) snapshot)"

section \<open>Paths\<close>

text \<open>\<open>os.path.commonpath\<close> of two resolved paths.\<close>

fun common_path :: "string list \<Rightarrow> string list \<Rightarrow> string list" where
  "common_path (x # xs) (y # ys) = (if x = y then x # common_path xs ys else [])"
| "common_path _ _ = []"

definition relative_to :: "string list \<Rightarrow> string list \<Rightarrow> py_error + string" where
  "relative_to path base = (if is_prefix base path then Inr (relative_text (drop (length base) path)) else Inl ValueError)"

section \<open>Seeding\<close>

record ('s, 'e) cli_env =
  cl_redis :: "'s redis"
  cl_coverage :: "'e coverage_env"
  cl_budgets :: budget_settings
  cl_read :: "string list \<Rightarrow> 'e \<Rightarrow> py_error + string"
  cl_rglob :: "string list \<Rightarrow> 'e \<Rightarrow> dir_entry list"
  cl_sha256_json :: "json \<Rightarrow> string"
  cl_uuid_hex :: "'e \<Rightarrow> string"
  cl_now :: "'e \<Rightarrow> real"
  cl_snapshot_seconds :: "'e \<Rightarrow> real"
  cl_seed_seconds :: "'e \<Rightarrow> real"

definition matrix_json :: "coverage_matrix \<Rightarrow> json" where
  "matrix_json matrix =
     JObj (map (\<lambda>(line, stats). (json_int line, js_sort (JObj (map (\<lambda>(b, n). (b, JInt (int n))) stats)))) (sort_key fst matrix))"

text \<open>What is read before anything is written.\<close>

record seed_input =
  si_source :: "string list"
  si_test :: "string list"
  si_repo :: "string list"
  si_source_relpath :: string
  si_test_relpath :: string
  si_code :: string
  si_test_code :: string
  si_snapshot :: "(string \<times> string) list"
  si_report :: coverage_build_report

definition read_seed_input ::
    "('s, 'e) cli_env \<Rightarrow> string \<Rightarrow> string \<Rightarrow> string option \<Rightarrow> 'e \<Rightarrow> (py_error + seed_input) \<times> 'e" where
  "read_seed_input env source_file test_file repo e =
     (let resolve = cv_resolve (cl_coverage env);
          source_path = resolve source_file e;
          test_path = resolve test_file e;
          repo_path = (case repo of Some r \<Rightarrow> if r \<noteq> [] then resolve r e else common_path source_path test_path
                       | None \<Rightarrow> common_path source_path test_path);
          before = py_bind (relative_to source_path repo_path) (\<lambda>source_relpath.
                   py_bind (relative_to test_path repo_path) (\<lambda>test_relpath.
                   py_bind (cl_read env source_path e) (\<lambda>code.
                   py_bind (cl_read env test_path e) (\<lambda>test_code.
                   py_bind (snapshot_repo_files (cl_rglob env repo_path e)) (\<lambda>snapshot.
                     Inr (source_relpath, test_relpath, code, test_code, snapshot))))))
      in case before of
           Inl err \<Rightarrow> (Inl err, e)
         | Inr (source_relpath, test_relpath, code, test_code, snapshot) \<Rightarrow>
             (case build_coverage_report (cl_coverage env) (path_text source_path) (path_text test_path) (path_text repo_path)
                 (bs_suspicious_line_count (cl_budgets env)) e of
                (Inl err, e) \<Rightarrow> (Inl err, e)
              | (Inr report, e) \<Rightarrow>
                  (Inr \<lparr>si_source = source_path, si_test = test_path, si_repo = repo_path, si_source_relpath = source_relpath,
                     si_test_relpath = test_relpath, si_code = code, si_test_code = test_code, si_snapshot = snapshot,
                     si_report = report\<rparr>, e)))"

definition seed_plan :: "('s, 'e) cli_env \<Rightarrow> coverage_build_report \<Rightarrow> task_plan" where
  "seed_plan env report =
     build_task_plan (cb_matrix report) (cb_suspicious_lines report) (cb_failed_count report) (cb_passed_count report) (cl_budgets env)"

definition root_fields :: "('s, 'e) cli_env \<Rightarrow> string \<Rightarrow> seed_input \<Rightarrow> 'e \<Rightarrow> (string \<times> rtext) list" where
  "root_fields env task_id inp e =
     (let report = si_report inp; plan = seed_plan env report; snapshot = snapshot_json (si_snapshot inp)
      in [(''tree_id'', Txt task_id), (''code'', Txt (si_code inp)), (''test_code'', Txt (si_test_code inp)),
          (''source_path'', Txt (path_text (si_source inp))), (''test_path'', Txt (path_text (si_test inp))),
          (''source_relpath'', Txt (si_source_relpath inp)), (''test_relpath'', Txt (si_test_relpath inp)),
          (''repo_path'', Txt (path_text (si_repo inp))), (''repo_snapshot'', Doc snapshot),
          (''repo_snapshot_digest'', Txt (cl_sha256_json env snapshot)),
          (''repo_snapshot_bytes'', Num (snapshot_bytes (si_snapshot inp))),
          (''repo_snapshot_files'', Num (int (length (si_snapshot inp)))),
          (''parent'', Txt ''''), (''visits'', Num 0), (''value_sum'', Flt 0),
          (''tests_failed'', Num (int (cb_failed_count report))), (''tests_passed'', Num (int (cb_passed_count report))),
          (''is_terminal'', Txt ''False''), (''expanded'', Txt ''False''), (''depth'', Num 0), (''best_reward'', Flt 0),
          (''max_depth_seen'', Num 0), (''generated_capsules'', Num 0),
          (''coverage_matrix'', Doc (matrix_json (cb_matrix report))),
          (''suspicious_lines'', Doc (JArr (map JInt (cb_suspicious_lines report)))),
          (''plan_json'', Doc (plan_to_json plan)), (''plan_summary'', Txt (tp_summary plan)),
          (''collected_test_nodes'', Doc (JArr (map JStr (cb_node_ids report)))), (''created_at'', Flt (cl_now env e))])"

definition seed_timings :: "('s, 'e) cli_env \<Rightarrow> coverage_build_report \<Rightarrow> 'e \<Rightarrow> (string \<times> json) list" where
  "seed_timings env report e =
     (''repo_snapshot_seconds'', JFloat (cl_snapshot_seconds env e))
       # map (\<lambda>(name, seconds). (name, JFloat seconds)) (cb_timings report)
       @ [(''seed_total_seconds'', JFloat (cl_seed_seconds env e))]"

definition seed_task_row :: "('s, 'e) cli_env \<Rightarrow> string \<Rightarrow> seed_input \<Rightarrow> 'e \<Rightarrow> task_row" where
  "seed_task_row env profile inp e =
     (let report = si_report inp; snapshot = snapshot_json (si_snapshot inp)
      in \<lparr>tr_repo_path = path_text (si_repo inp), tr_source_path = path_text (si_source inp),
          tr_test_path = path_text (si_test inp), tr_repo_revision = '''', tr_objective = ''repair'',
          tr_trigger = ''manual'', tr_profile = profile, tr_status = ''seeded'', tr_created_at = cl_now env e,
          tr_metadata =
            [''suspicious_lines'' \<mapsto> JArr (map JInt (cb_suspicious_lines report)),
             ''coverage_matrix'' \<mapsto> matrix_json (cb_matrix report),
             ''collected_test_nodes'' \<mapsto> JArr (map JStr (cb_node_ids report)),
             ''tests_failed'' \<mapsto> JInt (int (cb_failed_count report)),
             ''tests_passed'' \<mapsto> JInt (int (cb_passed_count report)),
             ''task_plan'' \<mapsto> plan_to_json (seed_plan env report),
             ''timings'' \<mapsto> JObj (seed_timings env report e),
             ''snapshot'' \<mapsto> JObj [(''digest'', JStr (cl_sha256_json env snapshot)),
                (''bytes'', JInt (snapshot_bytes (si_snapshot inp))), (''files'', JInt (int (length (si_snapshot inp))))]]\<rparr>)"

definition seed_candidate_row :: "('s, 'e) cli_env \<Rightarrow> string \<Rightarrow> seed_input \<Rightarrow> 'e \<Rightarrow> candidate_row" where
  "seed_candidate_row env task_id inp e =
     \<lparr>cr_task_id = task_id, cr_parent_id = None, cr_patch_kind = ''seed'', cr_status = ''seeded'',
      cr_source_relpath = si_source_relpath inp, cr_files_touched = [si_source_relpath inp],
      cr_diff_summary = ''Initial task root candidate'', cr_static_score = 0, cr_rank_score = None,
      cr_created_at = cl_now env e, cr_metadata = [''is_root'' \<mapsto> JBool True]\<rparr>"

text \<open>The root in the store, then the task and its root candidate in the ledger.\<close>

definition write_seed ::
    "('s, 'e) cli_env \<Rightarrow> string \<Rightarrow> string \<Rightarrow> seed_input \<Rightarrow> 'e \<Rightarrow> 's world \<Rightarrow> 's world outcome" where
  "write_seed env profile task_id inp e w =
     (let root_id = root_node_id task_id;
          w = w_exec (cl_redis env) [CSAdd TREE_INDEX task_id, CHSet root_id (root_fields env task_id inp e)] w;
          w = w\<lparr>w_db := record_task task_id (seed_task_row env profile inp e) (w_db w)\<rparr>
      in case record_candidate root_id (seed_candidate_row env task_id inp e) (w_db w) of
           Inl err \<Rightarrow> Crash DatabaseError w
         | Inr db \<Rightarrow> Done (w\<lparr>w_db := db\<rparr>))"

text \<open>The line that a successful seeding prints.\<close>

definition seed_message :: "string \<Rightarrow> coverage_build_report \<Rightarrow> task_plan \<Rightarrow> string" where
  "seed_message task_id report plan =
     ''Seeded task '' @ task_id @ '' with '' @ nat_str (cb_failed_count report) @ '' failing test(s); suspicious lines: ''
       @ ''['' @ join_text '', '' (map json_int (cb_suspicious_lines report)) @ '']; plan: '' @ tp_strategy plan"

text \<open>The exit status, with the world the seeding leaves.\<close>

definition fix_tests ::
    "('s, 'e) cli_env \<Rightarrow> string \<Rightarrow> string \<Rightarrow> string \<Rightarrow> string option \<Rightarrow> 's world \<Rightarrow> 'e \<Rightarrow> (py_error + int) \<times> 's world" where
  "fix_tests env source_file test_file profile repo w e =
     (case read_seed_input env source_file test_file repo e of
        (Inl err, e) \<Rightarrow> (Inl err, w)
      | (Inr inp, e) \<Rightarrow>
          if cb_failed_count (si_report inp) = 0 then (Inr 1, w)
          else case write_seed env profile (''task_'' @ take 8 (cl_uuid_hex env e)) inp e w of
            Done w \<Rightarrow> (Inr 0, w)
          | Crash err w \<Rightarrow> (Inl err, w))"

end
