(* ===== verification/Telemetry.thy ===== *)
theory Telemetry
  imports SharedStore Settings
begin

text \<open>
  What the dashboard reads: the aggregate queries of the ledger
  (\<open>metadata_store.py\<close>, \<open>performance_snapshot\<close>) and the telemetry service
  (\<open>telemetry_api.py\<close>), which joins them with the counters, the recent runs and the roots of the
  shared store. A cast that the database refuses raises; a JSON text that denotes no number is
  read by the parameter \<open>pg_double\<close>.
\<close>

section \<open>Reading numbers out of a document\<close>

text \<open>\<open>j -> k\<close>, NULL on what is no object, \<open>j ->> k\<close> cast to a double, and the cast of a \<open>jsonb\<close>.\<close>

fun jsonb_get :: "json option \<Rightarrow> string \<Rightarrow> json option" where
  "jsonb_get (Some (JObj d)) k = map_of d k"
| "jsonb_get _ k = None"

fun text_double :: "(string \<Rightarrow> real option) \<Rightarrow> json option \<Rightarrow> py_error + real option" where
  "text_double pg_double None = Inr None"
| "text_double pg_double (Some JNull) = Inr None"
| "text_double pg_double (Some (JInt n)) = Inr (Some (of_int n))"
| "text_double pg_double (Some (JFloat x)) = Inr (Some x)"
| "text_double pg_double (Some (JStr s)) = (case pg_double s of None \<Rightarrow> Inl DatabaseError | Some x \<Rightarrow> Inr (Some x))"
| "text_double pg_double (Some _) = Inl DatabaseError"

fun jsonb_double :: "json option \<Rightarrow> py_error + real option" where
  "jsonb_double None = Inr None"
| "jsonb_double (Some (JInt n)) = Inr (Some (of_int n))"
| "jsonb_double (Some (JFloat x)) = Inr (Some x)"
| "jsonb_double (Some _) = Inl DatabaseError"

text \<open>\<open>COALESCE(AVG(e), 0)\<close> over the rows: NULLs are left out, the first refused cast raises.\<close>

fun read_rows :: "('r \<Rightarrow> py_error + 'a) \<Rightarrow> 'r list \<Rightarrow> py_error + 'a list" where
  "read_rows e [] = Inr []"
| "read_rows e (r # rs) = py_bind (e r) (\<lambda>x. py_bind (read_rows e rs) (\<lambda>xs. Inr (x # xs)))"

definition present :: "'a option list \<Rightarrow> 'a list" where
  "present xs = concat (map (\<lambda>x. case x of None \<Rightarrow> [] | Some v \<Rightarrow> [v]) xs)"

definition mean :: "real list \<Rightarrow> real" where
  "mean xs = (if xs = [] then 0 else sum_list xs / of_nat (length xs))"

definition sql_avg :: "('r \<Rightarrow> py_error + real option) \<Rightarrow> 'r list \<Rightarrow> py_error + real" where
  "sql_avg e rows = py_bind (read_rows e rows) (\<lambda>xs. Inr (mean (present xs)))"

section \<open>The columns\<close>

definition task_timing :: "(string \<Rightarrow> real option) \<Rightarrow> string \<Rightarrow> string \<Rightarrow> task_row \<Rightarrow> py_error + real option" where
  "task_timing pg_double section name row = text_double pg_double (jsonb_get (tr_metadata row section) name)"

definition execution_timing :: "(string \<Rightarrow> real option) \<Rightarrow> string \<Rightarrow> string \<Rightarrow> execution_row \<Rightarrow> py_error + real option" where
  "execution_timing pg_double section name row = text_double pg_double (jsonb_get (xr_meta row section) name)"

definition full_suite_timing :: "(string \<Rightarrow> real option) \<Rightarrow> execution_row \<Rightarrow> py_error + real option" where
  "full_suite_timing pg_double row =
     text_double pg_double (jsonb_get (jsonb_get (xr_meta row ''funnel'') ''stages'') ''full_suite_ms'')"

definition generation_timing :: "candidate_row \<Rightarrow> py_error + real option" where
  "generation_timing row = jsonb_double (cr_metadata row ''generation_seconds'')"

record performance =
  pf_tasks :: int
  pf_executions :: int
  pf_accepted :: int
  pf_policy_decisions :: int
  pf_generated_candidates :: int
  pf_avg_seed_ms :: real
  pf_avg_coverage_ms :: real
  pf_avg_generation_ms :: real
  pf_avg_queue_wait_ms :: real
  pf_avg_executor_ms :: real
  pf_avg_materialize_ms :: real
  pf_avg_artifact_write_ms :: real
  pf_avg_full_suite_ms :: real
  pf_avg_snapshot_bytes :: real

definition performance_snapshot :: "(string \<Rightarrow> real option) \<Rightarrow> metadata_db \<Rightarrow> py_error + performance" where
  "performance_snapshot pg_double db =
     (let tasks = map snd (db_tasks db); executions = map snd (db_executions db);
          decisions = map snd (db_policy_decisions db);
          generated = filter (\<lambda>r. cr_patch_kind r \<noteq> ''seed'') (map snd (db_candidates db))
      in py_bind (sql_avg (task_timing pg_double ''timings'' ''seed_total_seconds'') tasks) (\<lambda>seed.
         py_bind (sql_avg (task_timing pg_double ''timings'' ''coverage_total_seconds'') tasks) (\<lambda>coverage.
         py_bind (sql_avg (task_timing pg_double ''snapshot'' ''bytes'') tasks) (\<lambda>bytes.
         py_bind (sql_avg (\<lambda>r. Inr (xr_runtime r)) executions) (\<lambda>runtime.
         py_bind (sql_avg (execution_timing pg_double ''dispatch'' ''queue_wait_ms'') executions) (\<lambda>queue_wait.
         py_bind (sql_avg (execution_timing pg_double ''simulator'' ''materialize_ms'') executions) (\<lambda>materialize.
         py_bind (sql_avg (execution_timing pg_double ''simulator'' ''artifact_write_ms'') executions) (\<lambda>artifact_write.
         py_bind (sql_avg (full_suite_timing pg_double) executions) (\<lambda>full_suite.
         py_bind (sql_avg generation_timing generated) (\<lambda>generation.
         Inr \<lparr>pf_tasks = int (length tasks), pf_executions = int (length executions),
              pf_accepted = int (length (filter pr_accepted decisions)), pf_policy_decisions = int (length decisions),
              pf_generated_candidates = int (length generated), pf_avg_seed_ms = seed * 1000,
              pf_avg_coverage_ms = coverage * 1000, pf_avg_generation_ms = generation * 1000,
              pf_avg_queue_wait_ms = queue_wait, pf_avg_executor_ms = runtime * 1000,
              pf_avg_materialize_ms = materialize, pf_avg_artifact_write_ms = artifact_write,
              pf_avg_full_suite_ms = full_suite, pf_avg_snapshot_bytes = bytes\<rparr>))))))))))"

section \<open>The dashboard\<close>

record 's telemetry_env =
  te_redis :: "'s redis"
  te_settings :: omega_settings
  te_pg_double :: "string \<Rightarrow> real option"
  te_now :: real

text \<open>\<open>ZCOUNT key lo +inf\<close>.\<close>

definition zcount_from :: "'s redis \<Rightarrow> 's world \<Rightarrow> string \<Rightarrow> real \<Rightarrow> nat" where
  "zcount_from R w key lo = card {m. \<exists>x. rd_zsets (r_data R (w_store w)) key m = Some x \<and> lo \<le> x}"

record tree_entry =
  te_id :: string
  te_strategy :: rtext
  te_depth :: int
  te_generated :: int
  te_best_reward :: real

definition forest_entry :: "string \<Rightarrow> (string \<rightharpoonup> rtext) \<Rightarrow> py_error + tree_entry" where
  "forest_entry task_id root_data =
     py_bind (field_int root_data ''max_depth_seen'' 0) (\<lambda>depth.
     py_bind (field_int root_data ''generated_capsules'' 0) (\<lambda>generated.
     py_bind (field_float root_data ''best_reward'' 0) (\<lambda>best_reward.
       Inr \<lparr>te_id = task_id,
            te_strategy = (case root_data ''plan_summary'' of None \<Rightarrow> Txt ''Legacy plan'' | Some v \<Rightarrow> v),
            te_depth = depth, te_generated = generated, te_best_reward = best_reward\<rparr>)))"

fun forest_state :: "'s redis \<Rightarrow> 's world \<Rightarrow> string list \<Rightarrow> py_error + tree_entry list" where
  "forest_state R w [] = Inr []"
| "forest_state R w (task_id # task_ids) =
     (let root_data = w_hash R w (root_node_id task_id)
      in if root_data = Map.empty then forest_state R w task_ids
         else py_bind (forest_entry task_id root_data) (\<lambda>entry.
              py_bind (forest_state R w task_ids) (\<lambda>entries. Inr (entry # entries))))"

definition or_zero :: "rtext option \<Rightarrow> py_error + int" where
  "or_zero v = to_int (or_text v (Num 0))"

record dashboard =
  da_active_workers :: int
  da_queue_depth :: int
  da_total_evals :: int
  da_evals_per_sec :: real
  da_performance :: performance
  da_live_runs :: "json list"
  da_forest_state :: "tree_entry list"

definition live_runs :: "rtext list \<Rightarrow> py_error + json list" where
  "live_runs items = read_rows (\<lambda>item. case text_json item of None \<Rightarrow> Inl ValueError | Some j \<Rightarrow> Inr j) items"

definition dashboard_payload :: "'s telemetry_env \<Rightarrow> 's world \<Rightarrow> (py_error + dashboard) \<times> 's world" where
  "dashboard_payload env w =
     (let R = te_redis env; now = te_now env;
          ttl = of_int (om_worker_heartbeat_ttl_seconds (te_settings env));
          w = w_exec R [CZRemRangeByScore WORKER_HEARTBEATS 0 (now - ttl)] w
      in (py_bind (live_runs (take 8 (rd_lists (r_data R (w_store w)) RECENT_RUNS))) (\<lambda>runs.
          py_bind (forest_state R w (sorted_list_of_set (rd_sets (r_data R (w_store w)) TREE_INDEX))) (\<lambda>forest.
          py_bind (or_zero (w_string R w STATS_INFLIGHT)) (\<lambda>queue_depth.
          py_bind (or_zero (w_string R w STATS_TOTAL_EVALS)) (\<lambda>total_evals.
          py_bind (performance_snapshot (te_pg_double env) (w_db w)) (\<lambda>performance.
            Inr \<lparr>da_active_workers = int (zcount_from R w WORKER_HEARTBEATS (now - ttl)),
                 da_queue_depth = queue_depth, da_total_evals = total_evals,
                 da_evals_per_sec = of_nat (zcount_from R w STATS_EVAL_TIMES (now - 5)) / 5,
                 da_performance = performance, da_live_runs = runs, da_forest_state = forest\<rparr>))))), w))"

section \<open>The service\<close>

datatype http_response = NotFound | Healthy | Dashboard dashboard | Aborted py_error

definition do_GET :: "'s telemetry_env \<Rightarrow> string \<Rightarrow> 's world \<Rightarrow> http_response \<times> 's world" where
  "do_GET env path w =
     (if path \<notin> {''/api/dashboard'', ''/healthz''} then (NotFound, w)
      else if path = ''/healthz'' then (Healthy, w)
      else case dashboard_payload env w of
             (Inl err, w) \<Rightarrow> (Aborted err, w)
           | (Inr payload, w) \<Rightarrow> (Dashboard payload, w))"

end
