(* ===== verification/System.thy ===== *)
theory System
  imports ForestWorker Executor GlobalMemory Merger Seed Telemetry
begin

text \<open>
  The system as a whole: the daemons, the command line and the telemetry service take turns on one
  shared store and one ledger. A turn is what each does between two reads of its stream: a batch
  of messages, an iteration over the tasks, a connection, a command. The environments (clocks,
  random identifiers, processes, sockets, the repository) may differ from turn to turn. A turn
  that raises leaves what it had written; the daemon is started again. Turns that overlap are
  interleavings of their elementary effects.
\<close>

datatype ('s, 'k, 'v, 'e, 'g) turn =
    Seeding "('s, 'e) cli_env" string string string "string option" 'e
  | Searching "('s, 'e) worker_env" "string option"
  | Dispatching "'s dispatcher_env" "(string \<times> rtext option) list"
  | Executing "('k, 'v, 's, 'e) executor_env" "rtext option" 'e
  | Gating "('s, 'k, 'v) gate_env" "(string \<times> rtext option) list"
  | Remembering "'s memory_env" "(string \<times> rtext option) list"
  | Merging "('s, 'g) merger_env" "(string \<times> rtext option) list" 'g
  | Reporting "'s telemetry_env" string

text \<open>The store a turn uses, and the messages it is handed.\<close>

fun turn_redis :: "('s, 'k, 'v, 'e, 'g) turn \<Rightarrow> 's redis" where
  "turn_redis (Seeding env s t p r e) = cl_redis env"
| "turn_redis (Searching env t) = we_redis env"
| "turn_redis (Dispatching env ms) = di_redis env"
| "turn_redis (Executing env d e) = ex_redis env"
| "turn_redis (Gating env ms) = ge_redis env"
| "turn_redis (Remembering env ms) = me_redis env"
| "turn_redis (Merging env ms g) = mg_redis env"
| "turn_redis (Reporting env p) = te_redis env"

fun turn_results :: "('s, 'k, 'v, 'e, 'g) turn \<Rightarrow> (string \<times> rtext option) list" where
  "turn_results (Gating env ms) = ms"
| "turn_results (Remembering env ms) = ms"
| "turn_results _ = []"

fun perform :: "('s, 'k, 'v, 'e, 'g) turn \<Rightarrow> 's world \<Rightarrow> 's world option" where
  "perform (Seeding env source test profile repo e) w = Some (snd (fix_tests env source test profile repo w e))"
| "perform (Searching env task_id) w = map_option outcome_world (worker_iteration env task_id w)"
| "perform (Dispatching env messages) w = Some (outcome_world (dispatcher_batch env messages w))"
| "perform (Executing env data e) w = Some (fst (outcome_world (handle_connection env data (w, e))))"
| "perform (Gating env messages) w = Some (outcome_world (gate_batch env messages w))"
| "perform (Remembering env messages) w = map_option outcome_world (memory_batch env messages w)"
| "perform (Merging env messages g) w = Some (fst (outcome_world (merger_batch env messages (w, g))))"
| "perform (Reporting env path) w = Some (snd (do_GET env path w))"

text \<open>
  A turn of the system on the store \<open>R\<close>: the readers of the results stream are handed entries of
  that stream. None is a turn that does not return.
\<close>

definition served :: "'s redis \<Rightarrow> ('s, 'k, 'v, 'e, 'g) turn \<Rightarrow> 's world \<Rightarrow> bool" where
  "served R t w \<longleftrightarrow> turn_redis t = R
     \<and> (\<forall>m \<in> set (turn_results t). \<forall>v. snd m = Some v \<longrightarrow> v \<in> set (rd_streams (r_data R (w_store w)) STREAM_RESULTS))"

fun run_turns :: "'s redis \<Rightarrow> ('s, 'k, 'v, 'e, 'g) turn list \<Rightarrow> 's world \<Rightarrow> 's world option" where
  "run_turns R [] w = Some w"
| "run_turns R (t # ts) w = (if served R t w then Option.bind (perform t w) (run_turns R ts) else None)"

end
