(* ===== verification/Effects.thy ===== *)
theory Effects
  imports SharedStore LedgerProps Planning
begin

text \<open>
  What every component does to the shared store and the ledger, reduced to elementary effects: one
  command, one counter, one reservation, one ledger call. An effect is typed when what it writes has
  the type that the readers of that field expect; the types are those of the declared columns and of
  the \<open>int(...)\<close>, \<open>float(...)\<close> and \<open>json.loads(...)\<close> around the reads. Typed effects keep the store and
  the ledger typed and the ledger's keys intact.
\<close>

section \<open>The types of the fields\<close>

datatype field_type = TText | TInt | TFloat | TPlan | TSnapshot | TLines | TMatrix | TNames | TUndeclared

text \<open>All the fields that the system ever writes into a hash.\<close>

definition field_types :: "(string \<times> field_type) list" where
  "field_types =
     [(''tree_id'', TText), (''code'', TText), (''test_code'', TText), (''source_path'', TText), (''test_path'', TText),
      (''source_relpath'', TText), (''test_relpath'', TText), (''repo_path'', TText), (''parent'', TText),
      (''repo_snapshot_digest'', TText), (''is_terminal'', TText), (''expanded'', TText), (''planning_status'', TText),
      (''artifact_uri'', TText), (''plan_summary'', TText), (''visits'', TInt), (''depth'', TInt), (''tests_failed'', TInt),
      (''tests_passed'', TInt), (''max_depth_seen'', TInt), (''generated_capsules'', TInt),
      (''repo_snapshot_bytes'', TInt), (''repo_snapshot_files'', TInt), (''value_sum'', TFloat),
      (''best_reward'', TFloat), (''created_at'', TFloat), (''repo_snapshot'', TSnapshot), (''plan_json'', TPlan),
      (''suspicious_lines'', TLines), (''coverage_matrix'', TMatrix), (''collected_test_nodes'', TNames)]"

definition field_type_of :: "string \<Rightarrow> field_type" where
  "field_type_of f = (case map_of field_types f of None \<Rightarrow> TUndeclared | Some t \<Rightarrow> t)"

text \<open>The documents: a plan, files by path, line numbers, counts by line, names of tests.\<close>

fun doc_has_type :: "json \<Rightarrow> field_type \<Rightarrow> bool" where
  "doc_has_type j TPlan \<longleftrightarrow> plan_from_json j \<noteq> None"
| "doc_has_type j TSnapshot \<longleftrightarrow> js_dict js_str j \<noteq> None"
| "doc_has_type j TLines \<longleftrightarrow> js_list js_int j \<noteq> None"
| "doc_has_type j TMatrix \<longleftrightarrow> js_dict (js_dict js_int) j \<noteq> None"
| "doc_has_type j TNames \<longleftrightarrow> js_list js_str j \<noteq> None"
| "doc_has_type j _ \<longleftrightarrow> False"

fun has_type :: "rtext \<Rightarrow> field_type \<Rightarrow> bool" where
  "has_type (Txt s) t \<longleftrightarrow> t = TText"
| "has_type (Num n) t \<longleftrightarrow> t \<in> {TInt, TFloat}"
| "has_type (Flt x) t \<longleftrightarrow> t = TFloat"
| "has_type (Doc j) t \<longleftrightarrow> doc_has_type j t"

definition typed_hash :: "(string \<rightharpoonup> rtext) \<Rightarrow> bool" where
  "typed_hash h \<longleftrightarrow> (\<forall>f v. h f = Some v \<longrightarrow> has_type v (field_type_of f))"

definition typed_fields :: "(string \<times> rtext) list \<Rightarrow> bool" where
  "typed_fields fs \<longleftrightarrow> (\<forall>(f, v) \<in> set fs. has_type v (field_type_of f))"

section \<open>The types of the ledger's documents\<close>

fun is_number :: "json \<Rightarrow> bool" where
  "is_number (JInt n) = True"
| "is_number (JFloat x) = True"
| "is_number _ = False"

text \<open>The entries of a document that the aggregate queries cast to a number.\<close>

fun numbers_at :: "string list \<Rightarrow> json \<Rightarrow> bool" where
  "numbers_at names (JObj d) = (\<forall>(k, v) \<in> set d. k \<in> set names \<longrightarrow> is_number v)"
| "numbers_at names _ = True"

fun funnel_numbers :: "json \<Rightarrow> bool" where
  "funnel_numbers (JObj d) = (\<forall>(k, v) \<in> set d. k = ''stages'' \<longrightarrow> numbers_at [''full_suite_ms''] v)"
| "funnel_numbers _ = True"

definition typed_meta_entry :: "string \<Rightarrow> json \<Rightarrow> bool" where
  "typed_meta_entry k v \<longleftrightarrow>
     (k = ''dispatch'' \<longrightarrow> numbers_at [''queue_wait_ms''] v)
     \<and> (k = ''simulator'' \<longrightarrow> numbers_at [''materialize_ms'', ''artifact_write_ms''] v)
     \<and> (k = ''funnel'' \<longrightarrow> funnel_numbers v)"

definition typed_task_entry :: "string \<Rightarrow> json \<Rightarrow> bool" where
  "typed_task_entry k v \<longleftrightarrow>
     (k = ''timings'' \<longrightarrow> numbers_at [''seed_total_seconds'', ''coverage_total_seconds''] v)
     \<and> (k = ''snapshot'' \<longrightarrow> numbers_at [''bytes''] v)"

definition typed_candidate_entry :: "string \<Rightarrow> json \<Rightarrow> bool" where
  "typed_candidate_entry k v \<longleftrightarrow> (k = ''generation_seconds'' \<longrightarrow> is_number v)"

definition typed_doc :: "(string \<Rightarrow> json \<Rightarrow> bool) \<Rightarrow> jsonb \<Rightarrow> bool" where
  "typed_doc P m \<longleftrightarrow> (\<forall>k v. m k = Some v \<longrightarrow> P k v)"

definition typed_pack :: "verification_pack \<Rightarrow> bool" where
  "typed_pack pack \<longleftrightarrow> (\<forall>(k, v) \<in> set (vp_meta pack). typed_meta_entry k v)"

fun typed_op :: "meta_op \<Rightarrow> bool" where
  "typed_op (RecordTask k r) = typed_doc typed_task_entry (tr_metadata r)"
| "typed_op (MergeTaskMetadata k m) = typed_doc typed_task_entry m"
| "typed_op (RecordCandidate k r) = typed_doc typed_candidate_entry (cr_metadata r)"
| "typed_op (MergeCandidateMetadata k m) = typed_doc typed_candidate_entry m"
| "typed_op (RecordExecutionQueued q) = typed_doc typed_meta_entry (eq_meta q)"
| "typed_op (MergeExecutionMeta k m) = typed_doc typed_meta_entry m"
| "typed_op (CompleteExecution p t) = typed_pack p"
| "typed_op _ = True"

definition typed_ledger :: "metadata_db \<Rightarrow> bool" where
  "typed_ledger db \<longleftrightarrow>
     tbl_all (\<lambda>_ r. typed_doc typed_task_entry (tr_metadata r)) (db_tasks db)
     \<and> tbl_all (\<lambda>_ r. typed_doc typed_candidate_entry (cr_metadata r)) (db_candidates db)
     \<and> tbl_all (\<lambda>_ r. typed_doc typed_meta_entry (xr_meta r)) (db_executions db)"

lemma typed_doc_add: "typed_doc P m \<Longrightarrow> typed_doc P m' \<Longrightarrow> typed_doc P (m ++ m')"
  by (auto simp: typed_doc_def map_add_def split: option.splits)

lemma typed_doc_upd: "typed_doc P m \<Longrightarrow> P k v \<Longrightarrow> typed_doc P (m(k \<mapsto> v))"
  by (simp add: typed_doc_def)

lemma typed_doc_empty: "typed_doc P Map.empty"
  by (simp add: typed_doc_def)

lemma typed_pack_meta: "typed_pack p \<Longrightarrow> typed_doc typed_meta_entry (map_of (vp_meta p))"
  by (auto simp: typed_pack_def typed_doc_def dest: map_of_SomeD)

lemma typed_ledger_exec:
  assumes "typed_ledger db" and "typed_op op"
  shows "typed_ledger (meta_exec op db)"
  using assms
  by (cases op) (auto simp: typed_ledger_def meta_exec_def db_defs typed_doc_add typed_pack_meta
      intro!: tbl_all_update tbl_all_upsert elim!: tbl_all_mono split: option.split)

section \<open>Typed effects\<close>

text \<open>
  The typed store: a hash holds declared fields only, each with its type, the two counters are numbers, the
  recent runs are documents, and every entry of the results stream decodes to a typed pack.
\<close>

definition typed_result :: "rtext \<Rightarrow> bool" where
  "typed_result v \<longleftrightarrow> (\<exists>pack. Option.bind (text_json v) pack_from_json = Some pack \<and> typed_pack pack)"

definition is_doc :: "rtext \<Rightarrow> bool" where
  "is_doc v \<longleftrightarrow> (\<exists>j. v = Doc j)"

definition typed_string :: "string \<Rightarrow> rtext \<Rightarrow> bool" where
  "typed_string k v \<longleftrightarrow> (k \<in> {STATS_INFLIGHT, STATS_TOTAL_EVALS} \<longrightarrow> (\<exists>n. v = Num n))"

definition typed_data :: "redis_data \<Rightarrow> bool" where
  "typed_data d \<longleftrightarrow>
     (\<forall>k. typed_hash (rd_hashes d k))
     \<and> (\<forall>k v. rd_strings d k = Some v \<longrightarrow> typed_string k v)
     \<and> (\<forall>v \<in> set (rd_lists d RECENT_RUNS). is_doc v)
     \<and> (\<forall>v \<in> set (rd_streams d STREAM_RESULTS). typed_result v)"

fun typed_cmd :: "store_cmd \<Rightarrow> bool" where
  "typed_cmd (CSet k v) = typed_string k v"
| "typed_cmd (CHSet k fs) = typed_fields fs"
| "typed_cmd (CHIncrBy k f n) = (field_type_of f \<in> {TInt, TFloat})"
| "typed_cmd (CHIncrByFloat k f x) = (field_type_of f = TFloat)"
| "typed_cmd (CLPush k v) = (k = RECENT_RUNS \<longrightarrow> is_doc v)"
| "typed_cmd (CXAdd k v) = (k = STREAM_RESULTS \<longrightarrow> typed_result v)"
| "typed_cmd _ = True"

text \<open>
  Commands that leave the shape of the search tree alone: no set grows, and no node's \<open>depth\<close> or
  \<open>parent\<close> is written. Only the seeding of a task and the expansion of a node use others.
\<close>

fun quiet_cmd :: "store_cmd \<Rightarrow> bool" where
  "quiet_cmd (CHSet k fs) \<longleftrightarrow> ''depth'' \<notin> fst ` set fs \<and> ''parent'' \<notin> fst ` set fs"
| "quiet_cmd (CHIncrBy k f n) \<longleftrightarrow> f \<noteq> ''depth'' \<and> f \<noteq> ''parent''"
| "quiet_cmd (CHIncrByFloat k f x) \<longleftrightarrow> f \<noteq> ''depth'' \<and> f \<noteq> ''parent''"
| "quiet_cmd (CSAdd k m) \<longleftrightarrow> False"
| "quiet_cmd _ \<longleftrightarrow> True"

abbreviation any_cmd :: "store_cmd \<Rightarrow> bool" where
  "any_cmd \<equiv> \<lambda>c. True"

text \<open>An elementary effect whose command, if it is one, satisfies \<open>P\<close>.\<close>

inductive effect :: "(store_cmd \<Rightarrow> bool) \<Rightarrow> 's redis \<Rightarrow> 's world \<Rightarrow> 's world \<Rightarrow> bool" for P and R :: "'s redis" where
  command: "typed_cmd c \<Longrightarrow> P c \<Longrightarrow> effect P R w (w_exec R [c] w)"
| counted: "effect P R w (w\<lparr>w_store := snd (r_incr R k (w_store w))\<rparr>)"
| uncounted: "effect P R w (w\<lparr>w_store := snd (r_decr R k (w_store w))\<rparr>)"
| reserved: "typed_string k v \<Longrightarrow> effect P R w (w\<lparr>w_store := snd (r_setnx R k v (w_store w))\<rparr>)"
| called: "typed_op op \<Longrightarrow> effect P R w (w\<lparr>w_db := meta_exec op (w_db w)\<rparr>)"

definition typed_world :: "'s redis \<Rightarrow> 's world \<Rightarrow> bool" where
  "typed_world R w \<longleftrightarrow> typed_data (r_data R (w_store w)) \<and> typed_ledger (w_db w)"

lemma typed_hash_update: "typed_hash h \<Longrightarrow> has_type v (field_type_of f) \<Longrightarrow> typed_hash (h(f \<mapsto> v))"
  by (auto simp: typed_hash_def)

lemma typed_hset: "typed_hash h \<Longrightarrow> typed_fields fs \<Longrightarrow> typed_hash (hset_fields fs h)"
  by (induction fs arbitrary: h) (auto simp: typed_fields_def typed_hash_update)

lemma typed_data_cmd:
  assumes "typed_data d" and "typed_cmd c"
  shows "typed_data (apply_cmd c d)"
proof (cases c)
  case (CHSet k fs)
  with assms show ?thesis by (auto simp: typed_data_def intro!: typed_hset)
next
  case (CLTrim k a b)
  with assms show ?thesis by (auto simp: typed_data_def dest!: in_set_dropD in_set_takeD)
qed (use assms in \<open>auto simp: typed_data_def typed_string_def split: if_splits intro!: typed_hash_update\<close>)

lemma effect_typed:
  assumes "shared_store R" and "effect P R w w'" and "typed_world R w"
  shows "typed_world R w'"
  using assms(2)
proof cases
  case (command c)
  then show ?thesis using assms typed_data_cmd by (auto simp: typed_world_def)
next
  case (called op)
  then show ?thesis using assms typed_ledger_exec by (auto simp: typed_world_def)
qed (use assms in \<open>auto simp: typed_world_def typed_data_def typed_string_def shared_store.incr_data
      shared_store.decr_data shared_store.setnx_data split: if_splits\<close>)

lemma effects_typed:
  assumes "shared_store R" and "(effect P R)\<^sup>*\<^sup>* w w'" and "typed_world R w"
  shows "typed_world R w'"
  using assms(2,3) by induction (blast intro: effect_typed [OF assms(1)])+

lemma effects_keys:
  assumes "(effect P R)\<^sup>*\<^sup>* w w'" and "pk_ok (w_db w) \<and> fk_ok (w_db w)"
  shows "pk_ok (w_db w') \<and> fk_ok (w_db w')"
  using assms
proof induction
  case (step w1 w2)
  then show ?case by (auto elim!: effect.cases simp: pk_ok_exec fk_ok_exec)
qed simp

end
