(* ===== verification/SystemEffects.thy ===== *)
theory SystemEffects
  imports System Effects
begin

text \<open>Every turn of the system, whatever its end, is a sequence of typed effects.\<close>

section \<open>Sequences of effects\<close>

abbreviation effects :: "(store_cmd \<Rightarrow> bool) \<Rightarrow> 's redis \<Rightarrow> 's world \<Rightarrow> 's world \<Rightarrow> bool" where
  "effects P R \<equiv> (effect P R)\<^sup>*\<^sup>*"

definition allowed :: "(store_cmd \<Rightarrow> bool) \<Rightarrow> store_cmd \<Rightarrow> bool" where
  "allowed P c \<longleftrightarrow> typed_cmd c \<and> P c"

lemma allowed_simps [simp]:
  "allowed P (CSet k v) \<longleftrightarrow> typed_cmd (CSet k v) \<and> P (CSet k v)"
  "allowed P (CDelete k) \<longleftrightarrow> typed_cmd (CDelete k) \<and> P (CDelete k)"
  "allowed P (CIncr k) \<longleftrightarrow> typed_cmd (CIncr k) \<and> P (CIncr k)"
  "allowed P (CHSet k fs) \<longleftrightarrow> typed_cmd (CHSet k fs) \<and> P (CHSet k fs)"
  "allowed P (CHIncrBy k f n) \<longleftrightarrow> typed_cmd (CHIncrBy k f n) \<and> P (CHIncrBy k f n)"
  "allowed P (CHIncrByFloat k f x) \<longleftrightarrow> typed_cmd (CHIncrByFloat k f x) \<and> P (CHIncrByFloat k f x)"
  "allowed P (CSAdd k m) \<longleftrightarrow> typed_cmd (CSAdd k m) \<and> P (CSAdd k m)"
  "allowed P (CLPush k v) \<longleftrightarrow> typed_cmd (CLPush k v) \<and> P (CLPush k v)"
  "allowed P (CLTrim k a b) \<longleftrightarrow> typed_cmd (CLTrim k a b) \<and> P (CLTrim k a b)"
  "allowed P (CZAdd k m x) \<longleftrightarrow> typed_cmd (CZAdd k m x) \<and> P (CZAdd k m x)"
  "allowed P (CZRemRangeByScore k x y) \<longleftrightarrow> typed_cmd (CZRemRangeByScore k x y) \<and> P (CZRemRangeByScore k x y)"
  "allowed P (CXAdd k v) \<longleftrightarrow> typed_cmd (CXAdd k v) \<and> P (CXAdd k v)"
  "allowed P (CXAck k g m) \<longleftrightarrow> typed_cmd (CXAck k g m) \<and> P (CXAck k g m)"
  by (simp_all only: allowed_def)

lemma effects_any: "effects P R w w' \<Longrightarrow> effects any_cmd R w w'"
proof (induction rule: rtranclp_induct)
  case (step w1 w2)
  then have "effect any_cmd R w1 w2" by (auto elim!: effect.cases intro: effect.intros)
  with step show ?case by (rule_tac rtranclp.rtrancl_into_rtrancl)
qed simp

lemma effects_cmds: "list_all (allowed P) cmds \<Longrightarrow> effects P R w (w_exec R cmds w)"
proof (induction cmds arbitrary: w)
  case Nil
  then show ?case by (simp add: w_exec_def)
next
  case (Cons c cs)
  have "w_exec R (c # cs) w = w_exec R cs (w_exec R [c] w)" by (simp add: w_exec_def)
  moreover have "effect P R w (w_exec R [c] w)" using Cons.prems by (auto simp: allowed_def intro: effect.command)
  ultimately show ?case using Cons.IH [of "w_exec R [c] w"] Cons.prems by (simp add: converse_rtranclp_into_rtranclp)
qed

lemma effects_calls: "list_all typed_op ops \<Longrightarrow> effects P R w (w\<lparr>w_db := meta_run ops (w_db w)\<rparr>)"
proof (induction ops arbitrary: w)
  case (Cons op ops)
  have "effect P R w (w\<lparr>w_db := meta_exec op (w_db w)\<rparr>)" using Cons.prems by (auto intro: effect.called)
  moreover have "w\<lparr>w_db := meta_run (op # ops) (w_db w)\<rparr> =
      w\<lparr>w_db := meta_exec op (w_db w)\<rparr>\<lparr>w_db := meta_run ops (w_db (w\<lparr>w_db := meta_exec op (w_db w)\<rparr>))\<rparr>" by simp
  ultimately show ?case using Cons.IH [of "w\<lparr>w_db := meta_exec op (w_db w)\<rparr>"] Cons.prems
    by (simp add: converse_rtranclp_into_rtranclp)
qed simp

lemma effects_trans: "effects P R w1 w2 \<Longrightarrow> effects P R w2 w3 \<Longrightarrow> effects P R w1 w3"
  by (rule rtranclp_trans)

lemma effects_db: "list_all typed_op ops \<Longrightarrow> db = meta_run ops (w_db w) \<Longrightarrow> effects P R w (w\<lparr>w_db := db\<rparr>)"
  using effects_calls by blast

lemma effects_try:
  "(\<And>x. v = Inr x \<Longrightarrow> effects P R w (outcome_world (f x))) \<Longrightarrow> effects P R w (outcome_world (try_value v w f))"
  by (cases v) simp_all


lemma field_type_simps [simp]:
  "field_type_of ''tree_id'' = TText" "field_type_of ''code'' = TText" "field_type_of ''test_code'' = TText"
  "field_type_of ''source_path'' = TText" "field_type_of ''test_path'' = TText"
  "field_type_of ''source_relpath'' = TText" "field_type_of ''test_relpath'' = TText"
  "field_type_of ''repo_path'' = TText" "field_type_of ''parent'' = TText"
  "field_type_of ''repo_snapshot_digest'' = TText" "field_type_of ''is_terminal'' = TText"
  "field_type_of ''expanded'' = TText" "field_type_of ''planning_status'' = TText"
  "field_type_of ''artifact_uri'' = TText" "field_type_of ''plan_summary'' = TText"
  "field_type_of ''visits'' = TInt" "field_type_of ''depth'' = TInt" "field_type_of ''tests_failed'' = TInt"
  "field_type_of ''tests_passed'' = TInt" "field_type_of ''max_depth_seen'' = TInt"
  "field_type_of ''generated_capsules'' = TInt" "field_type_of ''repo_snapshot_bytes'' = TInt"
  "field_type_of ''repo_snapshot_files'' = TInt" "field_type_of ''value_sum'' = TFloat"
  "field_type_of ''best_reward'' = TFloat" "field_type_of ''created_at'' = TFloat"
  "field_type_of ''repo_snapshot'' = TSnapshot" "field_type_of ''plan_json'' = TPlan"
  "field_type_of ''suspicious_lines'' = TLines" "field_type_of ''coverage_matrix'' = TMatrix"
  "field_type_of ''collected_test_nodes'' = TNames"
  by (simp_all add: field_type_of_def field_types_def)

lemma stats_keys [simp]:
  "task_budget_key t \<noteq> STATS_INFLIGHT" "task_budget_key t \<noteq> STATS_TOTAL_EVALS"
  "tree_budget_exhausted_key t \<noteq> STATS_INFLIGHT" "tree_budget_exhausted_key t \<noteq> STATS_TOTAL_EVALS"
  "tree_accepted_key t \<noteq> STATS_INFLIGHT" "tree_accepted_key t \<noteq> STATS_TOTAL_EVALS"
  "tree_done_key t \<noteq> STATS_INFLIGHT" "tree_done_key t \<noteq> STATS_TOTAL_EVALS"
  "node_lock_key n \<noteq> STATS_INFLIGHT" "node_lock_key n \<noteq> STATS_TOTAL_EVALS"
  by (simp_all add: key_defs)

section \<open>Documents on the wire\<close>

lemma is_number_sort [simp]: "is_number (js_sort j) = is_number j"
  by (cases j) auto

lemma numbers_at_sort [simp]: "numbers_at names (js_sort j) = numbers_at names j"
  by (cases j) auto

lemma funnel_numbers_sort [simp]: "funnel_numbers (js_sort j) = funnel_numbers j"
  by (cases j) auto

lemma typed_meta_entry_sort [simp]: "typed_meta_entry k (js_sort v) = typed_meta_entry k v"
  by (simp add: typed_meta_entry_def)

lemma typed_pack_canon: "typed_pack (pack_canon p) = typed_pack p"
  by (force simp: typed_pack_def pack_canon_def sort_fields_def)

lemma typed_result_pack: "typed_pack p \<Longrightarrow> typed_result (Doc (pack_to_json p))"
  by (simp add: typed_result_def pack_decode typed_pack_canon)

lemma message_pack_typed: "typed_result v \<Longrightarrow> message_pack (Some v) = Inr pack \<Longrightarrow> typed_pack pack"
  by (auto simp: typed_result_def message_pack_def split: option.splits)

section \<open>The results the components publish\<close>

lemma dispatch_meta_typed: "typed_doc typed_meta_entry (dispatch_meta env request)"
  by (simp add: typed_doc_def dispatch_meta_def typed_meta_entry_def)

lemma refused_pack_typed: "typed_pack (refused_pack env request exc)"
  by (simp add: typed_pack_def refused_pack_def)

text \<open>A result of the funnel has numeric stages, whatever ended it.\<close>

definition result_typed :: "(string \<times> json) list \<Rightarrow> bool" where
  "result_typed result \<longleftrightarrow> funnel_numbers (result_meta result)"

lemma unknown_result_typed: "result_typed unknown_result"
  by (simp add: result_typed_def result_meta_def unknown_result_def)

lemma funnel_json_typed: "result_typed (funnel_json r)"
  by (auto simp: result_typed_def result_meta_def funnel_json_def)

lemma error_keeps_result_typed: "result_typed (dict_set ''error'' j result) = result_typed result"
  by (simp add: result_typed_def result_meta_def)

lemma run_in_directory_typed:
  "run_in_directory env capsule tmp_dir e = ((result, ms, raised), e') \<Longrightarrow> result_typed result"
  by (auto simp: run_in_directory_def funnel_main_def Let_def unknown_result_typed funnel_json_typed
      error_keeps_result_typed split: option.splits sum.splits prod.splits)

lemma run_capsule_typed: "run_capsule env capsule e = ((result, ms), e') \<Longrightarrow> result_typed result"
  by (auto simp: run_capsule_def Let_def unknown_result_typed error_keeps_result_typed
      dest!: run_in_directory_typed split: sum.splits prod.splits option.splits)

lemma execution_pack_typed:
  assumes "execution_pack env capsule result runtime uri (pack_meta capsule ms1 ms2 (result_meta result)) = Inr pack"
    and "result_typed result"
  shows "typed_pack pack"
  using assms by (auto simp: execution_pack_def py_bind_Inr typed_pack_def pack_meta_def typed_meta_entry_def result_typed_def)

lemma sign_pack_typed: "typed_pack (sign_pack cr p k) = typed_pack p"
  by (simp add: sign_pack_def Let_def typed_pack_def)

section \<open>Executing\<close>

lemma effects_uncount: "effects quiet_cmd R w (uncount_inflight R w)"
  unfolding uncount_inflight_def by (rule r_into_rtranclp, rule effect.uncounted)

lemma effects_publish:
  assumes "typed_pack pack"
  shows "effects quiet_cmd (ex_redis env) w (publish env pack w)"
proof -
  let ?cmd = "CXAdd STREAM_RESULTS (Doc (pack_to_json (sign_pack (ex_crypto env) pack (ex_signing_key env))))"
  have "effects quiet_cmd (ex_redis env) w (w_exec (ex_redis env) [?cmd] w)"
    using assms by (intro effects_cmds) (simp add: typed_result_pack sign_pack_typed)
  then show ?thesis unfolding publish_def by (rule effects_trans) (rule effects_uncount)
qed

lemma effects_execute_capsule: "effects quiet_cmd (ex_redis env) w (fst (outcome_world (execute_capsule env capsule (w, e))))"
proof -
  obtain result ms e1 where run: "run_capsule env capsule e = ((result, ms), e1)" by (metis surj_pair)
  note typed = run_capsule_typed [OF run]
  have "effects quiet_cmd (ex_redis env) w (publish env pack w)"
    if "execution_pack env capsule result runtime uri (pack_meta capsule ms1 ms2 (result_meta result)) = Inr pack"
    for runtime uri ms1 ms2 pack
    using execution_pack_typed [OF that typed] by (rule effects_publish)
  then show ?thesis
    by (auto simp: execute_capsule_def run Let_def split: prod.splits sum.splits)
qed

lemma effects_executing: "effects quiet_cmd (ex_redis env) w (fst (outcome_world (handle_connection env data (w, e))))"
  by (auto simp: handle_connection_def effects_execute_capsule split: option.splits)

section \<open>Dispatching\<close>

lemma effects_report_refused: "effects quiet_cmd (di_redis env) w (report_refused env request exc w)"
proof -
  let ?R = "di_redis env" and ?pack = "refused_pack env request exc"
  let ?w1 = "uncount_inflight ?R w"
  let ?ops = "[UpdateCandidateStatus (er_candidate_id request) ''dispatch_failed'' None, CompleteExecution ?pack (di_now env)]"
  let ?w2 = "?w1\<lparr>w_db := meta_run ?ops (w_db ?w1)\<rparr>"
  have "effects quiet_cmd ?R w ?w1" by (rule effects_uncount)
  moreover have "effects quiet_cmd ?R ?w1 ?w2" by (rule effects_calls) (simp add: refused_pack_typed)
  moreover have "effects quiet_cmd ?R ?w2 (w_exec ?R [CXAdd STREAM_RESULTS (Doc (pack_to_json ?pack))] ?w2)"
    by (rule effects_cmds) (simp add: typed_result_pack refused_pack_typed)
  ultimately have "effects quiet_cmd ?R w (w_exec ?R [CXAdd STREAM_RESULTS (Doc (pack_to_json ?pack))] ?w2)"
    by (meson effects_trans)
  then show ?thesis by (simp add: report_refused_def Let_def meta_exec_def)
qed

lemma effects_mark_delivered: "effects quiet_cmd R w (mark_delivered env request w)"
proof -
  let ?ops = "[MarkExecutionStarted (er_run_id request) None (di_now env),
    MergeExecutionMeta (er_run_id request) (dispatch_meta env request),
    UpdateCandidateStatus (er_candidate_id request) ''running'' None]"
  have "list_all typed_op ?ops" by (simp add: dispatch_meta_typed)
  then show ?thesis unfolding mark_delivered_def by (rule effects_db) (simp add: meta_exec_def)
qed

lemma effects_dispatch: "effects quiet_cmd (di_redis env) w (outcome_world (dispatch env request w))"
proof -
  let ?w1 = "count_inflight (di_redis env) w"
  have "effects quiet_cmd (di_redis env) w ?w1"
    unfolding count_inflight_def by (rule r_into_rtranclp, rule effect.counted)
  then show ?thesis
    using effects_trans [OF _ effects_report_refused] effects_trans [OF _ effects_mark_delivered]
    by (auto simp: dispatch_def Let_def split: delivery.splits)
qed

text \<open>What a loop over messages has queued and done so far.\<close>

definition handled_from :: "'s redis \<Rightarrow> 's world \<Rightarrow> 's handled \<Rightarrow> bool" where
  "handled_from R w h \<longleftrightarrow> list_all (allowed quiet_cmd) (fst h) \<and> effects quiet_cmd R w (snd h)"

lemma handled_from_trans: "effects quiet_cmd R w w1 \<Longrightarrow> handled_from R w1 h \<Longrightarrow> handled_from R w h"
  by (auto simp: handled_from_def intro: effects_trans)

lemma handled_from_exec: "handled_from R w (pipe, w1) \<Longrightarrow> effects quiet_cmd R w (w_exec R pipe w1)"
  by (auto simp: handled_from_def intro: effects_trans effects_cmds)

lemma handled_from_simps [simp]:
  "handled_from R w (pipe, w1) \<longleftrightarrow> list_all (allowed quiet_cmd) pipe \<and> effects quiet_cmd R w w1"
  by (simp add: handled_from_def)

lemma effects_dispatcher_loop:
  assumes "list_all (allowed quiet_cmd) pipe"
  shows "handled_from (di_redis env) w (outcome_world (dispatcher_loop env messages (pipe, w)))"
  using assms
proof (induction messages arbitrary: pipe w)
  case (Cons m messages)
  obtain message_id payload where m: "m = (message_id, payload)" by force
  let ?pipe = "pipe @ [CXAck STREAM_DISPATCH ''dispatch_group'' message_id]"
  have pipe: "list_all (allowed quiet_cmd) ?pipe" using Cons.prems by simp
  show ?case
  proof (cases "message_request payload")
    case (Inl err)
    then show ?thesis using pipe by (simp add: m)
  next
    case (Inr request)
    have "effects quiet_cmd (di_redis env) w (outcome_world (dispatch env request w))" by (rule effects_dispatch)
    then show ?thesis
      using Inr pipe handled_from_trans [OF _ Cons.IH [OF pipe]]
      by (cases "dispatch env request w") (simp_all add: m)
  qed
qed simp

lemma effects_dispatching: "effects quiet_cmd (di_redis env) w (outcome_world (dispatcher_batch env messages w))"
  using effects_dispatcher_loop [of "[]" env w messages]
  by (auto simp: dispatcher_batch_def intro: handled_from_exec split: outcome.splits prod.splits)

section \<open>Judging\<close>

lemma effects_record_verdict: "effects quiet_cmd R w (outcome_world (record_verdict env pack node_data accepted reasons w))"
proof -
  let ?s = "if accepted then ''accepted'' else ''rejected_policy''"
  let ?m = "[''policy'' \<mapsto> JObj [(''accepted'', JBool accepted), (''reasons'', JArr (map JStr (or_list reasons [''accepted'']))),
                   (''evaluation_ms'', JFloat (ge_evaluation_ms env))]]"
  let ?ops1 = "[UpdateCandidateStatus (vp_capsule_id pack) ?s None]"
  let ?ops2 = "?ops1 @ [MergeCandidateMetadata (vp_capsule_id pack) ?m]"
  let ?db2 = "meta_run ?ops2 (w_db w)"
  have typed: "list_all typed_op ?ops2" by (simp add: typed_doc_def typed_candidate_entry_def)
  have decided: "effects quiet_cmd R w (w\<lparr>w_db := db\<rparr>)" if "record_policy_decision (vp_capsule_id pack) r ?db2 = Inr db" for r db
    by (rule effects_db [of "?ops2 @ [RecordPolicyDecision (vp_capsule_id pack) r]"])
      (use typed that in \<open>simp_all add: meta_run_def meta_exec_def\<close>)
  have "effects quiet_cmd R w (w\<lparr>w_db := meta_run ?ops1 (w_db w)\<rparr>)" "effects quiet_cmd R w (w\<lparr>w_db := ?db2\<rparr>)"
    by (rule effects_calls, use typed in simp)+
  then show ?thesis
    using decided
    by (auto simp: record_verdict_def Let_def meta_exec_def simp del: fun_upd_apply split: sum.splits)
qed

lemma effects_reserve_tree:
  "reserve_tree env tree_id capsule_id w = (reason, w') \<Longrightarrow> effects quiet_cmd (ge_redis env) w w'"
  by (auto simp: reserve_tree_def Let_def split_beta typed_string_def intro!: r_into_rtranclp effect.reserved)

lemma effects_gate_decide:
  "handled_from (ge_redis env) w (outcome_world (gate_decide env pack node_data code w))"
proof (cases "field_str node_data ''tree_id''")
  case (Inr tree_id)
  obtain reason w1 where r: "reserve_tree env tree_id (vp_capsule_id pack) w = (reason, w1)" by force
  have e: "effects quiet_cmd (ge_redis env) w w1" using r by (rule effects_reserve_tree)
  have verdict: "effects quiet_cmd (ge_redis env) w w2"
    if "record_verdict env pack node_data accepted reasons w1 = Done w2 \<or> record_verdict env pack node_data accepted reasons w1 = Crash err w2"
    for accepted reasons err w2
    using effects_record_verdict [of "ge_redis env" w1 env pack node_data accepted reasons] that
    by (auto intro: effects_trans [OF e])
  show ?thesis
    by (auto simp: gate_decide_def Inr r e STREAM_ACCEPTED_def STREAM_RESULTS_def intro: verdict
        split: option.splits outcome.splits sum.splits)
qed (simp add: gate_decide_def)

lemma effects_gate_message: "handled_from (ge_redis env) w (outcome_world (gate_message env payload w))"
proof -
  have verdict: "effects quiet_cmd (ge_redis env) w w2"
    if "record_verdict env pack node_data accepted reasons w = Done w2 \<or> record_verdict env pack node_data accepted reasons w = Crash err w2"
    for pack node_data accepted reasons err w2
    using effects_record_verdict [of "ge_redis env" w env pack node_data accepted reasons] that by auto
  show ?thesis
    by (auto simp: gate_message_def Let_def intro: verdict effects_gate_decide
        split: option.splits outcome.splits sum.splits prod.splits)
qed

lemma effects_gate_loop:
  assumes "list_all (allowed quiet_cmd) pipe"
  shows "handled_from (ge_redis env) w (outcome_world (gate_loop env messages (pipe, w)))"
  using assms
proof (induction messages arbitrary: pipe w)
  case (Cons m messages)
  obtain message_id payload where m: "m = (message_id, payload)" by force
  have h: "handled_from (ge_redis env) w (outcome_world (gate_message env payload w))" by (rule effects_gate_message)
  show ?case
  proof (cases "gate_message env payload w")
    case (Done st)
    obtain cmds w1 where st: "st = (cmds, w1)" by force
    have "list_all (allowed quiet_cmd) (pipe @ cmds @ [CXAck STREAM_RESULTS ''policy_group'' message_id])" "effects quiet_cmd (ge_redis env) w w1"
      using h Cons.prems by (simp_all add: Done st)
    then show ?thesis using handled_from_trans [OF _ Cons.IH] by (simp add: m Done st)
  next
    case (Crash err st)
    then show ?thesis using h Cons.prems by (cases st) (simp add: m)
  qed
qed simp

lemma effects_gating: "effects quiet_cmd (ge_redis env) w (outcome_world (gate_batch env messages w))"
  using effects_gate_loop [of "[]" env w messages]
  by (auto simp: gate_batch_def intro: handled_from_exec split: outcome.splits prod.splits)

section \<open>Remembering\<close>

lemma stats_cmds_typed: "list_all (allowed quiet_cmd) (stats_cmds env pack reward)"
  by (simp add: stats_cmds_def is_doc_def)

lemma backpropagate_cmds_typed: "list_all (allowed quiet_cmd) (backpropagate_cmds pack reward path)"
  by (induction path) (auto simp: backpropagate_cmds_def visit_cmds_def typed_fields_def)

lemma root_cmds_typed: "root_cmds root_id root_data node_data reward = Inr cmds \<Longrightarrow> list_all (allowed quiet_cmd) cmds"
  by (auto simp: root_cmds_def py_bind_Inr typed_fields_def)

lemma effects_memory_decide:
  assumes "list_all (allowed quiet_cmd) cmds"
  shows "handled_from R w (memory_decide pack task_id cmds w)"
proof -
  let ?ops = "[UpdateCandidateStatus (vp_capsule_id pack) ''verified'' None, UpdateTaskStatus task_id ''verified'']"
  have "effects quiet_cmd R w (w\<lparr>w_db := meta_run ?ops (w_db w)\<rparr>)"
    "effects quiet_cmd R w (w\<lparr>w_db := meta_run [UpdateCandidateStatus (vp_capsule_id pack) ''failed'' None] (w_db w)\<rparr>)"
    by (rule effects_calls, simp)+
  then show ?thesis
    using assms by (simp add: memory_decide_def meta_exec_def typed_string_def typed_fields_def)
qed

lemma effects_memory_message:
  assumes "\<And>v. payload = Some v \<Longrightarrow> typed_result v" and "memory_message env payload w = Some r"
  shows "handled_from (me_redis env) w (outcome_world r)"
proof (cases "message_pack payload")
  case (Inr pack)
  let ?w1 = "w\<lparr>w_db := complete_execution pack (me_now env) (w_db w)\<rparr>"
  have "typed_pack pack" using Inr assms(1) message_pack_typed by (cases payload) (auto simp: message_pack_def)
  then have "effects quiet_cmd (me_redis env) w (w\<lparr>w_db := meta_run [CompleteExecution pack (me_now env)] (w_db w)\<rparr>)"
    by (intro effects_calls) simp
  then have e: "effects quiet_cmd (me_redis env) w ?w1" by (simp add: meta_exec_def)
  have decide: "handled_from (me_redis env) w (memory_decide pack task_id cmds ?w1)" if "list_all (allowed quiet_cmd) cmds" for cmds task_id
    using e effects_memory_decide [OF that] by (rule handled_from_trans)
  show ?thesis
    using assms(2) e stats_cmds_typed backpropagate_cmds_typed
    by (auto simp: memory_message_def Inr Let_def dest!: root_cmds_typed intro!: decide split: sum.splits option.splits if_splits)
qed (use assms in \<open>auto simp: memory_message_def\<close>)

lemma effects_memory_loop:
  assumes "list_all (allowed quiet_cmd) pipe" and "\<forall>m \<in> set messages. \<forall>v. snd m = Some v \<longrightarrow> typed_result v"
    and "memory_loop env messages (pipe, w) = Some r"
  shows "handled_from (me_redis env) w (outcome_world r)"
  using assms
proof (induction messages arbitrary: pipe w)
  case (Cons m messages)
  obtain message_id payload where m: "m = (message_id, payload)" by force
  from Cons.prems(3) obtain r1 where r1: "memory_message env payload w = Some r1" by (auto simp: m Let_def split: option.splits)
  have h: "handled_from (me_redis env) w (outcome_world r1)"
    using Cons.prems(2) r1 by (intro effects_memory_message [of payload]) (auto simp: m)
  show ?case
  proof (cases r1)
    case (Done st)
    obtain cmds w1 where st: "st = (cmds, w1)" by force
    let ?pipe = "pipe @ cmds @ [CXAck STREAM_RESULTS ''memory_group'' message_id]"
    have "list_all (allowed quiet_cmd) ?pipe" "effects quiet_cmd (me_redis env) w w1"
      using h Cons.prems(1) by (simp_all add: Done st)
    moreover have "memory_loop env messages (?pipe, w1) = Some r" using Cons.prems(3) r1 by (simp add: m Done st)
    ultimately show ?thesis using Cons.prems(2) by (intro handled_from_trans [OF _ Cons.IH]) auto
  next
    case (Crash err st)
    then show ?thesis using h Cons.prems r1 by (cases st) (auto simp: m)
  qed
qed auto

lemma effects_remembering:
  assumes "\<forall>m \<in> set messages. \<forall>v. snd m = Some v \<longrightarrow> typed_result v" and "memory_batch env messages w = Some r"
  shows "effects quiet_cmd (me_redis env) w (outcome_world r)"
  using assms effects_memory_loop [of "[]" messages env w]
  by (auto simp: memory_batch_def intro: effects_trans [OF _ effects_cmds] split: option.splits outcome.splits prod.splits)

section \<open>Merging\<close>

lemma effects_claim_tree: "claim_tree R tree_id capsule_id w = (ok, w') \<Longrightarrow> effects quiet_cmd R w w'"
  by (auto simp: claim_tree_def Let_def split_beta typed_string_def intro!: r_into_rtranclp effect.reserved split: if_splits)

lemma merge_entry_typed: "typed_doc typed_candidate_entry [''merge'' \<mapsto> j]"
  by (simp add: typed_doc_def typed_candidate_entry_def)

lemma effects_record_merge: "effects quiet_cmd R w (record_merge env tree_id capsule_id w)"
proof -
  let ?ops = "[UpdateCandidateStatus capsule_id ''merged'' None, UpdateTaskStatus tree_id ''merged'',
    MergeCandidateMetadata capsule_id [''merge'' \<mapsto> JObj [(''duration_ms'', JFloat (mg_duration_ms env))]]]"
  have "list_all typed_op ?ops" by (simp add: merge_entry_typed del: fun_upd_apply)
  then show ?thesis unfolding record_merge_def by (rule effects_db) (simp add: meta_exec_def)
qed

lemma effects_record_merge_failure: "effects quiet_cmd (mg_redis env) w (record_merge_failure env tree_id capsule_id err w)"
proof -
  let ?w1 = "w_exec (mg_redis env) [CDelete (tree_accepted_key tree_id)] w"
  let ?ops = "[UpdateCandidateStatus capsule_id ''merge_failed'' None, MergeCandidateMetadata capsule_id
    [''merge'' \<mapsto> JObj [(''duration_ms'', JFloat (mg_duration_ms env)), (''error'', JStr (mg_error_text env err))]]]"
  have "list_all typed_op ?ops" by (simp add: merge_entry_typed del: fun_upd_apply)
  then have "effects quiet_cmd (mg_redis env) ?w1 (record_merge_failure env tree_id capsule_id err w)"
    unfolding record_merge_failure_def Let_def by (rule effects_db) (simp add: meta_exec_def)
  moreover have "effects quiet_cmd (mg_redis env) w ?w1" by (rule effects_cmds) simp
  ultimately show ?thesis by (rule effects_trans [rotated])
qed

lemma effects_merger_message: "effects quiet_cmd (mg_redis env) w (fst (outcome_world (merger_message env message (w, g))))"
proof (cases "case message of None \<Rightarrow> None | Some v \<Rightarrow> text_json v")
  case None
  then show ?thesis by (simp add: merger_message_def)
next
  case (Some payload)
  have claim: "effects quiet_cmd (mg_redis env) w (fst (outcome_world (case claim_tree (mg_redis env) tree_id capsule_id w of
       (False, w) \<Rightarrow> Done (w, g)
     | (True, w) \<Rightarrow> (case merge_payload env payload capsule_id g of
          Done g \<Rightarrow> Done (record_merge env tree_id capsule_id w, g)
        | Crash e g \<Rightarrow> Done (record_merge_failure env tree_id capsule_id e w, g)))))" for tree_id capsule_id
  proof -
    obtain ok w1 where c: "claim_tree (mg_redis env) tree_id capsule_id w = (ok, w1)" by force
    show ?thesis
      using effects_claim_tree [OF c] effects_trans [OF _ effects_record_merge] effects_trans [OF _ effects_record_merge_failure]
      by (auto simp: c split: bool.splits outcome.splits)
  qed
  show ?thesis
    using claim unfolding merger_message_def
    by (simp only: Some prod.case option.case) (auto simp: try_value_def split: sum.splits)
qed

lemma effects_merger_loop:
  assumes "list_all (allowed quiet_cmd) pipe"
  shows "case outcome_world (merger_loop env messages (pipe, w, g)) of (pipe', w', g') \<Rightarrow> handled_from (mg_redis env) w (pipe', w')"
  using assms
proof (induction messages arbitrary: pipe w g)
  case (Cons m messages)
  obtain message_id payload where m: "m = (message_id, payload)" by force
  let ?pipe = "pipe @ [CXAck STREAM_ACCEPTED ''merger_group'' message_id]"
  have pipe: "list_all (allowed quiet_cmd) ?pipe" using Cons.prems by simp
  have e: "effects quiet_cmd (mg_redis env) w (fst (outcome_world (merger_message env payload (w, g))))" by (rule effects_merger_message)
  show ?case
  proof (cases "merger_message env payload (w, g)")
    case (Done st)
    obtain w1 g1 where st: "st = (w1, g1)" by force
    obtain p2 w2 g2 where rest: "outcome_world (merger_loop env messages (?pipe, w1, g1)) = (p2, w2, g2)" by (metis surj_pair)
    have "handled_from (mg_redis env) w1 (p2, w2)" using Cons.IH [OF pipe, of w1 g1] unfolding rest by simp
    then have "handled_from (mg_redis env) w (p2, w2)" using e by (intro handled_from_trans [of _ w w1]) (simp_all add: Done st)
    then show ?thesis using rest by (simp add: m Done st)
  next
    case (Crash err st)
    then show ?thesis using e pipe by (cases st) (simp add: m)
  qed
qed simp

lemma effects_merging: "effects quiet_cmd (mg_redis env) w (fst (outcome_world (merger_batch env messages (w, g))))"
  using effects_merger_loop [of "[]" env w messages g]
  by (auto simp: merger_batch_def intro: effects_trans [OF _ effects_cmds] split: outcome.splits prod.splits)

section \<open>Reporting\<close>

lemma effects_reporting: "effects quiet_cmd (te_redis env) w (snd (do_GET env path w))"
  by (auto simp: do_GET_def dashboard_payload_def Let_def intro: effects_cmds split: prod.splits sum.splits)

section \<open>Seeding\<close>

lemma read_all_exists: "(\<And>x. x \<in> set xs \<Longrightarrow> \<exists>y. f x = Some y) \<Longrightarrow> \<exists>ys. read_all f xs = Some ys"
proof (induction xs)
  case (Cons x xs)
  obtain y ys where "f x = Some y" "read_all f xs = Some ys" using Cons by (metis list.set_intros)
  then show ?case by simp
qed simp

lemma snapshot_decodes: "\<exists>files. js_dict js_str (snapshot_json snapshot) = Some files"
  unfolding snapshot_json_def js_sort.simps js_dict.simps
  by (rule read_all_exists) auto

lemma counts_decode: "\<exists>d. js_dict js_int (js_sort (JObj (map (\<lambda>(b, n). (b, JInt (int n))) stats))) = Some d"
  unfolding js_sort.simps js_dict.simps by (rule read_all_exists) auto

lemma matrix_decodes: "\<exists>d. js_dict (js_dict js_int) (matrix_json matrix) = Some d"
  unfolding matrix_json_def js_dict.simps
  by (rule read_all_exists) (use counts_decode in \<open>fastforce\<close>)

lemma root_fields_typed: "typed_fields (root_fields env task_id inp e)"
  by (simp add: typed_fields_def root_fields_def Let_def plan_decode snapshot_decodes matrix_decodes)

lemma seed_row_typed: "typed_doc typed_task_entry (tr_metadata (seed_task_row env profile inp e))"
  unfolding seed_task_row_def Let_def
  by (auto simp: typed_task_entry_def seed_timings_def intro!: typed_doc_upd typed_doc_empty simp del: fun_upd_apply)

lemma seed_candidate_typed: "typed_doc typed_candidate_entry (cr_metadata (seed_candidate_row env task_id inp e))"
  by (simp add: seed_candidate_row_def typed_doc_def typed_candidate_entry_def)

lemma effects_write_seed: "effects any_cmd (cl_redis env) w (outcome_world (write_seed env profile task_id inp e w))"
proof -
  let ?R = "cl_redis env" and ?root = "root_node_id task_id"
  let ?w1 = "w_exec ?R [CSAdd TREE_INDEX task_id, CHSet ?root (root_fields env task_id inp e)] w"
  let ?ops = "[RecordTask task_id (seed_task_row env profile inp e)]"
  let ?op = "RecordCandidate ?root (seed_candidate_row env task_id inp e)"
  have "effects any_cmd ?R w ?w1" by (rule effects_cmds) (simp add: root_fields_typed)
  moreover have "effects any_cmd ?R ?w1 (?w1\<lparr>w_db := meta_run ?ops (w_db ?w1)\<rparr>)"
    by (rule effects_calls) (simp add: seed_row_typed)
  moreover have "effects any_cmd ?R ?w1 (?w1\<lparr>w_db := meta_run (?ops @ [?op]) (w_db ?w1)\<rparr>)"
    by (rule effects_calls) (simp add: seed_row_typed seed_candidate_typed)
  ultimately have "effects any_cmd ?R w (?w1\<lparr>w_db := meta_run ?ops (w_db ?w1)\<rparr>)" "effects any_cmd ?R w (?w1\<lparr>w_db := meta_run (?ops @ [?op]) (w_db ?w1)\<rparr>)"
    using effects_trans by blast+
  then show ?thesis by (auto simp: write_seed_def Let_def meta_exec_def split: sum.splits)
qed

lemma effects_seeding: "effects any_cmd (cl_redis env) w (snd (fix_tests env source test profile repo w e))"
proof -
  have "effects any_cmd (cl_redis env) w w1" if "write_seed env profile task_id inp e1 w = Done w1" for task_id inp e1 w1
    using effects_write_seed [of env w profile task_id inp e1] that by simp
  moreover have "effects any_cmd (cl_redis env) w w1" if "write_seed env profile task_id inp e1 w = Crash err w1" for task_id inp e1 err w1
    using effects_write_seed [of env w profile task_id inp e1] that by simp
  ultimately show ?thesis by (auto simp: fix_tests_def split: prod.splits sum.splits outcome.splits)
qed

section \<open>Searching\<close>

lemma effects_mark_exhausted: "effects quiet_cmd R w (mark_budget_exhausted R task_id w)"
proof -
  let ?w1 = "w_exec R (exhausted_cmds task_id) w"
  have "effects quiet_cmd R w ?w1"
    by (rule effects_cmds) (simp add: exhausted_cmds_def typed_string_def typed_fields_def)
  moreover have "effects quiet_cmd R ?w1 (?w1\<lparr>w_db := meta_run [UpdateTaskStatus task_id ''budget_exhausted''] (w_db ?w1)\<rparr>)"
    by (rule effects_calls) simp
  ultimately show ?thesis by (simp add: mark_budget_exhausted_def Let_def meta_exec_def rtranclp_trans)
qed

lemma effects_reserve_budget: "reserve_candidate_budget R task_id plan w = (ok, w') \<Longrightarrow> effects quiet_cmd R w w'"
proof -
  assume run: "reserve_candidate_budget R task_id plan w = (ok, w')"
  obtain n w1 where incr: "reserve_incr R task_id w = (n, w1)" by force
  then have e1: "effects quiet_cmd R w w1"
    by (auto simp: reserve_incr_def split_beta intro!: r_into_rtranclp effect.counted)
  have "effects quiet_cmd R w1 (reserve_decr R task_id w1)"
    unfolding reserve_decr_def by (rule r_into_rtranclp, rule effect.uncounted)
  then have e2: "effects quiet_cmd R w1 (mark_budget_exhausted R task_id (reserve_decr R task_id w1))"
    using effects_mark_exhausted by (rule effects_trans)
  have e3: "effects quiet_cmd R w1 (w_exec R [CHSet (root_node_id task_id) [(''generated_capsules'', Num n)]] w1)"
    by (rule effects_cmds) (simp add: typed_fields_def)
  show ?thesis
    using run effects_trans [OF e1 e2] effects_trans [OF e1 e3] by (auto simp: reserve_candidate_budget_def incr split: if_splits)
qed

lemma effects_queue_execution: "effects quiet_cmd (we_redis env) w (outcome_world (queue_execution env request w))"
proof -
  let ?queued = "\<lparr>eq_run_id = er_run_id request, eq_candidate_id = er_candidate_id request,
    eq_task_id = er_task_id request, eq_executor_core = er_executor_core request,
    eq_executor_host = om_executor_host (we_omega env), eq_executor_port = om_executor_base_port (we_omega env) + er_executor_core request,
    eq_meta = [''worker_id'' \<mapsto> JStr (we_worker_id env)]\<rparr>"
  let ?ops = "[RecordExecutionQueued ?queued, UpdateCandidateStatus (er_candidate_id request) ''queued'' None]"
  have typed: "list_all typed_op ?ops" by (simp add: typed_doc_def typed_meta_entry_def)
  show ?thesis
  proof (cases "record_execution_queued ?queued (w_db w)")
    case (Inr db)
    let ?w1 = "w\<lparr>w_db := snd (update_candidate_status (er_candidate_id request) ''queued'' None db)\<rparr>"
    have "effects quiet_cmd (we_redis env) w ?w1" using typed by (rule effects_db) (simp add: meta_exec_def Inr)
    moreover have "effects quiet_cmd (we_redis env) ?w1 (w_exec (we_redis env) [CXAdd STREAM_DISPATCH (Doc (request_to_json request))] ?w1)"
      by (rule effects_cmds) (simp add: STREAM_DISPATCH_def STREAM_RESULTS_def)
    ultimately show ?thesis using Inr by (simp add: queue_execution_def Let_def rtranclp_trans)
  qed (simp add: queue_execution_def Let_def)
qed

lemma effects_dispatch_capsule: "effects quiet_cmd (we_redis env) w (outcome_world (dispatch_capsule env capsule w))"
  unfolding dispatch_capsule_def by (intro effects_try effects_queue_execution)

lemma candidate_record_typed: "typed_doc typed_candidate_entry (cr_metadata (candidate_record env ex rel path n))"
  by (auto simp: candidate_record_def typed_candidate_entry_def intro!: typed_doc_upd typed_doc_empty simp del: fun_upd_apply)

lemma effects_record_and_dispatch: "effects quiet_cmd (we_redis env) w (outcome_world (record_and_dispatch env ex n capsule w))"
proof (cases "record_candidate (tc_id capsule) (candidate_record env ex (tc_source_relpath capsule) (tc_source_path capsule) n) (w_db w)")
  case (Inr db)
  let ?w1 = "w\<lparr>w_db := snd (update_task_status (ex_task_id ex) ''running'' db)\<rparr>"
  have "effects quiet_cmd (we_redis env) w ?w1"
    by (rule effects_db [of "[RecordCandidate (tc_id capsule) (candidate_record env ex (tc_source_relpath capsule) (tc_source_path capsule) n),
        UpdateTaskStatus (ex_task_id ex) ''running'']"]) (simp_all add: meta_exec_def Inr candidate_record_typed)
  then show ?thesis using effects_trans [OF _ effects_dispatch_capsule] by (simp add: record_and_dispatch_def Inr)
qed (simp add: record_and_dispatch_def)

lemma child_fields_typed:
  assumes "typed_hash (ex_node ex)" and "child_fields ex candidate = Inr fs"
  shows "typed_fields fs"
proof -
  have "has_type v (field_type_of f)" if "ex_node ex f = Some v" for f v
    using assms(1) that by (simp add: typed_hash_def)
  note typed = this [of "''test_code''"] this [of "''source_path''"] this [of "''test_path''"] this [of "''repo_path''"]
    this [of "''source_relpath''"] this [of "''test_relpath''"] this [of "''tests_failed''"] this [of "''tests_passed''"]
  show ?thesis
    using assms(2) typed by (auto simp: child_fields_def Let_def py_bind_Inr typed_fields_def split: option.splits)
qed

lemma effects_store_candidate:
  assumes "typed_hash (ex_node ex)"
  shows "effects any_cmd (we_redis env) w (outcome_world (store_candidate env ex n candidate w))"
  unfolding store_candidate_def Let_def
proof (rule effects_try)
  fix fs
  assume "child_fields ex candidate = Inr fs"
  then have "effects any_cmd (we_redis env) w (w_exec (we_redis env) (store_cmds env ex candidate fs) w)"
    using child_fields_typed [OF assms] by (intro effects_cmds) (auto simp: store_cmds_def)
  then show "effects any_cmd (we_redis env) w (outcome_world (try_value (candidate_capsule env ex candidate)
      (w_exec (we_redis env) (store_cmds env ex candidate fs) w)
      (\<lambda>capsule. record_and_dispatch env ex n capsule (w_exec (we_redis env) (store_cmds env ex candidate fs) w))))"
    by (rule effects_trans) (intro effects_try effects_any [OF effects_record_and_dispatch])
qed

lemma effects_expand_candidates:
  assumes "typed_hash (ex_node ex)"
  shows "effects any_cmd (we_redis env) w (snd (snd (outcome_world (expand_candidates env ex candidates (generated, pruned, w)))))"
proof (induction candidates arbitrary: generated pruned w)
  case (Cons candidate candidates)
  obtain ok w1 where r: "reserve_candidate_budget (we_redis env) (ex_task_id ex) (ex_plan ex) w = (ok, w1)" by force
  note e1 = effects_any [OF effects_reserve_budget [OF r]]
  have e2: "effects any_cmd (we_redis env) w (outcome_world (store_candidate env ex pruned candidate w1))"
    by (rule effects_trans [OF e1 effects_store_candidate [OF assms]])
  show ?case
    using e1 e2 Cons.IH effects_trans [OF _ Cons.IH]
    by (auto simp: r split: sum.splits bool.splits outcome.splits)
qed simp

lemma effects_finish_expansion: "effects quiet_cmd (we_redis env) w (finish_expansion env ex (generated, pruned, w))"
proof -
  let ?m = "[''latest_expansion'' \<mapsto> JObj
                [(''node_id'', JStr (expansion.ex_node_id ex)), (''strategy'', JStr (tp_strategy (ex_plan ex))),
                 (''generation_seconds'', JFloat (we_generation_seconds env)),
                 (''generated_candidates'', JInt (int generated)), (''smt_pruned'', JInt (int pruned))]]"
  let ?w1 = "w\<lparr>w_db := merge_task_metadata (ex_task_id ex) ?m (w_db w)\<rparr>"
  have "effects quiet_cmd (we_redis env) w ?w1"
    by (rule effects_db [of "[MergeTaskMetadata (ex_task_id ex) ?m]"])
      (simp_all add: meta_exec_def typed_doc_def typed_task_entry_def)
  then show ?thesis
    unfolding finish_expansion_def prod.case by (rule effects_trans) (rule effects_cmds, simp add: typed_fields_def)
qed

lemma effects_run_expansion:
  assumes "typed_hash (ex_node ex)"
  shows "effects any_cmd (we_redis env) w (outcome_world (run_expansion env ex candidates w))"
proof (cases "expand_candidates env ex candidates (0, 0, w)")
  case (Done st)
  obtain generated pruned w1 where st: "st = (generated, pruned, w1)" by (metis surj_pair)
  have "effects any_cmd (we_redis env) w w1"
    using effects_expand_candidates [OF assms, of env w candidates 0 0] by (simp add: Done st)
  then show ?thesis
    using effects_trans [OF _ effects_any [OF effects_finish_expansion]] by (simp add: run_expansion_def Done st)
next
  case (Crash err st)
  then show ?thesis
    using effects_expand_candidates [OF assms, of env w candidates 0 0] by (cases st) (simp add: run_expansion_def)
qed

lemma effects_expand:
  assumes "typed_world (we_redis env) w"
  shows "effects any_cmd (we_redis env) w (outcome_world (expand env task_id node_id w))"
proof -
  have "typed_hash (w_hash (we_redis env) w node_id)" using assms by (simp add: typed_world_def typed_data_def w_hash_def)
  then have e: "effects any_cmd (we_redis env) w (outcome_world
      (expand_with env task_id node_id (w_hash (we_redis env) w node_id) root_data depth plan eplan w))" for root_data depth plan eplan
    unfolding expand_with_def Let_def by (intro effects_try effects_run_expansion) simp
  have t: "effects any_cmd (we_redis env) w1 (w_exec (we_redis env) (terminal_cmds node_id) w1)" for w1
    by (rule effects_cmds) (simp add: terminal_cmds_def typed_fields_def)
  show ?thesis
    unfolding expand_def Let_def
    using e t effects_trans [OF effects_any [OF effects_mark_exhausted] t] by (auto intro!: effects_try)
qed

lemma effects_with_lock:
  assumes "\<And>w1. effects any_cmd (we_redis env) w w1 \<Longrightarrow> effects any_cmd (we_redis env) w1 (outcome_world (body w1))"
  shows "effects any_cmd (we_redis env) w (outcome_world (with_lock env node_id body w))"
proof -
  let ?R = "we_redis env" and ?key = "node_lock_key node_id"
  let ?w1 = "w\<lparr>w_store := snd (r_setnx ?R ?key (Txt (we_worker_id env)) (w_store w))\<rparr>"
  have e1: "effects any_cmd ?R w ?w1" by (rule r_into_rtranclp, rule effect.reserved) (simp add: typed_string_def)
  have release: "effects any_cmd ?R w2 (w_exec ?R [CDelete ?key] w2)" for w2 by (rule effects_cmds) simp
  note body = effects_trans [OF e1 assms [OF e1]]
  show ?thesis
    using e1 body effects_trans [OF body release]
    by (cases "body ?w1") (auto simp: with_lock_def Let_def split_beta)
qed

lemma effects_visit_task:
  assumes "shared_store (we_redis env)" and "typed_world (we_redis env) w" and "visit_task env task_id w = Some r"
  shows "effects any_cmd (we_redis env) w (outcome_world r)"
proof -
  have "effects any_cmd (we_redis env) w (outcome_world (with_lock env node_id (expand env task_id node_id) w))" for node_id
    by (rule effects_with_lock, rule effects_expand, rule effects_typed [OF assms(1) _ assms(2)])
  then show ?thesis
    using assms(3) by (auto simp: visit_task_def Let_def split: if_splits option.splits sum.splits)
qed

lemma effects_visit_tasks:
  assumes "shared_store (we_redis env)" and "typed_world (we_redis env) w" and "visit_tasks env ts w = Some r"
  shows "effects any_cmd (we_redis env) w (outcome_world r)"
  using assms(2,3)
proof (induction ts arbitrary: w)
  case (Cons t ts)
  from Cons.prems(2) obtain r1 where r1: "visit_task env t w = Some r1" by (auto split: option.splits)
  have e: "effects any_cmd (we_redis env) w (outcome_world r1)" by (rule effects_visit_task [OF assms(1) Cons.prems(1) r1])
  show ?case
  proof (cases r1)
    case (Done w1)
    have "typed_world (we_redis env) w1" using effects_typed [OF assms(1) e Cons.prems(1)] by (simp add: Done)
    then show ?thesis using e Cons.IH [of w1] Cons.prems(2) r1 by (auto simp: Done intro: effects_trans)
  qed (use e r1 Cons.prems(2) in auto)
qed auto

lemma effects_searching:
  assumes "shared_store (we_redis env)" and "typed_world (we_redis env) w" and "worker_iteration env task_id w = Some r"
  shows "effects any_cmd (we_redis env) w (outcome_world r)"
proof -
  let ?w1 = "update_worker_heartbeat (we_redis env) (we_worker_id env) (we_time env) (om_worker_heartbeat_ttl_seconds (we_omega env)) w"
  have e: "effects any_cmd (we_redis env) w ?w1" unfolding update_worker_heartbeat_def by (rule effects_cmds) simp
  show ?thesis
    using effects_trans [OF e effects_visit_tasks] effects_typed [OF assms(1) e assms(2)] assms(1,3)
    by (simp add: worker_iteration_def Let_def)
qed

section \<open>A turn\<close>

text \<open>
  A turn of a typed system is a sequence of typed effects; one that neither seeds nor searches is
  even a sequence of effects that leave the search tree alone.
\<close>

fun grows_tree :: "('s, 'k, 'v, 'e, 'g) turn \<Rightarrow> bool" where
  "grows_tree (Seeding env s t p r e) = True"
| "grows_tree (Searching env t) = True"
| "grows_tree _ = False"

lemma quiet_turn_effects:
  assumes "typed_world R w" and "served R t w" and "perform t w = Some w'" and "\<not> grows_tree t"
  shows "effects quiet_cmd R w w'"
proof (cases t)
  case (Remembering env messages)
  have "\<forall>m \<in> set messages. \<forall>v. snd m = Some v \<longrightarrow> typed_result v"
    using assms(1,2) by (auto simp: Remembering served_def typed_world_def typed_data_def)
  then show ?thesis using effects_remembering assms(2,3) by (auto simp: Remembering served_def)
qed (use assms effects_dispatching effects_executing effects_gating effects_merging effects_reporting
    in \<open>auto simp: served_def\<close>)

lemma turn_effects:
  assumes "shared_store R" and "typed_world R w" and "served R t w" and "perform t w = Some w'"
  shows "effects any_cmd R w w'"
proof (cases "grows_tree t")
  case False
  show ?thesis by (rule effects_any [OF quiet_turn_effects [OF assms(2-4) False]])
next
  case True
  then show ?thesis
    using assms effects_seeding effects_searching by (cases t) (auto simp: served_def)
qed

lemma turns_effects:
  "shared_store R \<Longrightarrow> typed_world R w \<Longrightarrow> run_turns R ts w = Some w' \<Longrightarrow> effects any_cmd R w w'"
proof (induction ts arbitrary: w)
  case (Cons t ts)
  from Cons.prems(3) obtain w1 where w1: "served R t w" "perform t w = Some w1" "run_turns R ts w1 = Some w'"
    by (auto split: if_splits bind_splits)
  have e: "effects any_cmd R w w1" by (rule turn_effects [OF Cons.prems(1,2) w1(1,2)])
  with effects_typed [OF Cons.prems(1) e Cons.prems(2)] Cons.IH Cons.prems(1) w1(3) show ?case
    by (blast intro: effects_trans)
qed simp

end
