(* ===== verification/CoverageProps.thy ===== *)
theory CoverageProps
  imports Coverage GitMemory
begin

text \<open>What the coverage matrix counts, and that it meets what the localiser expects of it.\<close>

definition stat :: "coverage_matrix \<Rightarrow> int \<Rightarrow> string \<Rightarrow> nat" where
  "stat matrix line bucket = dict_get (dict_get matrix line []) bucket 0"

lemma stat_absent [simp]: "line \<notin> set (dict_keys matrix) \<Longrightarrow> stat matrix line bucket = 0"
  by (simp add: stat_def dict_get_def map_of_eq_None_iff [THEN iffD2])

lemma stat_count_line:
  assumes "bucket \<in> {''passed'', ''failed''}"
  shows "stat (count_line bucket line matrix) l b = stat matrix l b + (if l = line \<and> b = bucket then 1 else 0)"
  using assms
  by (cases "map_of matrix line") (auto simp: stat_def count_line_def dict_get_def Let_def)

lemma count_line_keys:
  "set (dict_keys (count_line bucket line matrix)) = insert line (set (dict_keys matrix))"
  "distinct (dict_keys matrix) \<Longrightarrow> distinct (dict_keys (count_line bucket line matrix))"
  by (simp_all add: count_line_def Let_def)

lemma count_lines_stat:
  "bucket \<in> {''passed'', ''failed''} \<Longrightarrow> distinct lines
   \<Longrightarrow> stat (count_lines bucket lines matrix) l b = stat matrix l b + (if l \<in> set lines \<and> b = bucket then 1 else 0)"
  by (induction lines arbitrary: matrix) (auto simp: stat_count_line)

lemma count_lines_keys:
  "set (dict_keys (count_lines bucket lines matrix)) = set lines \<union> set (dict_keys matrix)"
  "distinct (dict_keys matrix) \<Longrightarrow> distinct (dict_keys (count_lines bucket lines matrix))"
  by (induction lines arbitrary: matrix) (simp_all add: count_line_keys del: set_map)

section \<open>What was observed\<close>

text \<open>
  One test run alone, without any matrix: whether it passed, and the lines of the source that its
  report names (none where there is no report, or none on the source).
\<close>

type_synonym observation = "bool \<times> int list"

definition observed_run ::
    "'e coverage_env \<Rightarrow> string list \<Rightarrow> string list \<Rightarrow> string \<Rightarrow> 'e \<Rightarrow> observation \<Rightarrow> 'e \<Rightarrow> bool" where
  "observed_run env source repo node_id e ob e' \<longleftrightarrow>
     (\<exists>returncode e1 report. cv_run env node_id e = (Inr returncode, e1) \<and> cv_report env node_id e1 = (Inr report, e')
        \<and> fst ob = (returncode = 0)
        \<and> (case report of
             None \<Rightarrow> snd ob = []
           | Some text \<Rightarrow> (\<exists>found. executed_lines env source repo text e' = Inr found
               \<and> snd ob = (case found of None \<Rightarrow> [] | Some lines \<Rightarrow> lines))))"

fun observed_runs ::
    "'e coverage_env \<Rightarrow> string list \<Rightarrow> string list \<Rightarrow> string list \<Rightarrow> 'e \<Rightarrow> observation list \<Rightarrow> 'e \<Rightarrow> bool" where
  "observed_runs env source repo [] e obs e' \<longleftrightarrow> obs = [] \<and> e' = e"
| "observed_runs env source repo (n # ns) e obs e' \<longleftrightarrow>
     (\<exists>ob rest e1. obs = ob # rest \<and> observed_run env source repo n e ob e1 \<and> observed_runs env source repo ns e1 rest e')"

text \<open>How often a line was executed by a passing, or a failing, run.\<close>

definition runs_through :: "observation list \<Rightarrow> bool \<Rightarrow> int \<Rightarrow> nat" where
  "runs_through obs passed line = length (filter (\<lambda>ob. fst ob = passed \<and> line \<in> set (snd ob)) obs)"

lemma runs_through_simps [simp]:
  "runs_through [] passed line = 0"
  "runs_through (ob # obs) passed line = (if fst ob = passed \<and> line \<in> set (snd ob) then 1 else 0) + runs_through obs passed line"
  by (simp_all add: runs_through_def)

lemma runs_through_le: "runs_through obs passed line \<le> length (filter (\<lambda>ob. fst ob = passed) obs)"
  unfolding runs_through_def by (induction obs) auto

lemma runs_through_failed: "runs_through obs False line \<le> length (filter (\<lambda>ob. \<not> fst ob) obs)"
  using runs_through_le [of obs False line] by simp

text \<open>A report names every executed line once, which is how coverage writes it.\<close>

definition reports_distinct :: "'e coverage_env \<Rightarrow> bool" where
  "reports_distinct env \<longleftrightarrow>
     (\<forall>n e doc e' source repo e2 lines. cv_report env n e = (Inr (Some doc), e')
        \<longrightarrow> executed_lines env source repo doc e2 = Inr (Some lines) \<longrightarrow> distinct lines)"

section \<open>The matrix counts what was observed\<close>

definition bucket_of :: "bool \<Rightarrow> string" where
  "bucket_of passed = (if passed then ''passed'' else ''failed'')"

text \<open>The state of the loop after a run, given what was observed of it.\<close>

definition counts_observation :: "coverage_state \<Rightarrow> observation \<Rightarrow> coverage_state \<Rightarrow> bool" where
  "counts_observation st ob st' \<longleftrightarrow>
     cs_passed st' = cs_passed st + (if fst ob then 1 else 0) \<and> cs_failed st' = cs_failed st + (if fst ob then 0 else 1)
     \<and> cs_matrix st' = count_lines (bucket_of (fst ob)) (snd ob) (cs_matrix st)"

lemma run_node_observed:
  assumes "run_node env source repo n st e = (Inr st', e')"
  obtains ob where "observed_run env source repo n e ob e'" and "counts_observation st ob st'"
    and "reports_distinct env \<Longrightarrow> distinct (snd ob)"
proof -
  obtain rc e1 where run: "cv_run env n e = (Inr rc, e1)"
    using assms by (cases "cv_run env n e") (auto simp: run_node_def split: sum.splits)
  obtain rep e2 where report: "cv_report env n e1 = (Inr rep, e2)"
    using assms run by (cases "cv_report env n e1") (auto simp: run_node_def split: sum.splits)
  show thesis
  proof (cases rep)
    case None
    show ?thesis
      by (rule that [of "(rc = 0, [])"])
        (use assms run report None in \<open>auto simp: run_node_def observed_run_def counts_observation_def Let_def\<close>)
  next
    case (Some doc)
    then obtain found where found: "executed_lines env source repo doc e2 = Inr found"
      using assms run report by (cases "executed_lines env source repo doc e2") (auto simp: run_node_def Let_def)
    show ?thesis
    proof (rule that [of "(rc = 0, case found of None \<Rightarrow> [] | Some lines \<Rightarrow> lines)"])
      show "observed_run env source repo n e (rc = 0, case found of None \<Rightarrow> [] | Some lines \<Rightarrow> lines) e'"
        and "counts_observation st (rc = 0, case found of None \<Rightarrow> [] | Some lines \<Rightarrow> lines) st'"
        using assms run report Some found
        by (auto simp: run_node_def observed_run_def counts_observation_def bucket_of_def Let_def split: option.splits)
      show "distinct (snd (rc = 0, case found of None \<Rightarrow> [] | Some lines \<Rightarrow> lines))" if "reports_distinct env"
        using that report Some found unfolding reports_distinct_def by (cases found) (simp_all, blast)
    qed
  qed
qed

definition counted_matrix :: "coverage_state \<Rightarrow> observation list \<Rightarrow> coverage_state \<Rightarrow> bool" where
  "counted_matrix st obs st' \<longleftrightarrow>
     cs_passed st' = cs_passed st + length (filter fst obs) \<and> cs_failed st' = cs_failed st + length (filter (\<lambda>ob. \<not> fst ob) obs)
     \<and> (\<forall>line passed. stat (cs_matrix st') line (bucket_of passed) = stat (cs_matrix st) line (bucket_of passed) + runs_through obs passed line)
     \<and> set (dict_keys (cs_matrix st')) = set (dict_keys (cs_matrix st)) \<union> (\<Union>ob \<in> set obs. set (snd ob))
     \<and> (distinct (dict_keys (cs_matrix st)) \<longrightarrow> distinct (dict_keys (cs_matrix st')))"

lemma count_lines_bucket:
  assumes "distinct lines"
  shows "stat (count_lines (bucket_of p) lines matrix) l (bucket_of q)
    = stat matrix l (bucket_of q) + (if p = q \<and> l \<in> set lines then 1 else 0)"
proof -
  have "bucket_of p \<in> {''passed'', ''failed''}" by (simp add: bucket_of_def)
  from count_lines_stat [OF this assms, of matrix l "bucket_of q"] show ?thesis by (simp add: bucket_of_def)
qed

lemma counted_matrix_Nil: "counted_matrix st [] st"
  by (simp add: counted_matrix_def)

lemma counted_matrix_Cons:
  assumes "counts_observation st ob st1" and "distinct (snd ob)" and "counted_matrix st1 obs st'"
  shows "counted_matrix st (ob # obs) st'"
  using assms unfolding counted_matrix_def counts_observation_def
  by (intro conjI allI; elim conjE) (simp_all add: count_lines_bucket count_lines_keys Un_ac del: set_map)

lemma run_nodes_observed:
  assumes "run_nodes env source repo ns st e = (Inr st', e')" and "reports_distinct env"
  shows "\<exists>obs. observed_runs env source repo ns e obs e' \<and> counted_matrix st obs st'"
  using assms
proof (induction ns arbitrary: st e)
  case Nil
  then show ?case by (simp add: counted_matrix_Nil)
next
  case (Cons n ns)
  obtain st1 e1 where node: "run_node env source repo n st e = (Inr st1, e1)"
    and rest: "run_nodes env source repo ns st1 e1 = (Inr st', e')"
    using Cons.prems(1) by (auto split: prod.splits sum.splits)
  obtain ob where ob: "observed_run env source repo n e ob e1" "counts_observation st ob st1" "distinct (snd ob)"
    using run_node_observed [OF node] Cons.prems(2) by blast
  obtain obs where obs: "observed_runs env source repo ns e1 obs e'" "counted_matrix st1 obs st'"
    using Cons.IH [OF rest Cons.prems(2)] by blast
  have "observed_runs env source repo (n # ns) e (ob # obs) e'" using ob(1) obs(1) by auto
  with counted_matrix_Cons [OF ob(2,3) obs(2)] show ?case by blast
qed

lemma observed_runs_length: "observed_runs env source repo ns e obs e' \<Longrightarrow> length obs = length ns"
  by (induction ns arbitrary: e obs) auto

text \<open>
  C27. The coverage matrix counts the runs. Every collected test is run once, in the order of
  collection and at least one of them, and is counted as passed or as failed. For every line, the
  matrix holds under \<open>failed\<close> the number of the failing runs whose report names the line as
  executed, and under \<open>passed\<close> the number of such passing runs; its keys are the lines that some
  run executed, each once. So the scores the localiser computes from it lie between 0 and 1, and
  every suspicious line was executed by a failing test. Each report names an executed line once.
\<close>

theorem coverage_matrix_counts_runs:
  assumes "build_coverage_report env source test repo k e = (Inr r, e')" and "reports_distinct env"
  shows "\<exists>obs e1. pytest_node_ids env (cv_resolve env test e) (cv_resolve env repo e) e = (Inr (cb_node_ids r), e1)
    \<and> observed_runs env (cv_resolve env source e) (cv_resolve env repo e) (cb_node_ids r) e1 obs e'
    \<and> cb_node_ids r \<noteq> [] \<and> length obs = length (cb_node_ids r)
    \<and> cb_passed_count r = length (filter fst obs) \<and> cb_failed_count r = length (filter (\<lambda>ob. \<not> fst ob) obs)
    \<and> (\<forall>line. stat (cb_matrix r) line ''failed'' = runs_through obs False line
          \<and> stat (cb_matrix r) line ''passed'' = runs_through obs True line
          \<and> calculate_ochiai \<lparr>total_failed = cb_failed_count r, total_passed = cb_passed_count r\<rparr>
              (stat (cb_matrix r) line ''failed'') (stat (cb_matrix r) line ''passed'') \<le> 1)
    \<and> distinct (dict_keys (cb_matrix r)) \<and> set (dict_keys (cb_matrix r)) = (\<Union>ob \<in> set obs. set (snd ob))
    \<and> set (cb_suspicious_lines r) \<subseteq> {line. 0 < runs_through obs False line}"
proof -
  let ?st0 = "\<lparr>cs_matrix = [], cs_passed = 0, cs_failed = 0, cs_seconds = 0\<rparr>"
  obtain ns e1 where ids: "pytest_node_ids env (cv_resolve env test e) (cv_resolve env repo e) e = (Inr ns, e1)"
    using assms(1) by (auto simp: build_coverage_report_def Let_def split: prod.splits sum.splits)
  obtain st where runs: "run_nodes env (cv_resolve env source e) (cv_resolve env repo e) ns ?st0 e1 = (Inr st, e')"
    using assms(1) ids by (auto simp: build_coverage_report_def Let_def split: prod.splits sum.splits)
  let ?total = "\<lparr>total_failed = cs_failed st, total_passed = cs_passed st\<rparr>"
  have r: "cb_matrix r = cs_matrix st" "cb_failed_count r = cs_failed st" "cb_passed_count r = cs_passed st" "cb_node_ids r = ns"
    "cb_suspicious_lines r = get_top_k_lines ?total (cs_matrix st) k"
    using assms(1) ids runs by (auto simp: build_coverage_report_def Let_def)
  have "ns \<noteq> []"
    using ids by (auto simp: pytest_node_ids_def Let_def split: prod.splits sum.splits if_splits)
  obtain obs where obs: "observed_runs env (cv_resolve env source e) (cv_resolve env repo e) ns e1 obs e'"
    and counted: "counted_matrix ?st0 obs st"
    using run_nodes_observed [OF runs assms(2)] by blast
  have stats: "stat (cs_matrix st) line ''failed'' = runs_through obs False line"
      "stat (cs_matrix st) line ''passed'' = runs_through obs True line" for line
    using counted [unfolded counted_matrix_def, THEN conjunct2, THEN conjunct2, THEN conjunct1, rule_format, of line False]
      counted [unfolded counted_matrix_def, THEN conjunct2, THEN conjunct2, THEN conjunct1, rule_format, of line True]
    by (simp_all add: bucket_of_def)
  have totals: "cs_passed st = length (filter fst obs)" "cs_failed st = length (filter (\<lambda>ob. \<not> fst ob) obs)"
    and keys: "distinct (dict_keys (cs_matrix st))" "set (dict_keys (cs_matrix st)) = (\<Union>ob \<in> set obs. set (snd ob))"
    using counted unfolding counted_matrix_def by auto
  have scores: "calculate_ochiai ?total (stat (cs_matrix st) line ''failed'') (stat (cs_matrix st) line ''passed'') \<le> 1" for line
    by (rule ochiai_le_1) (simp add: stats totals runs_through_failed)
  have "set (cb_suspicious_lines r) \<subseteq> fst ` set (rank_suspicious_lines ?total (cs_matrix st))"
    unfolding r get_top_k_lines_def set_map by (rule image_mono) (rule set_py_take)
  then have "set (cb_suspicious_lines r) \<subseteq> {line. 0 < stat (cs_matrix st) line ''failed''}"
    unfolding set_rank_suspicious_lines [OF keys(1)] by (auto simp: stat_def)
  with ids obs \<open>ns \<noteq> []\<close> observed_runs_length [OF obs] totals stats scores keys show ?thesis
    unfolding r by (intro exI [of _ obs] exI [of _ e1]) simp
qed

definition sample_coverage :: "nat coverage_env" where
  "sample_coverage =
     \<lparr>cv_collect = (\<lambda>p e. (Inr (''t.py::a'' @ [CHR 0x0A] @ ''t.py::b'' @ [CHR 0x0A]), e)), cv_exists = (\<lambda>p e. False),
      cv_resolve = (\<lambda>p e. mem_resolve p), cv_run = (\<lambda>n e. (Inr (if n = ''t.py::a'' then 0 else 1), Suc e)),
      cv_report = (\<lambda>n e. (Inr (Some (Doc (JObj [(''files'', JObj [(''s.py'', JObj [(''executed_lines'',
         JArr (if n = ''t.py::a'' then [JInt 1] else [JInt 1, JInt 3]))])])]))), e)),
      cv_clock = real, cv_ranking_seconds = 0\<rparr>"

lemma sample_reports: "reports_distinct sample_coverage"
proof -
  have "distinct ls" if "executed_lines sample_coverage source repo (Doc (JObj [(''files'', JObj [(''s.py'', JObj [(''executed_lines'', JArr xs)])])])) e = Inr (Some ls)"
    and "xs = [JInt 1] \<or> xs = [JInt 1, JInt 3]" for source repo e xs ls
    using that by (auto simp: executed_lines_def dict_get_def match_file_key_def split: option.splits if_splits)
  then show ?thesis
    unfolding reports_distinct_def by (auto simp: sample_coverage_def split: if_splits)
qed

lemma sample_build:
  "\<exists>r e'. build_coverage_report sample_coverage ''/r/s.py'' ''/r/t.py'' ''/r'' k 0 = (Inr r, e')
     \<and> cb_node_ids r = [''t.py::a'', ''t.py::b''] \<and> cb_failed_count r = 1 \<and> cb_passed_count r = 1 \<and> stat (cb_matrix r) 3 ''failed'' = 1"
proof -
  let ?st0 = "\<lparr>cs_matrix = [], cs_passed = 0, cs_failed = 0, cs_seconds = 0\<rparr>"
  have paths: "cv_resolve sample_coverage ''/r/s.py'' 0 = [''r'', ''s.py'']" "cv_resolve sample_coverage ''/r/t.py'' 0 = [''r'', ''t.py'']"
    "cv_resolve sample_coverage ''/r'' 0 = [''r'']"
    by code_simp+
  have ids: "pytest_node_ids sample_coverage [''r'', ''t.py''] [''r''] 0 = (Inr [''t.py::a'', ''t.py::b''], 0)" by code_simp
  have "case fst (run_nodes sample_coverage [''r'', ''s.py''] [''r''] [''t.py::a'', ''t.py::b''] ?st0 0) of Inl err \<Rightarrow> False
      | Inr st \<Rightarrow> cs_failed st = 1 \<and> cs_passed st = 1 \<and> stat (cs_matrix st) 3 ''failed'' = 1"
    by code_simp
  then show ?thesis
    using ids by (auto simp: build_coverage_report_def Let_def paths split: prod.splits sum.splits)
qed

theorem coverage_matrix_counts_runs_witness:
  "\<exists>r e' obs. build_coverage_report sample_coverage ''/r/s.py'' ''/r/t.py'' ''/r'' 1 0 = (Inr r, e')
     \<and> length obs = 2 \<and> length (filter fst obs) = 1 \<and> runs_through obs False 3 = 1 \<and> stat (cb_matrix r) 3 ''failed'' = 1"
proof -
  obtain r e' where run: "build_coverage_report sample_coverage ''/r/s.py'' ''/r/t.py'' ''/r'' 1 0 = (Inr r, e')"
    and r: "cb_node_ids r = [''t.py::a'', ''t.py::b'']" "cb_failed_count r = 1" "cb_passed_count r = 1" "stat (cb_matrix r) 3 ''failed'' = 1"
    using sample_build by blast
  from coverage_matrix_counts_runs [OF run sample_reports] show ?thesis
  proof (elim exE conjE)
    fix obs
    assume "length obs = length (cb_node_ids r)" and "cb_passed_count r = length (filter fst obs)"
      and all: "\<forall>line. stat (cb_matrix r) line ''failed'' = runs_through obs False line
          \<and> stat (cb_matrix r) line ''passed'' = runs_through obs True line
          \<and> calculate_ochiai \<lparr>total_failed = cb_failed_count r, total_passed = cb_passed_count r\<rparr>
              (stat (cb_matrix r) line ''failed'') (stat (cb_matrix r) line ''passed'') \<le> 1"
    then have "length obs = 2" "length (filter fst obs) = 1" "runs_through obs False 3 = 1"
      using r spec [OF all, of 3] by simp_all
    with run r(4) show ?thesis by blast
  qed
qed

end
