(* ===== verification/SeedProps.thy ===== *)
theory SeedProps
  imports Seed CoverageProps
begin

text \<open>What a seeded task looks like to the workers.\<close>

lemma map_of_rev_distinct': "distinct (dict_keys fs) \<Longrightarrow> map_of (rev fs) = map_of fs"
  by (rule map_of_inject_set [THEN iffD2]) (simp_all add: rev_map [symmetric])

lemma hset_fields_lookup: "distinct (dict_keys fs) \<Longrightarrow> (f, v) \<in> set fs \<Longrightarrow> hset_fields fs h f = Some v"
  by (simp add: hset_fields_def map_add_def map_of_rev_distinct')

lemma root_fields_distinct: "distinct (dict_keys (root_fields env task_id inp e))"
proof -
  have "distinct [''tree_id'', ''code'', ''test_code'', ''source_path'', ''test_path'', ''source_relpath'', ''test_relpath'',
    ''repo_path'', ''repo_snapshot'', ''repo_snapshot_digest'', ''repo_snapshot_bytes'', ''repo_snapshot_files'', ''parent'', ''visits'',
    ''value_sum'', ''tests_failed'', ''tests_passed'', ''is_terminal'', ''expanded'', ''depth'', ''best_reward'', ''max_depth_seen'',
    ''generated_capsules'', ''coverage_matrix'', ''suspicious_lines'', ''plan_json'', ''plan_summary'', ''collected_test_nodes'', ''created_at'']"
    by code_simp
  then show ?thesis by (simp only: root_fields_def Let_def list.map fst_conv)
qed

text \<open>The root of a task as the workers read it.\<close>

definition seeded_root :: "('s, 'e) cli_env \<Rightarrow> string \<Rightarrow> seed_input \<Rightarrow> (string \<rightharpoonup> rtext) \<Rightarrow> bool" where
  "seeded_root env task_id inp rd \<longleftrightarrow> rd ''tree_id'' = Some (Txt task_id)
     \<and> rd ''code'' = Some (Txt (si_code inp)) \<and> rd ''test_code'' = Some (Txt (si_test_code inp))
     \<and> rd ''source_path'' = Some (Txt (path_text (si_source inp))) \<and> rd ''test_path'' = Some (Txt (path_text (si_test inp)))
     \<and> rd ''source_relpath'' = Some (Txt (si_source_relpath inp)) \<and> rd ''test_relpath'' = Some (Txt (si_test_relpath inp))
     \<and> rd ''repo_path'' = Some (Txt (path_text (si_repo inp)))
     \<and> rd ''repo_snapshot'' = Some (Doc (snapshot_json (si_snapshot inp)))
     \<and> rd ''repo_snapshot_digest'' = Some (Txt (cl_sha256_json env (snapshot_json (si_snapshot inp))))
     \<and> rd ''tests_failed'' = Some (Num (int (cb_failed_count (si_report inp))))
     \<and> rd ''parent'' = Some (Txt '''') \<and> rd ''visits'' = Some (Num 0) \<and> rd ''depth'' = Some (Num 0)
     \<and> rd ''expanded'' = Some (Txt ''False'') \<and> rd ''is_terminal'' = Some (Txt ''False'')
     \<and> rd ''plan_json'' = Some (Doc (plan_to_json (seed_plan env (si_report inp))))"

lemma root_fields_seeded: "seeded_root env task_id inp (hset_fields (root_fields env task_id inp e) h)"
proof -
  note field = hset_fields_lookup [OF root_fields_distinct]
  show ?thesis
    unfolding seeded_root_def by (intro conjI field) (simp_all only: root_fields_def Let_def list.set insert_iff prod.inject simp_thms)
qed

text \<open>What the seeding has read: the two files, the repository around them and its coverage.\<close>

definition seed_was_read :: "('s, 'e) cli_env \<Rightarrow> string \<Rightarrow> string \<Rightarrow> seed_input \<Rightarrow> 'e \<Rightarrow> 'e \<Rightarrow> bool" where
  "seed_was_read env source test inp e e1 \<longleftrightarrow>
     si_source inp = cv_resolve (cl_coverage env) source e \<and> si_test inp = cv_resolve (cl_coverage env) test e
   \<and> cl_read env (si_source inp) e = Inr (si_code inp) \<and> cl_read env (si_test inp) e = Inr (si_test_code inp)
   \<and> relative_to (si_source inp) (si_repo inp) = Inr (si_source_relpath inp)
   \<and> relative_to (si_test inp) (si_repo inp) = Inr (si_test_relpath inp)
   \<and> snapshot_repo_files (cl_rglob env (si_repo inp) e) = Inr (si_snapshot inp)
   \<and> build_coverage_report (cl_coverage env) (path_text (si_source inp)) (path_text (si_test inp)) (path_text (si_repo inp))
       (bs_suspicious_line_count (cl_budgets env)) e = (Inr (si_report inp), e1)"

lemma read_seed_input_was_read:
  "read_seed_input env source test repo e = (Inr inp, e1) \<Longrightarrow> seed_was_read env source test inp e e1"
  by (auto simp: read_seed_input_def seed_was_read_def Let_def py_bind_Inr split: sum.splits prod.splits)

lemma tree_index_other: "node_children_key n \<noteq> TREE_INDEX"
  by (simp add: key_defs)

lemma write_seed_effect:
  assumes "shared_store (cl_redis env)" and "write_seed env profile task_id inp e w = out"
  shows "\<exists>w'. out = Done w' \<and> seeded_root env task_id inp (w_hash (cl_redis env) w' (root_node_id task_id))
    \<and> rd_sets (r_data (cl_redis env) (w_store w')) =
        (rd_sets (r_data (cl_redis env) (w_store w)))(TREE_INDEX := insert task_id (rd_sets (r_data (cl_redis env) (w_store w)) TREE_INDEX))
    \<and> rd_strings (r_data (cl_redis env) (w_store w')) = rd_strings (r_data (cl_redis env) (w_store w))
    \<and> has_task (w_db w') task_id \<and> fetch_candidate_status (w_db w') (root_node_id task_id) = Some ''seeded''"
proof -
  let ?R = "cl_redis env" and ?root = "root_node_id task_id"
  let ?w1 = "w_exec ?R [CSAdd TREE_INDEX task_id, CHSet ?root (root_fields env task_id inp e)] w"
  let ?db = "record_task task_id (seed_task_row env profile inp e) (w_db w)"
  have task: "has_task ?db task_id"
    by (cases "map_of (db_tasks (w_db w)) task_id") (auto simp: record_task_def has_task_def)
  then obtain db where db: "record_candidate ?root (seed_candidate_row env task_id inp e) ?db = Inr db"
    by (auto simp: record_candidate_def seed_candidate_row_def)
  then have "has_task db task_id" and "fetch_candidate_status db ?root = Some ''seeded''"
    using task by (cases "map_of (db_candidates ?db) ?root";
        auto simp: record_candidate_def has_task_def fetch_candidate_status_def seed_candidate_row_def split: if_splits)+
  moreover have "out = Done (?w1\<lparr>w_db := db\<rparr>)"
    using assms(2) db by (simp add: write_seed_def Let_def)
  ultimately show ?thesis
    using assms(1) root_fields_seeded by (simp add: w_hash_def)
qed

text \<open>
  C26. Seeding a task. An exception while reading leaves store and ledger as they were. Otherwise
  the code is the text of the source file and the test code that of the test file, and the coverage
  report is the one of this run. Where it counts no failing test, the exit status is 1 and nothing
  is written. Where it counts one, the exit status is 0 and the task is ready for the workers: it
  is in the tree index, its root is an unvisited, unexpanded node of depth 0 without parent that
  holds what was read, a worker decodes from it the very plan that was built from the report, and
  the ledger holds the task and its root candidate. No place of the budget is taken, and while the
  task has no other node the selection returns the root.
\<close>

theorem seeded_task_is_ready:
  assumes "shared_store (cl_redis env)" and "fix_tests env source test profile repo w e = (out, w')"
  shows "case read_seed_input env source test repo e of
      (Inl err, e1) \<Rightarrow> out = Inl err \<and> w' = w
    | (Inr inp, e1) \<Rightarrow>
        let task_id = ''task_'' @ take 8 (cl_uuid_hex env e1); root = root_node_id task_id
        in seed_was_read env source test inp e e1
         \<and> (if cb_failed_count (si_report inp) = 0 then out = Inr 1 \<and> w' = w
            else out = Inr 0
               \<and> rd_sets (r_data (cl_redis env) (w_store w')) TREE_INDEX
                   = insert task_id (rd_sets (r_data (cl_redis env) (w_store w)) TREE_INDEX)
               \<and> seeded_root env task_id inp (w_hash (cl_redis env) w' root)
               \<and> (\<forall>budgets. worker_task_plan budgets (w_hash (cl_redis env) w' root) = Inr (seed_plan env (si_report inp)))
               \<and> budget_used (cl_redis env) task_id w' = budget_used (cl_redis env) task_id w
               \<and> has_task (w_db w') task_id \<and> fetch_candidate_status (w_db w') root = Some ''seeded''
               \<and> (rd_sets (r_data (cl_redis env) (w_store w)) (node_children_key root) = {}
                   \<longrightarrow> (\<forall>budgets. distributed_select (cl_redis env) budgets task_id w' = Some (Inr root))))"
proof -
  let ?R = "cl_redis env"
  obtain v e1 where input: "read_seed_input env source test repo e = (v, e1)" by force
  show ?thesis
  proof (cases v)
    case (Inl err)
    with assms(2) input show ?thesis by (simp add: fix_tests_def)
  next
    case inp: (Inr inp)
    note read = read_seed_input_was_read [OF input [unfolded inp]]
    show ?thesis
    proof (cases "cb_failed_count (si_report inp) = 0")
      case True
      with assms(2) input inp read show ?thesis by (simp add: fix_tests_def Let_def)
    next
      case False
      let ?id = "''task_'' @ take 8 (cl_uuid_hex env e1)"
      from write_seed_effect [OF assms(1) refl, of profile ?id inp e1 w] obtain w2 where
        w2: "write_seed env profile ?id inp e1 w = Done w2" and root: "seeded_root env ?id inp (w_hash ?R w2 (root_node_id ?id))"
        and sets: "rd_sets (r_data ?R (w_store w2)) = (rd_sets (r_data ?R (w_store w)))(TREE_INDEX := insert ?id (rd_sets (r_data ?R (w_store w)) TREE_INDEX))"
        and strings: "rd_strings (r_data ?R (w_store w2)) = rd_strings (r_data ?R (w_store w))"
        and ledger: "has_task (w_db w2) ?id" "fetch_candidate_status (w_db w2) (root_node_id ?id) = Some ''seeded''"
        by blast
      have run: "out = Inr 0" "w' = w2" using assms(2) input inp False w2 by (simp_all add: fix_tests_def)
      have plan: "worker_task_plan budgets (w_hash ?R w2 (root_node_id ?id)) = Inr (seed_plan env (si_report inp))" for budgets
        by (rule worker_task_plan_stored) (use root in \<open>simp add: seeded_root_def\<close>)
      have "distributed_select ?R budgets ?id w2 = Some (Inr (root_node_id ?id))"
        if "rd_sets (r_data ?R (w_store w)) (node_children_key (root_node_id ?id)) = {}" for budgets
      proof -
        have "rd_sets (r_data ?R (w_store w2)) (node_children_key (root_node_id ?id)) = {}"
          using that sets tree_index_other by simp
        then show ?thesis
          using plan [of budgets] by (simp add: distributed_select_def w_hash_def Let_def select_from.simps)
      qed
      moreover have "budget_used ?R ?id w2 = budget_used ?R ?id w" by (simp add: budget_used_def w_string_def strings)
      moreover have "rd_sets (r_data ?R (w_store w2)) TREE_INDEX = insert ?id (rd_sets (r_data ?R (w_store w)) TREE_INDEX)"
        using sets by simp
      ultimately show ?thesis using False run root plan ledger read by (simp add: input inp Let_def)
    qed
  qed
qed

definition sample_cli :: "(redis_data, nat) cli_env" where
  "sample_cli =
     \<lparr>cl_redis = mem_redis, cl_coverage = sample_coverage, cl_budgets = \<lparr>bs_max_capsules = 8, bs_max_wall_seconds = 600,
        bs_max_diff_lines = 10, bs_max_touched_files = 1, bs_max_depth = 3, bs_max_children = 4, bs_suspicious_line_count = 5\<rparr>,
      cl_read = (\<lambda>p e. Inr ''x > 0''),
      cl_rglob = (\<lambda>p e. [\<lparr>de_parts = [''.git'', ''HEAD''], de_is_dir = False, de_is_symlink = False, de_size = 3, de_text = Inr ''ref''\<rparr>,
        \<lparr>de_parts = [''s.py''], de_is_dir = False, de_is_symlink = False, de_size = 5, de_text = Inr ''x > 0''\<rparr>]),
      cl_sha256_json = (\<lambda>j. ''d''), cl_uuid_hex = (\<lambda>e. ''0123456789''), cl_now = real, cl_snapshot_seconds = real, cl_seed_seconds = real\<rparr>"

lemma sample_seed_input: "\<exists>inp e1. read_seed_input sample_cli ''/r/s.py'' ''/r/t.py'' None 0 = (Inr inp, e1) \<and> cb_failed_count (si_report inp) \<noteq> 0"
proof -
  obtain r e' where run: "build_coverage_report sample_coverage ''/r/s.py'' ''/r/t.py'' ''/r'' 5 0 = (Inr r, e')" and "cb_failed_count r = 1"
    using sample_build by blast
  have paths: "cv_resolve sample_coverage ''/r/s.py'' 0 = [''r'', ''s.py'']" "cv_resolve sample_coverage ''/r/t.py'' 0 = [''r'', ''t.py'']"
    by code_simp+
  have shared: "common_path [''r'', ''s.py''] [''r'', ''t.py''] = [''r'']" by simp
  have texts: "path_text [''r'', ''s.py''] = ''/r/s.py''" "path_text [''r'', ''t.py''] = ''/r/t.py''" "path_text [''r''] = ''/r''"
    by code_simp+
  have relative: "relative_to [''r'', ''s.py''] [''r''] = Inr ''s.py''" "relative_to [''r'', ''t.py''] [''r''] = Inr ''t.py''"
    by (simp_all add: relative_to_def relative_text_def)
  have files: "snapshot_repo_files (cl_rglob sample_cli [''r''] 0) = Inr [(''s.py'', ''x > 0'')]"
    by (simp add: sample_cli_def IGNORED_SNAPSHOT_DIRS_def MAX_SNAPSHOT_BYTES_def relative_text_def)
  have env: "cl_coverage sample_cli = sample_coverage" "cl_read sample_cli = (\<lambda>p e. Inr ''x > 0'')"
    "bs_suspicious_line_count (cl_budgets sample_cli) = 5"
    by (simp_all add: sample_cli_def)
  show ?thesis
    using run \<open>cb_failed_count r = 1\<close> by (simp add: read_seed_input_def Let_def env paths shared texts relative files)
qed

lemma sample_seeds: "\<exists>w'. fix_tests sample_cli ''/r/s.py'' ''/r/t.py'' ''dev'' None empty_world 0 = (Inr 0, w')"
proof -
  have store: "shared_store (cl_redis sample_cli)" by (simp add: sample_cli_def mem.shared_store_axioms)
  obtain inp e1 where inp: "read_seed_input sample_cli ''/r/s.py'' ''/r/t.py'' None 0 = (Inr inp, e1)" and "cb_failed_count (si_report inp) \<noteq> 0"
    using sample_seed_input by blast
  moreover obtain w' where "write_seed sample_cli ''dev'' (''task_'' @ take 8 (cl_uuid_hex sample_cli e1)) inp e1 empty_world = Done w'"
    using write_seed_effect [OF store refl] by blast
  ultimately show ?thesis by (simp add: fix_tests_def)
qed

theorem seeded_task_is_ready_witness:
  "\<exists>w'. fix_tests sample_cli ''/r/s.py'' ''/r/t.py'' ''dev'' None empty_world 0 = (Inr 0, w')
     \<and> (\<exists>task_id. task_id \<in> rd_sets (r_data mem_redis (w_store w')) TREE_INDEX \<and> budget_used mem_redis task_id w' = 0
       \<and> w_hash mem_redis w' (root_node_id task_id) ''code'' = Some (Txt ''x > 0'')
       \<and> distributed_select mem_redis (cl_budgets sample_cli) task_id w' = Some (Inr (root_node_id task_id)))"
proof -
  have R: "cl_redis sample_cli = mem_redis" by (simp add: sample_cli_def)
  have store: "shared_store (cl_redis sample_cli)" by (simp add: R mem.shared_store_axioms)
  obtain w' where run: "fix_tests sample_cli ''/r/s.py'' ''/r/t.py'' ''dev'' None empty_world 0 = (Inr 0, w')"
    using sample_seeds by blast
  obtain inp e1 where inp: "read_seed_input sample_cli ''/r/s.py'' ''/r/t.py'' None 0 = (Inr inp, e1)"
    and failed: "cb_failed_count (si_report inp) \<noteq> 0"
    using sample_seed_input by blast
  let ?id = "''task_'' @ take 8 (cl_uuid_hex sample_cli e1)"
  have "r_data mem_redis (w_store empty_world) = empty_data" by (simp add: mem_redis_def empty_world_def)
  then have empty: "rd_sets (r_data mem_redis (w_store empty_world)) k = {}" "budget_used mem_redis t empty_world = 0" for k t
    by (simp_all add: budget_used_def w_string_def empty_data_def)
  have "cl_read sample_cli p e = Inr ''x > 0''" for p e by (simp add: sample_cli_def)
  then have "?id \<in> rd_sets (r_data mem_redis (w_store w')) TREE_INDEX \<and> budget_used mem_redis ?id w' = 0
       \<and> w_hash mem_redis w' (root_node_id ?id) ''code'' = Some (Txt ''x > 0'')
       \<and> distributed_select mem_redis (cl_budgets sample_cli) ?id w' = Some (Inr (root_node_id ?id))"
    using seeded_task_is_ready [OF store run] failed
    by (simp add: inp Let_def R empty seed_was_read_def seeded_root_def)
  with run show ?thesis by blast
qed

end
