(* ===== verification/SystemProps.thy ===== *)
theory SystemProps
  imports SystemEffects SeedProps
begin

text \<open>
  What holds of the system in every state it can reach from an empty store and ledger, and that
  each of its turns refines the elementary effects.
\<close>

section \<open>Reading typed data\<close>

definition system_start :: "'s redis \<Rightarrow> 's world \<Rightarrow> bool" where
  "system_start R w \<longleftrightarrow> r_data R (w_store w) = empty_data \<and> w_db w = empty_db"

lemma start_typed: "system_start R w \<Longrightarrow> typed_world R w"
  by (simp add: system_start_def typed_world_def typed_data_def typed_ledger_def empty_data_def empty_db_def
      typed_hash_def tbl_all_def)

lemma start_keys: "system_start R w \<Longrightarrow> pk_ok (w_db w) \<and> fk_ok (w_db w)"
  by (simp add: system_start_def empty_db_def pk_ok_def fk_ok_def tbl_all_def)

text \<open>
  A hash every field of which is a declared one and can be read at its type: \<open>m[f]\<close> as a text,
  \<open>int(m[f])\<close>, \<open>float(m[f])\<close>, or a document that decodes to a plan, to files by path, to line
  numbers, to counts by line or to names.
\<close>

definition reads_at :: "rtext \<Rightarrow> field_type \<Rightarrow> bool" where
  "reads_at v t \<longleftrightarrow> (case t of
       TText \<Rightarrow> (\<exists>s. v = Txt s)
     | TInt \<Rightarrow> (\<exists>n. to_int v = Inr n)
     | TFloat \<Rightarrow> (\<exists>x. to_float v = Inr x)
     | TPlan \<Rightarrow> (\<exists>plan. Option.bind (text_json v) plan_from_json = Some plan)
     | TSnapshot \<Rightarrow> (\<exists>files. Option.bind (text_json v) (js_dict js_str) = Some files)
     | TLines \<Rightarrow> (\<exists>lines. Option.bind (text_json v) (js_list js_int) = Some lines)
     | TMatrix \<Rightarrow> (\<exists>counts. Option.bind (text_json v) (js_dict (js_dict js_int)) = Some counts)
     | TNames \<Rightarrow> (\<exists>names. Option.bind (text_json v) (js_list js_str) = Some names)
     | TUndeclared \<Rightarrow> False)"

definition reads_ok :: "(string \<rightharpoonup> rtext) \<Rightarrow> bool" where
  "reads_ok h \<longleftrightarrow> (\<forall>f v. h f = Some v \<longrightarrow> f \<in> set (dict_keys field_types) \<and> reads_at v (field_type_of f))"

lemma has_type_reads: "has_type v t \<Longrightarrow> reads_at v t"
  by (cases v; cases t) (auto simp: reads_at_def to_int_def to_float_def)

lemma typed_hash_reads: "typed_hash h \<Longrightarrow> reads_ok h"
proof -
  have "f \<in> set (dict_keys field_types)" if "has_type v (field_type_of f)" for f v
  proof -
    have "map_of field_types f \<noteq> None"
      using that by (cases v; cases "map_of field_types f") (auto simp: field_type_of_def)
    then show ?thesis by (simp add: map_of_eq_None_iff)
  qed
  then show "typed_hash h \<Longrightarrow> reads_ok h"
    unfolding typed_hash_def reads_ok_def using has_type_reads by blast
qed

lemma reads_okD: "reads_ok h \<Longrightarrow> h f = Some v \<Longrightarrow> field_type_of f = t \<Longrightarrow> reads_at v t"
  by (auto simp: reads_ok_def)

lemma reads_int:
  assumes "reads_ok h" and "field_type_of f = TInt"
  shows "\<exists>n. field_int h f d = Inr n"
  by (cases "h f") (use reads_okD [OF assms(1) _ assms(2)] in \<open>auto simp: reads_at_def field_int_def\<close>)

lemma reads_float:
  assumes "reads_ok h" and "field_type_of f = TFloat"
  shows "\<exists>x. field_float h f d = Inr x"
  by (cases "h f") (use reads_okD [OF assms(1) _ assms(2)] in \<open>auto simp: reads_at_def field_float_def\<close>)

text \<open>What a worker reads of a root: the plan, the snapshot of the repository and its size.\<close>

lemma reads_plan:
  assumes "reads_ok h"
  shows "\<exists>plan. worker_task_plan budgets h = Inr plan"
proof (cases "h ''plan_json''")
  case None
  show ?thesis
  proof (cases "h ''suspicious_lines''")
    case (Some v)
    with reads_okD [OF assms Some] have "reads_at v TLines" by simp
    then show ?thesis
      using None Some by (cases v) (auto simp: worker_task_plan_def or_text_def reads_at_def bind_eq_Some_conv split: list.splits)
  qed (simp add: worker_task_plan_def None)
next
  case (Some v)
  with reads_okD [OF assms Some] have "reads_at v TPlan" by simp
  then show ?thesis
    using Some by (cases v) (auto simp: worker_task_plan_def or_text_def reads_at_def bind_eq_Some_conv split: list.splits)
qed

lemma reads_snapshot:
  assumes "reads_ok h"
  shows "\<exists>files. read_snapshot h = Inr files"
proof (cases "h ''repo_snapshot''")
  case (Some v)
  with reads_okD [OF assms Some] have "reads_at v TSnapshot" by simp
  then show ?thesis using Some by (auto simp: reads_at_def read_snapshot_def bind_eq_Some_conv)
qed (simp add: read_snapshot_def)

lemma reads_number:
  assumes "reads_ok h" and "field_type_of f = TInt"
  shows "\<exists>n. snapshot_number h f = Inr n"
proof (cases "h f")
  case (Some v)
  with reads_okD [OF assms(1) Some] assms(2) have "reads_at v TInt" by simp
  then show ?thesis
    using Some by (cases v) (auto simp: reads_at_def snapshot_number_def or_text_def split: list.splits)
qed (simp add: snapshot_number_def)

section \<open>The dashboard of a typed system\<close>

lemma read_rows_total: "(\<And>r. r \<in> set rows \<Longrightarrow> \<exists>x. e r = Inr x) \<Longrightarrow> \<exists>xs. read_rows e rows = Inr xs"
proof (induction rows)
  case (Cons r rows)
  obtain x where x: "e r = Inr x" using Cons.prems [of r] by auto
  obtain xs where "read_rows e rows = Inr xs" using Cons.IH Cons.prems by auto
  with x show ?case by simp
qed simp

lemma sql_avg_total: "(\<And>r. r \<in> set rows \<Longrightarrow> \<exists>x. e r = Inr x) \<Longrightarrow> \<exists>x. sql_avg e rows = Inr x"
  using read_rows_total [of rows e] by (auto simp: sql_avg_def)

lemma number_double: "is_number j \<Longrightarrow> \<exists>x. text_double pg (Some j) = Inr x \<and> jsonb_double (Some j) = Inr x"
  by (cases j) auto

lemma numbers_double:
  assumes "\<And>j. v = Some j \<Longrightarrow> numbers_at names j" and "name \<in> set names"
  shows "\<exists>x. text_double pg (jsonb_get v name) = Inr x"
proof (cases "jsonb_get v name")
  case (Some j)
  then obtain d where v: "v = Some (JObj d)" "map_of d name = Some j" by (cases "(v, name)" rule: jsonb_get.cases) auto
  then have "is_number j" using assms map_of_SomeD [OF v(2)] by fastforce
  then show ?thesis using number_double Some by metis
qed simp

lemma performance_total:
  assumes "typed_ledger db"
  shows "\<exists>p. performance_snapshot pg db = Inr p"
proof -
  let ?ts = "map snd (db_tasks db)" and ?xs = "map snd (db_executions db)"
  let ?gs = "filter (\<lambda>r. cr_patch_kind r \<noteq> ''seed'') (map snd (db_candidates db))"
  have task: "typed_doc typed_task_entry (tr_metadata r)" if "r \<in> set ?ts" for r
    using assms that by (auto simp: typed_ledger_def tbl_all_def)
  have cand: "typed_doc typed_candidate_entry (cr_metadata r)" if "r \<in> set ?gs" for r
    using assms that by (auto simp: typed_ledger_def tbl_all_def)
  have exec: "typed_doc typed_meta_entry (xr_meta r)" if "r \<in> set ?xs" for r
    using assms that by (auto simp: typed_ledger_def tbl_all_def)
  have timings: "\<exists>x. sql_avg (task_timing pg ''timings'' name) ?ts = Inr x"
    if "name \<in> {''seed_total_seconds'', ''coverage_total_seconds''}" for name
    unfolding task_timing_def
    by (rule sql_avg_total, rule numbers_double [of _ "[''seed_total_seconds'', ''coverage_total_seconds'']"])
      (use task that in \<open>auto simp: typed_doc_def typed_task_entry_def\<close>)
  have bytes: "\<exists>x. sql_avg (task_timing pg ''snapshot'' ''bytes'') ?ts = Inr x"
    unfolding task_timing_def
    by (rule sql_avg_total, rule numbers_double [of _ "[''bytes'']"])
      (use task in \<open>auto simp: typed_doc_def typed_task_entry_def\<close>)
  have queue: "\<exists>x. sql_avg (execution_timing pg ''dispatch'' ''queue_wait_ms'') ?xs = Inr x"
    unfolding execution_timing_def
    by (rule sql_avg_total, rule numbers_double [of _ "[''queue_wait_ms'']"])
      (use exec in \<open>auto simp: typed_doc_def typed_meta_entry_def\<close>)
  have simulator: "\<exists>x. sql_avg (execution_timing pg ''simulator'' name) ?xs = Inr x"
    if "name \<in> {''materialize_ms'', ''artifact_write_ms''}" for name
    unfolding execution_timing_def
    by (rule sql_avg_total, rule numbers_double [of _ "[''materialize_ms'', ''artifact_write_ms'']"])
      (use exec that in \<open>auto simp: typed_doc_def typed_meta_entry_def\<close>)
  have full: "\<exists>x. sql_avg (full_suite_timing pg) ?xs = Inr x"
  proof (rule sql_avg_total)
    fix r assume r: "r \<in> set ?xs"
    have stages: "numbers_at [''full_suite_ms''] j" if "jsonb_get (xr_meta r ''funnel'') ''stages'' = Some j" for j
    proof -
      from that obtain d where d: "xr_meta r ''funnel'' = Some (JObj d)" "map_of d ''stages'' = Some j"
        by (cases "(xr_meta r ''funnel'', ''stages'')" rule: jsonb_get.cases) auto
      then have "funnel_numbers (JObj d)" using exec [OF r] by (simp only: typed_doc_def typed_meta_entry_def)
      then show ?thesis using map_of_SomeD [OF d(2)] by fastforce
    qed
    then show "\<exists>x. full_suite_timing pg r = Inr x"
      unfolding full_suite_timing_def by (rule numbers_double [of _ "[''full_suite_ms'']"]) simp_all
  qed
  have runtime: "\<exists>x. sql_avg (\<lambda>r. Inr (xr_runtime r)) ?xs = Inr x" by (rule sql_avg_total) simp
  have generation: "\<exists>x. sql_avg generation_timing ?gs = Inr x"
  proof (rule sql_avg_total)
    fix r assume r: "r \<in> set ?gs"
    show "\<exists>x. generation_timing r = Inr x"
    proof (cases "cr_metadata r ''generation_seconds''")
      case (Some j)
      then have "is_number j" using cand [OF r] by (simp add: typed_doc_def typed_candidate_entry_def)
      then show ?thesis using Some number_double [of j] by (auto simp: generation_timing_def)
    qed (simp add: generation_timing_def)
  qed
  obtain x1 x2 x3 x4 x5 x6 x7 x8 x9 where
    "sql_avg (task_timing pg ''timings'' ''seed_total_seconds'') ?ts = Inr x1"
    "sql_avg (task_timing pg ''timings'' ''coverage_total_seconds'') ?ts = Inr x2"
    "sql_avg (task_timing pg ''snapshot'' ''bytes'') ?ts = Inr x3"
    "sql_avg (\<lambda>r. Inr (xr_runtime r)) ?xs = Inr x4"
    "sql_avg (execution_timing pg ''dispatch'' ''queue_wait_ms'') ?xs = Inr x5"
    "sql_avg (execution_timing pg ''simulator'' ''materialize_ms'') ?xs = Inr x6"
    "sql_avg (execution_timing pg ''simulator'' ''artifact_write_ms'') ?xs = Inr x7"
    "sql_avg (full_suite_timing pg) ?xs = Inr x8" "sql_avg generation_timing ?gs = Inr x9"
    using timings [of "''seed_total_seconds''"] timings [of "''coverage_total_seconds''"] bytes queue
      simulator [of "''materialize_ms''"] simulator [of "''artifact_write_ms''"] full runtime generation by auto
  then show ?thesis by (simp add: performance_snapshot_def Let_def)
qed

lemma forest_total: "(\<And>k. typed_hash (w_hash R w k)) \<Longrightarrow> \<exists>ts. forest_state R w ids = Inr ts"
proof (induction ids)
  case (Cons t ids)
  obtain ts where ts: "forest_state R w ids = Inr ts" using Cons by auto
  have ok: "reads_ok (w_hash R w (root_node_id t))" by (rule typed_hash_reads) (rule Cons.prems)
  have ints: "\<exists>m. field_int (w_hash R w (root_node_id t)) f 0 = Inr m" if "field_type_of f = TInt" for f
    using reads_int [OF ok that] .
  have floats: "\<exists>y. field_float (w_hash R w (root_node_id t)) f 0 = Inr y" if "field_type_of f = TFloat" for f
    using reads_float [OF ok that] .
  show ?case
    using ts ints [of "''max_depth_seen''"] ints [of "''generated_capsules''"] floats [of "''best_reward''"]
    by (auto simp: Let_def forest_entry_def)
qed simp

lemma dashboard_total:
  assumes "shared_store (te_redis env)" and "typed_world (te_redis env) w"
  shows "\<exists>d w'. dashboard_payload env w = (Inr d, w')"
proof -
  let ?R = "te_redis env" and ?ttl = "of_int (om_worker_heartbeat_ttl_seconds (te_settings env))"
  let ?w = "w_exec ?R [CZRemRangeByScore WORKER_HEARTBEATS 0 (te_now env - ?ttl)] w"
  have "effects any_cmd ?R w ?w" by (rule effects_cmds) simp
  then have typed: "typed_world ?R ?w" by (rule effects_typed [OF assms(1) _ assms(2)])
  have "\<exists>runs. live_runs (take 8 (rd_lists (r_data ?R (w_store ?w)) RECENT_RUNS)) = Inr runs"
    unfolding live_runs_def
    by (rule read_rows_total) (use typed in \<open>auto simp: typed_world_def typed_data_def is_doc_def dest!: in_set_takeD\<close>)
  then obtain runs where runs: "live_runs (take 8 (rd_lists (r_data ?R (w_store ?w)) RECENT_RUNS)) = Inr runs" by blast
  have "\<exists>ts. forest_state ?R ?w ids = Inr ts" for ids
    by (rule forest_total) (use typed in \<open>simp add: typed_world_def typed_data_def w_hash_def\<close>)
  then obtain ts where ts: "forest_state ?R ?w (sorted_list_of_set (rd_sets (r_data ?R (w_store ?w)) TREE_INDEX)) = Inr ts" by blast
  have "\<exists>n. or_zero (w_string ?R ?w k) = Inr n" if "k \<in> {STATS_INFLIGHT, STATS_TOTAL_EVALS}" for k
  proof (cases "w_string ?R ?w k")
    case (Some v)
    then have "\<exists>n. v = Num n"
      using typed that unfolding typed_world_def typed_data_def typed_string_def w_string_def by blast
    then show ?thesis using Some by (auto simp: or_zero_def)
  qed (simp add: or_zero_def)
  then obtain n1 n2 where n: "or_zero (w_string ?R ?w STATS_INFLIGHT) = Inr n1" "or_zero (w_string ?R ?w STATS_TOTAL_EVALS) = Inr n2"
    by blast
  obtain p where "performance_snapshot (te_pg_double env) (w_db ?w) = Inr p"
    using performance_total typed unfolding typed_world_def by blast
  with runs ts n show ?thesis unfolding dashboard_payload_def Let_def by simp
qed

section \<open>The properties\<close>

text \<open>
  C3. The system is typed. Whatever turns the components take from an empty store and ledger, and
  whichever of them raise: every field that a hash of the store holds is one of the declared
  fields and can be read at its type, the documents among them included; so the reads of a root by
  which a worker starts succeed (the plan, the snapshot of the repository and its sizes); every
  entry of the results stream decodes to a pack; and the telemetry service answers every request.
\<close>

theorem system_stays_typed:
  assumes "shared_store R" and "system_start R w0" and "run_turns R ts w0 = Some w"
  shows "(\<forall>k f v. w_hash R w k f = Some v \<longrightarrow> f \<in> set (dict_keys field_types) \<and> reads_at v (field_type_of f))
    \<and> (\<forall>k budgets. \<exists>plan files bytes n. worker_task_plan budgets (w_hash R w k) = Inr plan
          \<and> read_snapshot (w_hash R w k) = Inr files
          \<and> snapshot_number (w_hash R w k) ''repo_snapshot_bytes'' = Inr bytes
          \<and> snapshot_number (w_hash R w k) ''repo_snapshot_files'' = Inr n)
    \<and> (\<forall>v \<in> set (rd_streams (r_data R (w_store w)) STREAM_RESULTS). \<exists>pack. message_pack (Some v) = Inr pack)
    \<and> (\<forall>env path err w'. te_redis env = R \<longrightarrow> do_GET env path w \<noteq> (Aborted err, w'))"
proof -
  have start: "typed_world R w0" using assms(2) by (rule start_typed)
  have typed: "typed_world R w" using effects_typed [OF assms(1) turns_effects [OF assms(1) start assms(3)] start] .
  have "reads_ok (w_hash R w k)" for k
    by (rule typed_hash_reads) (use typed in \<open>simp add: typed_world_def typed_data_def w_hash_def\<close>)
  moreover have "\<exists>pack. message_pack (Some v) = Inr pack" if "v \<in> set (rd_streams (r_data R (w_store w)) STREAM_RESULTS)" for v
  proof -
    have "typed_result v" using typed that by (simp add: typed_world_def typed_data_def)
    then show ?thesis by (auto simp: typed_result_def message_pack_def bind_eq_Some_conv)
  qed
  moreover have "do_GET env path w \<noteq> (Aborted err, w')" if "te_redis env = R" for env path err w'
    using dashboard_total [of env w] assms(1) typed that by (auto simp: do_GET_def)
  moreover note reads_plan reads_snapshot reads_number
  ultimately show ?thesis unfolding reads_ok_def [symmetric] by (auto 4 0)
qed

definition sample_telemetry :: "redis_data telemetry_env" where
  "sample_telemetry =
     \<lparr>te_redis = mem_redis, te_settings =
        \<lparr>om_redis = [], om_cas_endpoint = [], om_cas_bucket = [], om_cas_access_key = [], om_cas_secret_key = [],
         om_executor_host = [], om_executor_base_port = 0, om_executor_cores = 1, om_telemetry_host = [],
         om_telemetry_port = 0, om_worker_heartbeat_ttl_seconds = 30\<rparr>,
      te_pg_double = (\<lambda>s. None), te_now = 100\<rparr>"

definition sample_turns :: "(redis_data, unit, unit, nat, unit) turn list" where
  "sample_turns = [Seeding sample_cli ''/r/s.py'' ''/r/t.py'' ''dev'' None 0, Reporting sample_telemetry ''/api/dashboard'']"

lemma sample_turns_start: "system_start mem_redis empty_world"
  by (simp add: system_start_def mem_redis_def empty_world_def)

lemma sample_turns_run: "\<exists>w. run_turns mem_redis sample_turns empty_world = Some w"
  using sample_seeds by (auto simp: sample_turns_def served_def sample_cli_def sample_telemetry_def)

theorem system_stays_typed_witness:
  "\<exists>w d w'. run_turns mem_redis sample_turns empty_world = Some w
     \<and> do_GET sample_telemetry ''/api/dashboard'' w = (Dashboard d, w')"
proof -
  obtain w where run: "run_turns mem_redis sample_turns empty_world = Some w" using sample_turns_run by blast
  have "te_redis sample_telemetry = mem_redis" by (simp add: sample_telemetry_def)
  then have "do_GET sample_telemetry ''/api/dashboard'' w \<noteq> (Aborted err, w')" for err w'
    using system_stays_typed [OF mem.shared_store_axioms sample_turns_start run] by blast
  moreover obtain r w' where r: "do_GET sample_telemetry ''/api/dashboard'' w = (r, w')" by force
  moreover have "(\<exists>d. r = Dashboard d) \<or> (\<exists>err. r = Aborted err)"
    using r by (auto simp: do_GET_def split: prod.splits sum.splits)
  ultimately show ?thesis using run by fastforce
qed

text \<open>
  Every turn of the system refines the elementary effects: it is a sequence of typed store
  commands, counter changes, reservations and ledger calls, however it ends.
\<close>

lemma turns_refine_effects:
  assumes "shared_store R" and "typed_world R w" and "run_turns R ts w = Some w'"
  shows "effects any_cmd R w w' \<and> typed_world R w'"
  using turns_effects [OF assms] effects_typed [OF assms(1) _ assms(2)] by blast

text \<open>
  The ledger refuses a duplicate key and a reference to a missing row; so its keys stay intact,
  whatever turns the components take from an empty ledger.
\<close>

lemma system_keeps_its_keys:
  assumes "shared_store R" and "system_start R w0" and "run_turns R ts w0 = Some w"
  shows "pk_ok (w_db w) \<and> fk_ok (w_db w)"
  using effects_keys [OF turns_effects [OF assms(1) start_typed [OF assms(2)] assms(3)] start_keys [OF assms(2)]] .

end
