(* ===== verification/SearchProps.thy ===== *)
theory SearchProps
  imports SystemProps MemoryProps
begin

text \<open>
  That nothing in the system hangs. Two loops follow links in the shared store: the selection goes
  from a node to a child, the propagation of a reward from a node to its parent. Both end in a tree
  whose children lie one level below their parents. Seeding starts such a tree, expansion grows
  it by one level below the expanded node, and no other turn touches its shape.
\<close>

section \<open>Layered trees\<close>

definition depth_of :: "redis_data \<Rightarrow> string \<Rightarrow> int" where
  "depth_of d n = counter (rd_hashes d n ''depth'')"

abbreviation kids :: "redis_data \<Rightarrow> string \<Rightarrow> string set" where
  "kids d n \<equiv> rd_sets d (node_children_key n)"

text \<open>
  The links in both directions agree, each child lies one level below its parent, and some level
  bounds them all.
\<close>

definition layered :: "redis_data \<Rightarrow> bool" where
  "layered d \<longleftrightarrow> (\<forall>k. finite (rd_sets d k)) \<and> (\<forall>n. 0 \<le> depth_of d n)
     \<and> (\<forall>n. \<forall>m \<in> kids d n. rd_hashes d m ''parent'' = Some (Txt n) \<and> depth_of d m = depth_of d n + 1)
     \<and> (\<forall>m p. rd_hashes d m ''parent'' = Some (Txt p) \<longrightarrow> p \<noteq> [] \<longrightarrow> m \<in> kids d p)
     \<and> (\<exists>D. \<forall>n. \<forall>m \<in> kids d n. depth_of d m \<le> D)"

lemma layeredD:
  assumes "layered d"
  shows "finite (rd_sets d k)" and "0 \<le> depth_of d n"
    and "m \<in> kids d n \<Longrightarrow> rd_hashes d m ''parent'' = Some (Txt n)"
    and "m \<in> kids d n \<Longrightarrow> depth_of d m = depth_of d n + 1"
    and "rd_hashes d m ''parent'' = Some (Txt p) \<Longrightarrow> p \<noteq> [] \<Longrightarrow> m \<in> kids d p"
  using assms unfolding layered_def by blast+

lemma start_layered: "system_start R w \<Longrightarrow> layered (r_data R (w_store w))"
  by (simp add: system_start_def layered_def empty_data_def depth_of_def)

text \<open>A tree keeps its shape under every quiet effect.\<close>

definition same_shape :: "redis_data \<Rightarrow> redis_data \<Rightarrow> bool" where
  "same_shape d d' \<longleftrightarrow> rd_sets d' = rd_sets d
     \<and> (\<forall>n. rd_hashes d' n ''depth'' = rd_hashes d n ''depth'' \<and> rd_hashes d' n ''parent'' = rd_hashes d n ''parent'')"

lemma same_shape_refl: "same_shape d d"
  by (simp add: same_shape_def)

lemma same_shape_trans: "same_shape d d1 \<Longrightarrow> same_shape d1 d2 \<Longrightarrow> same_shape d d2"
  by (simp add: same_shape_def)

lemma same_shape_layered: "same_shape d d' \<Longrightarrow> layered d' = layered d"
  by (simp add: same_shape_def layered_def depth_of_def)

lemma quiet_cmd_shape: "quiet_cmd c \<Longrightarrow> same_shape d (apply_cmd c d)"
  by (cases c) (auto simp: same_shape_def hset_fields_other)

lemma quiet_effects_shape:
  assumes "shared_store R" and "effects quiet_cmd R w w'"
  shows "same_shape (r_data R (w_store w)) (r_data R (w_store w'))"
  using assms(2)
proof (induction rule: rtranclp_induct)
  case (step w1 w2)
  from step.hyps(2) have "same_shape (r_data R (w_store w1)) (r_data R (w_store w2))"
  proof cases
    case (command c)
    then show ?thesis using assms(1) quiet_cmd_shape by simp
  qed (use assms(1) in \<open>auto simp: same_shape_def shared_store.incr_data shared_store.decr_data shared_store.setnx_data\<close>)
  with step.IH show ?case by (rule same_shape_trans)
qed (rule same_shape_refl)

section \<open>Growing the tree\<close>

text \<open>A key under which the tree has no node; one that may become a child of \<open>n\<close>, or is one already.\<close>

definition unused :: "redis_data \<Rightarrow> string \<Rightarrow> bool" where
  "unused d c \<longleftrightarrow> rd_hashes d c ''parent'' = None \<and> kids d c = {}"

definition fresh_child :: "redis_data \<Rightarrow> string \<Rightarrow> string \<Rightarrow> bool" where
  "fresh_child d n c \<longleftrightarrow> c \<noteq> n \<and> (unused d c \<or> c \<in> kids d n)"

lemma same_shape_fresh: "same_shape d d' \<Longrightarrow> fresh_child d' n c = fresh_child d n c"
  by (simp add: same_shape_def fresh_child_def unused_def)

lemma grown_data:
  assumes "d' = apply_cmds [CHSet c fs, CSAdd (node_children_key n) c] d"
    and "hset_fields fs (rd_hashes d c) ''depth'' = Some (Num (i + 1))"
    and "hset_fields fs (rd_hashes d c) ''parent'' = Some (Txt n)"
  shows "rd_sets d' = (rd_sets d)(node_children_key n := insert c (kids d n))"
    and "depth_of d' m = (if m = c then i + 1 else depth_of d m)"
    and "rd_hashes d' m ''parent'' = (if m = c then Some (Txt n) else rd_hashes d m ''parent'')"
  using assms(2,3) by (simp_all add: assms(1) depth_of_def)

lemma grow_layered:
  assumes tree: "layered d" and fresh: "fresh_child d n c" and depth: "depth_of d n = i"
    and sets: "rd_sets d' = (rd_sets d)(node_children_key n := insert c (kids d n))"
    and depths: "\<And>m. depth_of d' m = (if m = c then i + 1 else depth_of d m)"
    and parents: "\<And>m. rd_hashes d' m ''parent'' = (if m = c then Some (Txt n) else rd_hashes d m ''parent'')"
  shows "layered d'"
proof -
  have kids': "kids d' k = (if k = n then insert c (kids d n) else kids d k)" for k using sets by simp
  have cn: "c \<noteq> n" using fresh by (simp add: fresh_child_def)
  have only: "k = n" if "c \<in> kids d k" for k
  proof -
    have "rd_hashes d c ''parent'' = Some (Txt k)" using layeredD(3) [OF tree that] .
    then have "c \<in> kids d n" using fresh by (auto simp: fresh_child_def unused_def)
    from layeredD(3) [OF tree that] layeredD(3) [OF tree this] show "k = n" by simp
  qed
  have below: "depth_of d' c = depth_of d c" if "kids d c \<noteq> {}"
  proof -
    have "c \<in> kids d n" using fresh that by (auto simp: fresh_child_def unused_def)
    from layeredD(4) [OF tree this] depth show ?thesis by (simp add: depths)
  qed
  obtain D where D: "\<forall>k. \<forall>m \<in> kids d k. depth_of d m \<le> D" using tree unfolding layered_def by blast
  show ?thesis
    unfolding layered_def
  proof (intro conjI allI ballI impI)
    show "finite (rd_sets d' k)" for k using layeredD(1) [OF tree] by (simp add: sets)
    show "0 \<le> depth_of d' m" for m using layeredD(2) [OF tree, of n] layeredD(2) [OF tree, of m] depth by (simp add: depths)
    fix k m
    assume m: "m \<in> kids d' k"
    show "rd_hashes d' m ''parent'' = Some (Txt k)"
      using m only [of k] layeredD(3) [OF tree, of m k] by (auto simp: kids' parents split: if_splits)
    show "depth_of d' m = depth_of d' k + 1"
    proof (cases "m = c")
      case True
      then have "k = n" using m only [of k] by (auto simp: kids' split: if_splits)
      then show ?thesis using True cn depth by (simp add: depths)
    next
      case False
      then have old: "m \<in> kids d k" using m by (auto simp: kids' split: if_splits)
      then have "depth_of d' k = depth_of d k" using below by (cases "k = c") (auto simp: depths)
      with False layeredD(4) [OF tree old] show ?thesis by (simp add: depths)
    qed
  next
    fix m p
    assume "rd_hashes d' m ''parent'' = Some (Txt p)" and "p \<noteq> []"
    then show "m \<in> kids d' p" using layeredD(5) [OF tree, of m p] by (auto simp: kids' parents split: if_splits)
  next
    have "\<forall>k. \<forall>m \<in> kids d' k. depth_of d' m \<le> max D (i + 1)"
      using D by (auto simp: kids' depths le_max_iff_disj split: if_splits)
    then show "\<exists>D. \<forall>k. \<forall>m \<in> kids d' k. depth_of d' m \<le> D" by blast
  qed
qed

lemma grow_fresh:
  assumes "fresh_child d n c" and "fresh_child d n c'"
    and sets: "rd_sets d' = (rd_sets d)(node_children_key n := insert c (kids d n))"
    and parents: "\<And>m. rd_hashes d' m ''parent'' = (if m = c then Some (Txt n) else rd_hashes d m ''parent'')"
  shows "fresh_child d' n c'"
  using assms(1,2) by (auto simp: fresh_child_def unused_def sets parents)

section \<open>A worker's iteration\<close>

abbreviation w_data :: "'s redis \<Rightarrow> 's world \<Rightarrow> redis_data" where
  "w_data R w \<equiv> r_data R (w_store w)"

text \<open>A world in which a worker that expands \<open>n\<close>, of depth \<open>i\<close>, may store the candidates \<open>cs\<close>.\<close>

definition growing :: "('s, 'e) worker_env \<Rightarrow> expansion \<Rightarrow> string list \<Rightarrow> 's world \<Rightarrow> bool" where
  "growing env ex cs w \<longleftrightarrow> layered (w_data (we_redis env) w)
     \<and> depth_of (w_data (we_redis env) w) (expansion.ex_node_id ex) = ex_depth ex
     \<and> (\<forall>c \<in> set cs. fresh_child (w_data (we_redis env) w) (expansion.ex_node_id ex) (candidate_id env ex c))"

lemma same_shape_depth: "same_shape d d' \<Longrightarrow> depth_of d' n = depth_of d n"
  by (simp add: same_shape_def depth_of_def)

lemma growing_quiet:
  assumes "shared_store (we_redis env)" and "effects quiet_cmd (we_redis env) w w'" and "growing env ex cs w"
  shows "growing env ex cs w'"
proof -
  note shape = quiet_effects_shape [OF assms(1,2)]
  show ?thesis
    using assms(3) same_shape_layered [OF shape] same_shape_depth [OF shape] same_shape_fresh [OF shape]
    by (simp add: growing_def)
qed

lemma child_fields_links:
  assumes "child_fields ex candidate = Inr fs"
  shows "hset_fields fs h ''depth'' = Some (Num (ex_depth ex + 1))" and "hset_fields fs h ''parent'' = Some (Txt (expansion.ex_node_id ex))"
  using assms by (auto simp: child_fields_def Let_def py_bind_Inr)

lemma growing_stored:
  assumes "shared_store (we_redis env)" and "growing env ex (c # cs) w" and "child_fields ex c = Inr fs"
  shows "growing env ex cs (w_exec (we_redis env) (store_cmds env ex c fs) w)"
proof -
  let ?R = "we_redis env" and ?n = "expansion.ex_node_id ex" and ?c = "candidate_id env ex c"
  let ?d = "w_data ?R w" and ?d' = "w_data ?R (w_exec ?R (store_cmds env ex c fs) w)"
  have d': "?d' = apply_cmds [CHSet ?c fs, CSAdd (node_children_key ?n) ?c] ?d"
    using assms(1) by (simp add: store_cmds_def)
  note grown = grown_data [OF d' child_fields_links [OF assms(3)]]
  have fresh: "fresh_child ?d ?n ?c" and tree: "layered ?d" and depth: "depth_of ?d ?n = ex_depth ex"
    using assms(2) by (simp_all add: growing_def)
  have "layered ?d'" by (rule grow_layered [OF tree fresh depth grown(1)]) (rule grown)+
  moreover have "depth_of ?d' ?n = ex_depth ex" using fresh depth grown(2) [of ?n] by (auto simp: fresh_child_def)
  moreover have "fresh_child ?d' ?n (candidate_id env ex c')" if "c' \<in> set cs" for c'
    by (rule grow_fresh [OF fresh _ grown(1,3)]) (use assms(2) that in \<open>simp add: growing_def\<close>)
  ultimately show ?thesis by (simp add: growing_def)
qed

lemma growing_store_candidate:
  assumes "shared_store (we_redis env)" and "growing env ex (c # cs) w"
  shows "growing env ex cs (outcome_world (store_candidate env ex pruned c w))"
proof (cases "child_fields ex c")
  case (Inl err)
  then show ?thesis using assms(2) by (simp add: store_candidate_def growing_def)
next
  case (Inr fs)
  note stored = growing_stored [OF assms Inr]
  show ?thesis
  proof (cases "candidate_capsule env ex c")
    case (Inl err)
    with Inr stored show ?thesis by (simp add: store_candidate_def Let_def)
  next
    case capsule: (Inr capsule)
    from growing_quiet [OF assms(1) effects_record_and_dispatch stored] show ?thesis
      by (simp add: store_candidate_def Inr capsule Let_def)
  qed
qed

lemma growing_expand_candidates:
  assumes "shared_store (we_redis env)" and "growing env ex cs w"
  shows "layered (w_data (we_redis env) (snd (snd (outcome_world (expand_candidates env ex cs (generated, pruned, w))))))"
  using assms(2)
proof (induction cs arbitrary: generated pruned w)
  case Nil
  then show ?case by (simp add: growing_def)
next
  case (Cons c cs)
  have skip: "growing env ex cs w" using Cons.prems by (simp add: growing_def)
  obtain ok w1 where r: "reserve_candidate_budget (we_redis env) (ex_task_id ex) (ex_plan ex) w = (ok, w1)" by force
  have w1: "growing env ex (c # cs) w1"
    by (rule growing_quiet [OF assms(1) effects_reserve_budget [OF r] Cons.prems])
  note stored = growing_store_candidate [OF assms(1) w1, of pruned]
  have now: "layered (w_data (we_redis env) w)" "layered (w_data (we_redis env) w1)"
    "layered (w_data (we_redis env) (outcome_world (store_candidate env ex pruned c w1)))"
    using Cons.prems w1 stored by (simp_all add: growing_def)
  show ?case
    using Cons.IH [OF skip] Cons.IH [OF stored] now
    by (auto simp: r split: sum.splits bool.splits outcome.splits)
qed

lemma layered_run_expansion:
  assumes "shared_store (we_redis env)" and "growing env ex cs w"
  shows "layered (w_data (we_redis env) (outcome_world (run_expansion env ex cs w)))"
proof -
  obtain generated pruned w1 where out: "outcome_world (expand_candidates env ex cs (0, 0, w)) = (generated, pruned, w1)"
    by (metis surj_pair)
  have w1: "layered (w_data (we_redis env) w1)" using growing_expand_candidates [OF assms, of 0 0] by (simp add: out)
  then have "layered (w_data (we_redis env) (finish_expansion env ex (generated, pruned, w1)))"
    using same_shape_layered [OF quiet_effects_shape [OF assms(1) effects_finish_expansion]] by blast
  with w1 out show ?thesis
    by (cases "expand_candidates env ex cs (0, 0, w)") (auto simp: run_expansion_def)
qed

text \<open>
  The identifiers of the candidates of a node are fresh: none of the texts that the patcher offers
  for its code gets the identifier of another node.
\<close>

definition fresh_candidates :: "('s, 'e) worker_env \<Rightarrow> string \<Rightarrow> string \<Rightarrow> 's world \<Rightarrow> bool" where
  "fresh_candidates env task_id node_id w \<longleftrightarrow>
     (\<forall>code eplan cs. w_hash (we_redis env) w node_id ''code'' = Some (Txt code)
        \<longrightarrow> expansion_candidates env eplan code = Inr cs
        \<longrightarrow> (\<forall>c \<in> set cs. fresh_child (w_data (we_redis env) w) node_id (tree_node_id task_id (we_sha256 env (c @ node_id)))))"

lemma field_depth:
  assumes "typed_hash h" and "field_int h ''depth'' 0 = Inr i"
  shows "i = counter (h ''depth'')"
proof (cases "h ''depth''")
  case (Some v)
  then have "has_type v TInt" using assms(1) by (auto simp: typed_hash_def dest: spec [of _ "''depth''"])
  then show ?thesis using Some assms(2) by (cases v) (auto simp: field_int_def)
qed (use assms(2) in \<open>simp add: field_int_def\<close>)

lemma field_code:
  "typed_hash h \<Longrightarrow> field_str h f = Inr s \<Longrightarrow> h f = Some (Txt s)"
  by (auto simp: field_str_def split: option.splits rtext.splits)

lemma layered_expand:
  assumes "shared_store (we_redis env)" and "typed_world (we_redis env) w" and "layered (w_data (we_redis env) w)"
    and "fresh_candidates env task_id node_id w"
  shows "layered (w_data (we_redis env) (outcome_world (expand env task_id node_id w)))"
proof -
  let ?R = "we_redis env"
  note quiet = same_shape_layered [OF quiet_effects_shape [OF assms(1)]]
  have hash: "typed_hash (w_hash ?R w node_id)" using assms(2) by (simp add: typed_world_def typed_data_def w_hash_def)
  have attempt: "layered (w_data ?R (outcome_world (try_value v w f)))"
    if "\<And>x. v = Inr x \<Longrightarrow> layered (w_data ?R (outcome_world (f x)))" for v and f :: "'c \<Rightarrow> 'a world outcome"
    using that assms(3) by (cases v) simp_all
  have terminal: "layered (w_data ?R (w_exec ?R (terminal_cmds node_id) w1))" if "layered (w_data ?R w1)" for w1
    using quiet [OF effects_cmds [of quiet_cmd "terminal_cmds node_id"]] that by (simp add: terminal_cmds_def typed_fields_def)
  have exhausted: "layered (w_data ?R (mark_budget_exhausted ?R task_id w))"
    using quiet [OF effects_mark_exhausted] assms(3) by blast
  have main: "layered (w_data ?R (outcome_world (expand_with env task_id node_id (w_hash ?R w node_id) root_data i plan eplan w)))"
    if "field_int (w_hash ?R w node_id) ''depth'' 0 = Inr i" for root_data i plan eplan
    unfolding expand_with_def
  proof (intro attempt)
    fix code cs snapshot digest bytes files
    assume code: "field_str (w_hash ?R w node_id) ''code'' = Inr code" and cs: "expansion_candidates env eplan code = Inr cs"
    let ?ex = "\<lparr>ex_task_id = task_id, expansion.ex_node_id = node_id, ex_node = w_hash ?R w node_id, ex_code = code, ex_depth = i,
      ex_plan = plan, ex_target_lines = ep_target_lines eplan, ex_repo_snapshot = snapshot,
      ex_repo_snapshot_digest = digest, ex_repo_snapshot_bytes = bytes, ex_repo_snapshot_files = files\<rparr>"
    have "growing env ?ex cs w"
      using assms(3,4) field_code [OF hash code] cs field_depth [OF hash that]
      by (auto simp: growing_def fresh_candidates_def candidate_id_def depth_of_def w_hash_def)
    then show "layered (w_data ?R (outcome_world (let ex = ?ex in run_expansion env ex cs w)))"
      unfolding Let_def by (rule layered_run_expansion [OF assms(1)])
  qed
  show ?thesis
    unfolding expand_def Let_def
    using assms(3) terminal exhausted main by (auto intro!: attempt)
qed

lemma fresh_candidates_quiet:
  assumes "shared_store (we_redis env)" and "effects quiet_cmd (we_redis env) w w1" and "w_hash (we_redis env) w1 = w_hash (we_redis env) w"
    and "fresh_candidates env task_id node_id w"
  shows "fresh_candidates env task_id node_id w1"
  using assms(4) same_shape_fresh [OF quiet_effects_shape [OF assms(1,2)]] by (simp add: fresh_candidates_def assms(3))

lemma layered_with_lock_expand:
  assumes "shared_store (we_redis env)" and "typed_world (we_redis env) w" and "layered (w_data (we_redis env) w)"
    and "fresh_candidates env task_id node_id w"
  shows "layered (w_data (we_redis env) (outcome_world (with_lock env node_id (expand env task_id node_id) w)))"
proof -
  let ?R = "we_redis env" and ?key = "node_lock_key node_id"
  let ?w1 = "w\<lparr>w_store := snd (r_setnx ?R ?key (Txt (we_worker_id env)) (w_store w))\<rparr>"
  note quiet = same_shape_layered [OF quiet_effects_shape [OF assms(1)]]
  have e1: "effects quiet_cmd ?R w ?w1" by (rule r_into_rtranclp, rule effect.reserved) (simp add: typed_string_def)
  have "w_hash ?R ?w1 = w_hash ?R w" using assms(1) by (simp add: w_hash_def [abs_def] shared_store.setnx_data)
  then have body: "layered (w_data ?R (outcome_world (expand env task_id node_id ?w1)))"
    using quiet [OF e1] assms(3) effects_typed [OF assms(1) e1 assms(2)] fresh_candidates_quiet [OF assms(1) e1 _ assms(4)]
    by (intro layered_expand [OF assms(1)]) blast+
  have release: "layered (w_data ?R (w_exec ?R [CDelete ?key] w2))" if "layered (w_data ?R w2)" for w2
    using quiet [OF effects_cmds [of quiet_cmd "[CDelete ?key]"]] that by simp
  show ?thesis
    using quiet [OF e1] assms(3) body release
    by (cases "expand env task_id node_id ?w1") (auto simp: with_lock_def Let_def split_beta)
qed

text \<open>The same for the node that is selected, and for the visits of one task after the other.\<close>

definition fresh_visit :: "('s, 'e) worker_env \<Rightarrow> string \<Rightarrow> 's world \<Rightarrow> bool" where
  "fresh_visit env task_id w \<longleftrightarrow>
     (\<forall>node_id. distributed_select (we_redis env) (we_budgets env) task_id w = Some (Inr node_id)
        \<longrightarrow> fresh_candidates env task_id node_id w)"

fun fresh_visits :: "('s, 'e) worker_env \<Rightarrow> string list \<Rightarrow> 's world \<Rightarrow> bool" where
  "fresh_visits env [] w \<longleftrightarrow> True"
| "fresh_visits env (t # ts) w \<longleftrightarrow>
     fresh_visit env t w \<and> (\<forall>w'. visit_task env t w = Some (Done w') \<longrightarrow> fresh_visits env ts w')"

lemma layered_selects:
  assumes "layered (w_data R w)"
  shows "\<exists>result. distributed_select R budgets task_id w = Some result"
proof -
  let ?d = "w_data R w"
  obtain D where D: "\<forall>n. \<forall>m \<in> kids ?d n. depth_of ?d m \<le> D" using assms unfolding layered_def by blast
  have "nat (D - depth_of ?d m) < nat (D - depth_of ?d n)" if "m \<in> kids ?d n" for n m
    using D that layeredD(4) [OF assms that] by (fastforce simp: nat_less_iff)
  then have "select_from hash (rd_sets ?d) c n \<noteq> None" for hash c n
    using layeredD(1) [OF assms] by (intro select_from_ends [where rank = "\<lambda>n. nat (D - depth_of ?d n)"]) auto
  then show ?thesis
    unfolding distributed_select_def by (cases "worker_task_plan budgets (rd_hashes ?d (root_node_id task_id))") (auto simp: Let_def)
qed

lemma layered_visit_task:
  assumes "shared_store (we_redis env)" and "typed_world (we_redis env) w" and "layered (w_data (we_redis env) w)"
    and "fresh_visit env task_id w"
  obtains r where "visit_task env task_id w = Some r" and "layered (w_data (we_redis env) (outcome_world r))"
proof -
  obtain result where result: "distributed_select (we_redis env) (we_budgets env) task_id w = Some result"
    using layered_selects [OF assms(3)] by blast
  have locked: "layered (w_data (we_redis env) (outcome_world (with_lock env node_id (expand env task_id node_id) w)))"
    if "result = Inr node_id" for node_id
    using that result assms(4) by (intro layered_with_lock_expand [OF assms(1-3)]) (simp add: fresh_visit_def)
  show thesis
  proof (cases "visit_task env task_id w")
    case None
    with result show ?thesis by (auto simp: visit_task_def Let_def split: if_splits sum.splits)
  next
    case (Some r)
    then have "r = Done w \<or> (\<exists>err. r = Crash err w) \<or> (\<exists>n. result = Inr n \<and> r = with_lock env n (expand env task_id n) w)"
      using result by (auto simp: visit_task_def Let_def split: if_splits sum.splits)
    then have "layered (w_data (we_redis env) (outcome_world r))" using assms(3) locked by auto
    with Some show ?thesis by (rule that)
  qed
qed

lemma layered_visit_tasks:
  assumes "shared_store (we_redis env)" and "typed_world (we_redis env) w" and "layered (w_data (we_redis env) w)"
    and "fresh_visits env ts w"
  obtains r where "visit_tasks env ts w = Some r" and "layered (w_data (we_redis env) (outcome_world r))"
proof -
  have "\<exists>r. visit_tasks env ts w = Some r \<and> layered (w_data (we_redis env) (outcome_world r))"
    using assms(2-4)
  proof (induction ts arbitrary: w)
    case (Cons t ts)
    obtain r where r: "visit_task env t w = Some r" "layered (w_data (we_redis env) (outcome_world r))"
      using layered_visit_task [OF assms(1) Cons.prems(1,2)] Cons.prems(3) by auto
    show ?case
    proof (cases r)
      case (Done w1)
      have "typed_world (we_redis env) w1"
        using effects_typed [OF assms(1) effects_visit_task [OF assms(1) Cons.prems(1) r(1)] Cons.prems(1)] by (simp add: Done)
      with Cons.IH [of w1] Cons.prems(3) r show ?thesis by (simp add: Done)
    qed (use r in simp)
  qed simp
  with that show thesis by blast
qed

section \<open>Every turn returns\<close>

text \<open>
  What the random and hashed identifiers of a turn are relied on for: a new task does not get the
  root of another one, and a candidate does not get the identifier of another node.
\<close>

fun fresh_turn :: "('s, 'k, 'v, 'e, 'g) turn \<Rightarrow> 's world \<Rightarrow> bool" where
  "fresh_turn (Seeding env source test profile repo e) w \<longleftrightarrow>
     (\<forall>inp e1. read_seed_input env source test repo e = (Inr inp, e1)
        \<longrightarrow> unused (w_data (cl_redis env) w) (root_node_id (''task_'' @ take 8 (cl_uuid_hex env e1))))"
| "fresh_turn (Searching env task_id) w \<longleftrightarrow>
     (let w = update_worker_heartbeat (we_redis env) (we_worker_id env) (we_time env)
            (om_worker_heartbeat_ttl_seconds (we_omega env)) w
      in fresh_visits env (task_ids (we_redis env) task_id w) w)"
| "fresh_turn _ w \<longleftrightarrow> True"

fun fresh_run :: "('s, 'k, 'v, 'e, 'g) turn list \<Rightarrow> 's world \<Rightarrow> bool" where
  "fresh_run [] w \<longleftrightarrow> True"
| "fresh_run (t # ts) w \<longleftrightarrow> fresh_turn t w \<and> (\<forall>w'. perform t w = Some w' \<longrightarrow> fresh_run ts w')"

lemma layered_seeding:
  assumes "shared_store (cl_redis env)" and tree: "layered (w_data (cl_redis env) w)"
    and "fresh_turn (Seeding env source test profile repo e) w"
  shows "layered (w_data (cl_redis env) (snd (fix_tests env source test profile repo w e)))"
proof -
  let ?R = "cl_redis env"
  have written: "layered (w_data ?R (outcome_world (write_seed env profile t inp e1 w)))"
    if "unused (w_data ?R w) (root_node_id t)" for t inp e1
  proof -
    let ?d = "w_data ?R w" and ?root = "root_node_id t"
    let ?d' = "apply_cmds [CSAdd TREE_INDEX t, CHSet ?root (root_fields env t inp e1)] ?d"
    have d': "w_data ?R (outcome_world (write_seed env profile t inp e1 w)) = ?d'"
      using assms(1) by (auto simp: write_seed_def Let_def split: sum.splits)
    have root: "hset_fields (root_fields env t inp e1) h ''depth'' = Some (Num 0)"
      "hset_fields (root_fields env t inp e1) h ''parent'' = Some (Txt [])" for h
      using root_fields_seeded [of env t inp e1 h] by (simp_all add: seeded_root_def)
    have kids: "kids ?d' n = kids ?d n" for n by (simp add: tree_index_other)
    have fields: "depth_of ?d' n = (if n = ?root then 0 else depth_of ?d n)"
      "rd_hashes ?d' n ''parent'' = (if n = ?root then Some (Txt []) else rd_hashes ?d n ''parent'')" for n
      by (simp_all add: depth_of_def root)
    have none: "?root \<notin> kids ?d n" "kids ?d ?root = {}" for n
      using that layeredD(3) [OF tree, of ?root n] by (auto simp: unused_def)
    have "finite (rd_sets ?d' k)" for k using layeredD(1) [OF tree] by simp
    moreover have "0 \<le> depth_of ?d' n" for n using layeredD(2) [OF tree] unfolding fields(1) by simp
    moreover have "rd_hashes ?d' m ''parent'' = Some (Txt n) \<and> depth_of ?d' m = depth_of ?d' n + 1" if "m \<in> kids ?d' n" for m n
    proof -
      have m: "m \<in> kids ?d n" "m \<noteq> ?root" "n \<noteq> ?root" using that [unfolded kids] none by auto
      then show ?thesis using layeredD(3,4) [OF tree m(1)] unfolding fields by simp
    qed
    moreover have "m \<in> kids ?d' p" if "rd_hashes ?d' m ''parent'' = Some (Txt p)" "p \<noteq> []" for m p
      using that layeredD(5) [OF tree, of m p] unfolding fields kids by (simp split: if_splits)
    moreover have "\<exists>D. \<forall>n. \<forall>m \<in> kids ?d' n. depth_of ?d' m \<le> D"
    proof -
      obtain D where D: "\<forall>n. \<forall>m \<in> kids ?d n. depth_of ?d m \<le> D" using tree unfolding layered_def by blast
      have "\<forall>n. \<forall>m \<in> kids ?d' n. depth_of ?d' m \<le> D" unfolding kids fields(1) using D none(1) by auto
      then show ?thesis by blast
    qed
    ultimately show ?thesis unfolding d' layered_def by blast
  qed
  obtain v e1 where input: "read_seed_input env source test repo e = (v, e1)" by force
  show ?thesis
  proof (cases v)
    case (Inl err)
    with tree input show ?thesis by (simp add: fix_tests_def)
  next
    case (Inr inp)
    let ?t = "''task_'' @ take 8 (cl_uuid_hex env e1)"
    have "layered (w_data ?R (outcome_world (write_seed env profile ?t inp e1 w)))"
      by (rule written) (use assms(3) input Inr in simp)
    then show ?thesis
      using tree input Inr by (cases "write_seed env profile ?t inp e1 w") (simp_all add: fix_tests_def)
  qed
qed

lemma layered_ancestors:
  assumes "layered (w_data R w)"
  shows "ancestors (w_hash R w) n \<noteq> None"
proof (rule ancestors_returns [where depth = "\<lambda>n. nat (depth_of (w_data R w) n)"])
  fix n p
  assume "w_hash R w n ''parent'' = Some (Txt p)" and "p \<noteq> []"
  then have "n \<in> kids (w_data R w) p" using layeredD(5) [OF assms] by (simp add: w_hash_def)
  from layeredD(4) [OF assms this] layeredD(2) [OF assms, of p]
  show "nat (depth_of (w_data R w) p) < nat (depth_of (w_data R w) n)" by simp
qed

lemma turn_returns:
  assumes "shared_store R" and "typed_world R w" and "layered (w_data R w)" and "served R t w" and "fresh_turn t w"
  shows "\<exists>w'. perform t w = Some w' \<and> layered (w_data R w')"
proof -
  have quiet: "layered (w_data R w')" if "perform t w = Some w'" "\<not> grows_tree t" for w'
    using same_shape_layered [OF quiet_effects_shape [OF assms(1) quiet_turn_effects [OF assms(2,4) that]]] assms(3) by blast
  show ?thesis
  proof (cases t)
    case (Seeding env source test profile repo e)
    with layered_seeding [of env w] assms show ?thesis by (simp add: served_def)
  next
    case (Searching env task_id)
    let ?w1 = "update_worker_heartbeat (we_redis env) (we_worker_id env) (we_time env) (om_worker_heartbeat_ttl_seconds (we_omega env)) w"
    have R: "R = we_redis env" using assms(4) by (simp add: Searching served_def)
    have e: "effects quiet_cmd R w ?w1" unfolding update_worker_heartbeat_def R by (rule effects_cmds) simp
    have "typed_world R ?w1" by (rule effects_typed [OF assms(1) e assms(2)])
    moreover have "layered (w_data R ?w1)" using same_shape_layered [OF quiet_effects_shape [OF assms(1) e]] assms(3) by blast
    ultimately obtain r where "visit_tasks env (task_ids R task_id ?w1) ?w1 = Some r" "layered (w_data R (outcome_world r))"
      using layered_visit_tasks [of env ?w1 "task_ids R task_id ?w1"] assms(1,5) by (auto simp: Searching R Let_def)
    then show ?thesis by (simp add: Searching worker_iteration_def Let_def R)
  next
    case (Remembering env messages)
    have R: "R = me_redis env" using assms(4) by (simp add: Remembering served_def)
    have "memory_loop env messages ([], w) \<noteq> None"
      by (rule memory_loop_returns) (use layered_ancestors [OF assms(3)] in \<open>simp add: R\<close>)
    then have "perform t w \<noteq> None" by (auto simp: Remembering memory_batch_def split: outcome.splits)
    then show ?thesis using quiet by (auto simp: Remembering)
  qed (use quiet in auto)
qed

lemma run_layered:
  assumes "shared_store R"
  shows "run_turns R ts w = Some w' \<Longrightarrow> typed_world R w \<Longrightarrow> layered (w_data R w) \<Longrightarrow> fresh_run ts w
    \<Longrightarrow> typed_world R w' \<and> layered (w_data R w')"
proof (induction ts arbitrary: w)
  case (Cons t ts)
  from Cons.prems(1) obtain w1 where w1: "served R t w" "perform t w = Some w1" "run_turns R ts w1 = Some w'"
    by (auto split: if_splits bind_splits)
  have "layered (w_data R w1)"
    using turn_returns [OF assms Cons.prems(2,3) w1(1)] Cons.prems(4) w1(2) by auto
  moreover have "typed_world R w1"
    by (rule effects_typed [OF assms turn_effects [OF assms Cons.prems(2) w1(1,2)] Cons.prems(2)])
  ultimately show ?case using Cons.IH [OF w1(3)] Cons.prems(4) w1(2) by simp
qed simp

text \<open>
  C35. Nothing in the system hangs. Whatever turns the components have taken from an empty store,
  the tree is layered: a child lies one level below its parent, a parent link has its child link,
  and some level bounds all nodes. So the selection returns for every task, and every further turn
  returns, the loops of the worker and of the memory daemon included. Of the identifiers it is
  assumed that a new task does not get an identifier in use, and a candidate none of another node
  (one of the node's own children is allowed, which a repeated expansion meets).
\<close>

theorem every_turn_returns:
  assumes "shared_store R" and "system_start R w0" and "run_turns R ts w0 = Some w" and "fresh_run ts w0"
  shows "layered (r_data R (w_store w))
    \<and> (\<forall>budgets task_id. \<exists>result. distributed_select R budgets task_id w = Some result)
    \<and> (\<forall>t. served R t w \<longrightarrow> fresh_turn t w \<longrightarrow> (\<exists>w'. perform t w = Some w'))"
proof -
  have w: "typed_world R w" "layered (w_data R w)"
    using run_layered [OF assms(1,3) start_typed start_layered assms(4)] assms(2) by blast+
  then show ?thesis
    using layered_selects [OF w(2)] turn_returns [OF assms(1) w] by blast
qed

text \<open>A worker whose parser refuses every source; its solver is never asked.\<close>

definition idle_z3 :: "nat z3_api" where
  "idle_z3 = \<lparr>z_int = length, z_bool_val = of_bool, z_int_val = nat, z_neg = Some, z_add = (\<lambda>a b. Some (a + b)),
     z_sub = (\<lambda>a b. None), z_lt = (\<lambda>a b. None), z_le = (\<lambda>a b. None), z_gt = (\<lambda>a b. None), z_ge = (\<lambda>a b. None),
     z_eq = (\<lambda>a b. None), z_ne = (\<lambda>a b. None), z_unsat = (\<lambda>e. False)\<rparr>"

definition sample_searcher :: "(redis_data, nat) worker_env" where
  "sample_searcher = \<lparr>we_redis = mem_redis, we_worker_id = ''worker_1'', we_omega = te_settings sample_telemetry,
     we_budgets = sample_budgets, we_parse = (\<lambda>code. Inl SyntaxError), we_parse_eval = (\<lambda>code. Inl SyntaxError),
     we_set_order = id, we_z3 = idle_z3, we_sha256 = (\<lambda>s. replicate 64 CHR ''a''), we_md5_prefix = (\<lambda>s. 7),
     we_run_id = (\<lambda>s. ''run_1''), we_time = 0, we_generation_seconds = 0\<rparr>"

lemma sample_search_fresh: "fresh_visits sample_searcher ts w"
proof -
  have "expansion_candidates sample_searcher eplan code = Inl SyntaxError" for eplan code
    by (simp add: expansion_candidates_def generate_targeted_patches_def sample_searcher_def)
  then have "fresh_visit sample_searcher t w" for t w by (simp add: fresh_visit_def fresh_candidates_def)
  then show ?thesis by (induction ts arbitrary: w) auto
qed

lemma sample_run_fresh: "fresh_run sample_turns empty_world"
proof -
  have "w_data mem_redis empty_world = empty_data" by (simp add: mem_redis_def empty_world_def)
  then have "unused (w_data mem_redis empty_world) k" for k by (simp add: unused_def empty_data_def)
  then show ?thesis by (simp add: sample_turns_def sample_cli_def)
qed

theorem every_turn_returns_witness:
  "\<exists>w w1 result. run_turns mem_redis sample_turns empty_world = Some w
     \<and> perform (Searching sample_searcher None :: (redis_data, unit, unit, nat, unit) turn) w = Some w1
     \<and> distributed_select mem_redis sample_budgets ''t'' w = Some result"
proof -
  let ?t = "Searching sample_searcher None :: (redis_data, unit, unit, nat, unit) turn"
  obtain w where run: "run_turns mem_redis sample_turns empty_world = Some w" using sample_turns_run by blast
  have "served mem_redis ?t w" by (simp add: served_def sample_searcher_def)
  moreover have "fresh_turn ?t w" by (simp add: Let_def sample_search_fresh)
  ultimately have "\<exists>w1. perform ?t w = Some w1" "\<exists>result. distributed_select mem_redis sample_budgets ''t'' w = Some result"
    using every_turn_returns [OF mem.shared_store_axioms sample_turns_start run sample_run_fresh] by blast+
  with run show ?thesis by blast
qed

end
