(* ===== verification/TelemetryProps.thy ===== *)
theory TelemetryProps
  imports Telemetry ExecutionProps
begin

text \<open>
  The aggregates of the dashboard: the timings that the dispatcher and the executor record are the
  ones the queries read, and an average lies between the readings it is taken of.
\<close>

section \<open>The funnel's stages\<close>

lemma execute_funnel_stages:
  "execute_funnel env target test cwd e = (Inr r, e') \<Longrightarrow> distinct (map fst (fr_stages r))"
  by (auto simp: execute_funnel_def funnel_stage_def typecheck_stage_def targeted_stage_def full_suite_stage_def
      funnel_fail_def Let_def split: prod.splits sum.splits if_splits)

section \<open>Reading a recorded row\<close>

lemma map_of_sort_fields:
  assumes "distinct (dict_keys d)"
  shows "map_of (sort_fields d) k = map_option js_sort (map_of d k)"
proof -
  let ?e = "map (\<lambda>(k, v). (k, js_sort v)) d"
  have keys: "dict_keys ?e = dict_keys d" by (induction d) auto
  have "map_of (sort_fields d) = map_of ?e"
    unfolding sort_fields_def by (rule map_of_sort_key_fst) (simp only: keys assms)
  then show ?thesis by (simp add: map_of_map)
qed

lemma jsonb_get_sorted:
  "distinct (dict_keys d) \<Longrightarrow> jsonb_get (Some (js_sort (JObj d))) k = map_option js_sort (map_of d k)"
  unfolding js_sort_JObj by (simp add: map_of_sort_fields)

text \<open>The result of an execution as the memory daemon decodes it from the stream.\<close>

definition published :: "('k, 'v, 's, 'e) executor_env \<Rightarrow> verification_pack \<Rightarrow> verification_pack" where
  "published env pack = pack_canon (sign_pack (ex_crypto env) pack (ex_signing_key env))"

lemma published_is_decoded:
  "message_pack (Some (Doc (pack_to_json (sign_pack (ex_crypto env) pack (ex_signing_key env))))) = Inr (published env pack)"
  by (simp add: message_pack_def pack_decode published_def)

text \<open>The timing entries of the metadata that the executor's result carries.\<close>

lemma published_meta:
  assumes "execution_pack env capsule result runtime uri (pack_meta capsule m a (result_meta result)) = Inr pack"
  shows "map_of (vp_meta (published env pack)) ''dispatch'' = None"
    and "map_of (vp_meta (published env pack)) ''simulator''
      = Some (js_sort (JObj [(''materialize_ms'', JFloat m), (''artifact_write_ms'', JFloat a)]))"
    and "map_of (vp_meta (published env pack)) ''funnel'' = Some (js_sort (result_meta result))"
    and "vp_runtime (published env pack) = runtime" and "vp_run_id (published env pack) = tc_run_id capsule"
    and "vp_success (published env pack) = vp_success pack" and "vp_tests_failed (published env pack) = vp_tests_failed pack"
proof -
  from assms have pack: "vp_meta pack = pack_meta capsule m a (result_meta result)" "vp_runtime pack = runtime" "vp_run_id pack = tc_run_id capsule"
    by (auto simp: execution_pack_def py_bind_Inr)
  have "map_of (vp_meta (published env pack)) k = map_option js_sort (map_of (pack_meta capsule m a (result_meta result)) k)" for k
    by (simp add: published_def pack_canon_def sign_pack_def Let_def pack, rule map_of_sort_fields) (simp add: pack_meta_def)
  then show "map_of (vp_meta (published env pack)) ''dispatch'' = None"
    "map_of (vp_meta (published env pack)) ''simulator''
      = Some (js_sort (JObj [(''materialize_ms'', JFloat m), (''artifact_write_ms'', JFloat a)]))"
    "map_of (vp_meta (published env pack)) ''funnel'' = Some (js_sort (result_meta result))"
    by (simp_all add: pack_meta_def del: js_sort.simps)
qed (use assms in \<open>auto simp: execution_pack_def py_bind_Inr published_def pack_canon_def sign_pack_def Let_def\<close>)

section \<open>The property\<close>

text \<open>The readings of a row, whatever else it holds.\<close>

lemma row_readings:
  assumes meta: "xr_meta row ''dispatch'' = dispatch_meta denv request ''dispatch''"
      "xr_meta row ''simulator'' = map_of (vp_meta p) ''simulator''" "xr_meta row ''funnel'' = map_of (vp_meta p) ''funnel''"
    and p: "p = published env pack"
    and pack: "execution_pack env capsule (funnel_json r) runtime uri (pack_meta capsule m a (result_meta (funnel_json r))) = Inr pack"
    and stages: "distinct (map fst (fr_stages r))"
  shows "execution_timing pg ''dispatch'' ''queue_wait_ms'' row = Inr (Some (max 0 ((di_now denv - er_created_at request) * 1000)))
    \<and> execution_timing pg ''simulator'' ''materialize_ms'' row = Inr (Some m)
    \<and> execution_timing pg ''simulator'' ''artifact_write_ms'' row = Inr (Some a)
    \<and> full_suite_timing pg row = Inr (map_of (fr_stages r) ''full_suite_ms'')"
proof -
  note pm = published_meta [OF pack]
  have queue: "jsonb_get (xr_meta row ''dispatch'') ''queue_wait_ms'' = Some (JFloat (max 0 ((di_now denv - er_created_at request) * 1000)))"
    unfolding meta by (simp add: dispatch_meta_def)
  have sim: "jsonb_get (xr_meta row ''simulator'') k = map_option js_sort (map_of [(''materialize_ms'', JFloat m), (''artifact_write_ms'', JFloat a)] k)" for k
    unfolding meta p pm(2) by (rule jsonb_get_sorted) simp
  let ?stages = "map (\<lambda>(name, ms). (name, JFloat ms)) (fr_stages r)"
  have keys: "dict_keys ?stages = map fst (fr_stages r)" by (induction "fr_stages r") auto
  have "result_meta (funnel_json r) = JObj [(''stages'', JObj ?stages), (''failed_stage'', js_of_opt_str (fr_failed_stage r)),
      (''full_suite_attempted'', JBool (fr_full_suite_attempted r))]"
    by (simp add: result_meta_def funnel_json_def)
  then have "jsonb_get (xr_meta row ''funnel'') ''stages'' = Some (js_sort (JObj ?stages))"
    unfolding meta p pm(3) by (simp only:) (subst jsonb_get_sorted, simp_all del: js_sort.simps)
  then have "jsonb_get (jsonb_get (xr_meta row ''funnel'') ''stages'') ''full_suite_ms'' = map_option js_sort (map_of ?stages ''full_suite_ms'')"
    by (simp only:) (rule jsonb_get_sorted, simp only: keys stages)
  moreover have "map_of ?stages k = map_option JFloat (map_of (fr_stages r) k)" for k
    by (simp add: map_of_map)
  ultimately show ?thesis
    using queue sim by (cases "map_of (fr_stages r) ''full_suite_ms''") (simp_all add: execution_timing_def full_suite_timing_def)
qed

text \<open>What a delivery and a completion make of the row.\<close>

lemma delivered_row:
  assumes "map_of (db_executions (w_db w)) (er_run_id request) = Some row"
  shows "\<exists>row'. map_of (db_executions (w_db (mark_delivered denv request w))) (er_run_id request) = Some row'
    \<and> xr_meta row' = xr_meta row ++ dispatch_meta denv request \<and> xr_status row' = ''running'' \<and> xr_runtime row' = xr_runtime row"
proof -
  have "db_executions (snd (update_candidate_status k s x db)) = db_executions db" for k s x db
    by (simp add: db_defs)
  then show ?thesis
    using assms by (simp add: mark_delivered_def merge_execution_meta_def mark_execution_started_def map_of_tbl_update)
qed

lemma completed_row:
  assumes "map_of (db_executions db) (vp_run_id p) = Some row"
  shows "\<exists>row'. map_of (db_executions (complete_execution p t db)) (vp_run_id p) = Some row'
    \<and> xr_meta row' = xr_meta row ++ map_of (vp_meta p) \<and> xr_runtime row' = Some (vp_runtime p)
    \<and> xr_status row' = (if vp_success p \<and> vp_tests_failed p = 0 then ''succeeded'' else ''failed'')"
  using assms by (simp add: complete_execution_def map_of_tbl_update)

text \<open>
  C29. The dashboard reads what the daemons measured. The executor's result, decoded from the stream,
  completes the execution and the dispatcher notes the delivery, in either order: the queries read
  back the wait in the queue, the layout and evidence times, the time of the full suite (none if it
  did not run) and the runtime. Only the status depends on the order: a delivery noted last leaves
  the finished execution running.
\<close>

theorem recorded_timings_are_read_back:
  assumes "execute_funnel (ex_funnel env) target test cwd e = (Inr r, e')"
    and "execution_pack env capsule (funnel_json r) runtime uri (pack_meta capsule m a (result_meta (funnel_json r))) = Inr pack"
    and "tc_run_id capsule = er_run_id request"
    and "map_of (db_executions (w_db w)) (er_run_id request) = Some row0"
    and "db = (if delivery_first then complete_execution (published env pack) t (w_db (mark_delivered denv request w))
               else w_db (mark_delivered denv request (w\<lparr>w_db := complete_execution (published env pack) t (w_db w)\<rparr>)))"
  shows "\<exists>row. map_of (db_executions db) (er_run_id request) = Some row
    \<and> execution_timing pg ''dispatch'' ''queue_wait_ms'' row = Inr (Some (max 0 ((di_now denv - er_created_at request) * 1000)))
    \<and> execution_timing pg ''simulator'' ''materialize_ms'' row = Inr (Some m)
    \<and> execution_timing pg ''simulator'' ''artifact_write_ms'' row = Inr (Some a)
    \<and> full_suite_timing pg row = Inr (map_of (fr_stages r) ''full_suite_ms'')
    \<and> xr_runtime row = Some runtime
    \<and> xr_status row = (if \<not> delivery_first then ''running''
        else if vp_success pack \<and> vp_tests_failed pack = 0 then ''succeeded'' else ''failed'')"
proof -
  let ?p = "published env pack"
  note pm = published_meta [OF assms(2)]
  obtain row where row: "map_of (db_executions db) (er_run_id request) = Some row"
    and meta: "xr_meta row = (if delivery_first then xr_meta row0 ++ dispatch_meta denv request ++ map_of (vp_meta ?p)
        else xr_meta row0 ++ map_of (vp_meta ?p) ++ dispatch_meta denv request)"
    and runtime: "xr_runtime row = Some runtime"
    and status: "xr_status row = (if \<not> delivery_first then ''running''
        else if vp_success pack \<and> vp_tests_failed pack = 0 then ''succeeded'' else ''failed'')"
  proof (cases delivery_first)
    case True
    from delivered_row [OF assms(4)] obtain row1 where
      r1: "map_of (db_executions (w_db (mark_delivered denv request w))) (er_run_id request) = Some row1"
      and "xr_meta row1 = xr_meta row0 ++ dispatch_meta denv request" by blast
    then show thesis
      using that completed_row [of "w_db (mark_delivered denv request w)" ?p row1 t] True assms(3,5) pm(4-7) by auto
  next
    case False
    from completed_row [of "w_db w" ?p row0 t] assms(3,4) pm(4,5) obtain row1 where
      r1: "map_of (db_executions (complete_execution ?p t (w_db w))) (er_run_id request) = Some row1"
      and "xr_meta row1 = xr_meta row0 ++ map_of (vp_meta ?p)" "xr_runtime row1 = Some runtime" by auto
    then show thesis
      using that delivered_row [of "w\<lparr>w_db := complete_execution ?p t (w_db w)\<rparr>" request row1 denv] False assms(5) by auto
  qed
  have other: "dispatch_meta denv request ''simulator'' = None" "dispatch_meta denv request ''funnel'' = None"
    "dispatch_meta denv request ''dispatch'' \<noteq> None"
    by (simp_all add: dispatch_meta_def)
  have "xr_meta row ''dispatch'' = dispatch_meta denv request ''dispatch''"
    "xr_meta row ''simulator'' = map_of (vp_meta ?p) ''simulator''" "xr_meta row ''funnel'' = map_of (vp_meta ?p) ''funnel''"
    using other pm(1-3) by (auto simp: meta map_add_def simp del: js_sort.simps split: option.splits)
  note row_readings [OF this refl assms(2) execute_funnel_stages [OF assms(1)]]
  then show ?thesis using row runtime status by blast
qed

definition sample_row :: execution_row where
  "sample_row =
     \<lparr>xr_candidate_id = ''c1'', xr_task_id = ''t'', xr_status = ''queued'', xr_executor_core = None, xr_executor_host = None,
      xr_executor_port = None, xr_executor_id = None, xr_hardware_isolated = None, xr_started_at = None, xr_finished_at = None,
      xr_success = None, xr_runtime = None, xr_tests_passed = None, xr_tests_failed = None, xr_artifact_uri = None,
      xr_error_signature = None, xr_meta = [''worker_id'' \<mapsto> JStr ''w'']\<rparr>"

theorem recorded_timings_are_read_back_witness:
  "\<exists>p row. map_of (db_executions (w_db (mark_delivered sample_dispatcher sample_request
        (empty_world\<lparr>w_db := complete_execution p 9 (empty_db\<lparr>db_executions := [(''run'', sample_row)]\<rparr>)\<rparr>)))) ''run'' = Some row
     \<and> execution_timing (\<lambda>s. None) ''simulator'' ''materialize_ms'' row = Inr (Some 5) \<and> xr_status row = ''running''"
proof -
  let ?w = "empty_world\<lparr>w_db := empty_db\<lparr>db_executions := [(''run'', sample_row)]\<rparr>\<rparr>"
  let ?e = "\<lparr>mc_files = [[''tmp'', ''repo'', ''s.py''] \<mapsto> ''new''], mc_clock = 0\<rparr>"
  have "case fst (execute_funnel (ex_funnel sample_executor) ''s.py'' ''t.py'' (Some ''/w'') ?e) of Inl e \<Rightarrow> False | Inr r \<Rightarrow> fr_error r = None"
    by code_simp
  then obtain r e' where funnel: "execute_funnel (ex_funnel sample_executor) ''s.py'' ''t.py'' (Some ''/w'') ?e = (Inr r, e')"
    and "fr_error r = None"
    by (cases "execute_funnel (ex_funnel sample_executor) ''s.py'' ''t.py'' (Some ''/w'') ?e") (auto split: sum.splits)
  then obtain pack where pack: "execution_pack sample_executor sample_capsule (funnel_json r) 7 ''u''
      (pack_meta sample_capsule 5 6 (result_meta (funnel_json r))) = Inr pack"
    by (simp add: execution_pack_def funnel_json_def result_success_def result_count_def result_error_def)
  have ids: "tc_run_id sample_capsule = er_run_id sample_request" "er_run_id sample_request = ''run''"
    by (simp_all add: sample_capsule_def sample_request_def)
  have row0: "map_of (db_executions (w_db ?w)) (er_run_id sample_request) = Some sample_row" by (simp add: ids)
  show ?thesis
    using recorded_timings_are_read_back [OF funnel pack ids(1) row0, of _ False 9 sample_dispatcher "\<lambda>s. None", simplified, OF refl]
    unfolding ids by blast
qed

end
