(* ===== verification/Delivery.thy ===== *)
theory Delivery
  imports System
begin

text \<open>
  How the daemons get their messages: each joins a consumer group of its stream when it starts
  (\<open>ensure_stream_group\<close> in \<open>runtime.py\<close>) and reads new entries of the group in batches
  (\<open>xreadgroup\<close> in the \<open>run\<close> methods). The groups are part of the Redis server: a parameter, with the
  position of a group, the creation of one and the reading of new entries.
\<close>

section \<open>Consumer groups\<close>

record 's group_api =
  ga_position :: "'s \<Rightarrow> string \<Rightarrow> string \<Rightarrow> nat option"
  ga_create :: "string \<Rightarrow> string \<Rightarrow> 's \<Rightarrow> string option \<times> 's"
  ga_read :: "string \<Rightarrow> string \<Rightarrow> nat \<Rightarrow> 's \<Rightarrow> (string \<times> rtext option) list \<times> 's"
  ga_entry_id :: "nat \<Rightarrow> string"

text \<open>A \<open>ResponseError\<close> with the text \<open>BUSYGROUP\<close> in it says that the group exists.\<close>

definition ensure_stream_group :: "'s group_api \<Rightarrow> string \<Rightarrow> string \<Rightarrow> 's \<Rightarrow> string option \<times> 's" where
  "ensure_stream_group G stream name s =
     (case ga_create G stream name s of
        (None, s) \<Rightarrow> (None, s)
      | (Some msg, s) \<Rightarrow> (if str_find msg ''BUSYGROUP'' = None then Some msg else None, s))"

section \<open>The daemons that read a stream\<close>

datatype reader = DispatcherReader | GateReader | MemoryReader | MergerReader

text \<open>The stream, the group and the size of a batch in each daemon's calls.\<close>

definition dispatcher_subscription :: "string \<times> string \<times> nat" where
  "dispatcher_subscription = (STREAM_DISPATCH, ''dispatch_group'', 50)"

definition gate_subscription :: "string \<times> string \<times> nat" where
  "gate_subscription = (STREAM_RESULTS, ''policy_group'', 50)"

definition memory_subscription :: "string \<times> string \<times> nat" where
  "memory_subscription = (STREAM_RESULTS, ''memory_group'', 50)"

definition merger_subscription :: "string \<times> string \<times> nat" where
  "merger_subscription = (STREAM_ACCEPTED, ''merger_group'', 10)"

fun subscription :: "reader \<Rightarrow> string \<times> string \<times> nat" where
  "subscription DispatcherReader = dispatcher_subscription"
| "subscription GateReader = gate_subscription"
| "subscription MemoryReader = memory_subscription"
| "subscription MergerReader = merger_subscription"

definition reader_stream :: "reader \<Rightarrow> string" where
  "reader_stream r = fst (subscription r)"

definition reader_group :: "reader \<Rightarrow> string" where
  "reader_group r = fst (snd (subscription r))"

definition reader_count :: "reader \<Rightarrow> nat" where
  "reader_count r = snd (snd (subscription r))"

lemma reader_simps [simp]:
  "reader_stream DispatcherReader = STREAM_DISPATCH" "reader_stream GateReader = STREAM_RESULTS"
  "reader_stream MemoryReader = STREAM_RESULTS" "reader_stream MergerReader = STREAM_ACCEPTED"
  "reader_group DispatcherReader = ''dispatch_group''" "reader_group GateReader = ''policy_group''"
  "reader_group MemoryReader = ''memory_group''" "reader_group MergerReader = ''merger_group''"
  "reader_count DispatcherReader = 50" "reader_count GateReader = 50" "reader_count MemoryReader = 50" "reader_count MergerReader = 10"
  by (simp_all add: reader_stream_def reader_group_def reader_count_def dispatcher_subscription_def gate_subscription_def
      memory_subscription_def merger_subscription_def)

text \<open>The groups of all the daemons, as they join them when they start.\<close>

definition readers :: "reader list" where
  "readers = [DispatcherReader, GateReader, MemoryReader, MergerReader]"

fun join_groups :: "'s group_api \<Rightarrow> reader list \<Rightarrow> 's \<Rightarrow> string option \<times> 's" where
  "join_groups G [] s = (None, s)"
| "join_groups G (r # rs) s =
     (case ensure_stream_group G (reader_stream r) (reader_group r) s of
        (Some msg, s) \<Rightarrow> (Some msg, s)
      | (None, s) \<Rightarrow> join_groups G rs s)"

section \<open>Turns on what was read\<close>

fun turn_reader :: "('s, 'k, 'v, 'e, 'g) turn \<Rightarrow> reader option" where
  "turn_reader (Dispatching env ms) = Some DispatcherReader"
| "turn_reader (Gating env ms) = Some GateReader"
| "turn_reader (Remembering env ms) = Some MemoryReader"
| "turn_reader (Merging env ms g) = Some MergerReader"
| "turn_reader _ = None"

fun hand_out :: "(string \<times> rtext option) list \<Rightarrow> ('s, 'k, 'v, 'e, 'g) turn \<Rightarrow> ('s, 'k, 'v, 'e, 'g) turn" where
  "hand_out ms (Dispatching env _) = Dispatching env ms"
| "hand_out ms (Gating env _) = Gating env ms"
| "hand_out ms (Remembering env _) = Remembering env ms"
| "hand_out ms (Merging env _ g) = Merging env ms g"
| "hand_out ms t = t"

text \<open>A round of a daemon's loop: nothing new and it goes round, else the batch. Others take their turn.\<close>

definition take_turn ::
    "'s group_api \<Rightarrow> ('s, 'k, 'v, 'e, 'g) turn \<Rightarrow> 's world \<Rightarrow> ((string \<times> rtext option) list \<times> 's world) option" where
  "take_turn G t w =
     (case turn_reader t of
        None \<Rightarrow> map_option (\<lambda>w. ([], w)) (perform t w)
      | Some r \<Rightarrow>
          (case ga_read G (reader_stream r) (reader_group r) (reader_count r) (w_store w) of
             (messages, s) \<Rightarrow>
               let w = w\<lparr>w_store := s\<rparr>
               in if messages = [] then Some ([], w) else map_option (\<lambda>w. (messages, w)) (perform (hand_out messages t) w)))"

text \<open>A run of the system on the store \<open>R\<close>, with what each reader was handed, in order.\<close>

type_synonym handed_log = "reader \<Rightarrow> (string \<times> rtext option) list"

definition log_batch :: "reader option \<Rightarrow> (string \<times> rtext option) list \<Rightarrow> handed_log \<Rightarrow> handed_log" where
  "log_batch r messages handed = (case r of None \<Rightarrow> handed | Some r \<Rightarrow> handed(r := handed r @ messages))"

fun run_daemons ::
    "'s redis \<Rightarrow> 's group_api \<Rightarrow> ('s, 'k, 'v, 'e, 'g) turn list \<Rightarrow> handed_log \<times> 's world \<Rightarrow> (handed_log \<times> 's world) option" where
  "run_daemons R G [] st = Some st"
| "run_daemons R G (t # ts) (handed, w) =
     (if turn_redis t = R
      then Option.bind (take_turn G t w) (\<lambda>(messages, w). run_daemons R G ts (log_batch (turn_reader t) messages handed, w))
      else None)"

end
