(* ===== verification/DeliveryProps.thy ===== *)
theory DeliveryProps
  imports Delivery SystemProps ExecutionProps
begin

text \<open>
  What the consumer groups give: every daemon is handed the entries of its stream in order and each
  of them once, so the entries of a batch that crashed are not handed out again.
\<close>

text \<open>What the readers have been handed: the first entries of their streams, as far as their groups stand.\<close>

definition handed_so_far :: "'s redis \<Rightarrow> 's group_api \<Rightarrow> handed_log \<Rightarrow> 's world \<Rightarrow> bool" where
  "handed_so_far R G handed w \<longleftrightarrow> (\<forall>r. \<exists>c. ga_position G (w_store w) (reader_stream r) (reader_group r) = Some c
     \<and> c \<le> length (rd_streams (r_data R (w_store w)) (reader_stream r))
     \<and> handed r = map (\<lambda>i. (ga_entry_id G i, Some (rd_streams (r_data R (w_store w)) (reader_stream r) ! i))) [0..<c])"

section \<open>The groups of the server\<close>

text \<open>
  What is relied on: a new group stands before the first entry, an existing one is reported as busy
  and stays, a read hands out the entries after the group's position and moves it behind them, and
  nothing else moves a group.
\<close>

locale stream_groups = shared_store R for R :: "'s redis" +
  fixes G :: "'s group_api"
  assumes create_new: "ga_position G s k g = None \<Longrightarrow> \<exists>s'. ga_create G k g s = (None, s') \<and> r_data R s' = r_data R s
        \<and> ga_position G s' = (\<lambda>k' g'. if k' = k \<and> g' = g then Some 0 else ga_position G s k' g')"
    and create_busy: "ga_position G s k g \<noteq> None \<Longrightarrow> \<exists>msg. ga_create G k g s = (Some msg, s) \<and> str_find msg ''BUSYGROUP'' \<noteq> None"
    and read_new: "ga_position G s k g = Some c \<Longrightarrow> ga_read G k g n s = (ms, s') \<Longrightarrow>
        ms = map (\<lambda>i. (ga_entry_id G i, Some (rd_streams (r_data R s) k ! i))) [c..<min (c + n) (length (rd_streams (r_data R s) k))]
        \<and> r_data R s' = r_data R s
        \<and> ga_position G s' = (\<lambda>k' g'. if k' = k \<and> g' = g then Some (c + length ms) else ga_position G s k' g')"
    and exec_keeps: "ga_position G (r_exec R cmd s) = ga_position G s"
    and incr_keeps: "ga_position G (snd (r_incr R k s)) = ga_position G s"
    and decr_keeps: "ga_position G (snd (r_decr R k s)) = ga_position G s"
    and setnx_keeps: "ga_position G (snd (r_setnx R k v s)) = ga_position G s"
begin

text \<open>What any effect leaves as it is: the groups, and the entries already in a stream.\<close>

lemma effect_keeps:
  assumes "effect P R w w'"
  shows "ga_position G (w_store w') = ga_position G (w_store w)
    \<and> (\<exists>vs. rd_streams (r_data R (w_store w')) k = rd_streams (r_data R (w_store w)) k @ vs)"
  using assms
proof cases
  case (command c)
  then show ?thesis by (cases c) (auto simp: w_exec_def exec_keeps exec)
qed (auto simp: incr_keeps decr_keeps setnx_keeps incr_data decr_data setnx_data)

lemma effects_keep:
  assumes "effects P R w w'"
  shows "ga_position G (w_store w') = ga_position G (w_store w)
    \<and> (\<exists>vs. rd_streams (r_data R (w_store w')) k = rd_streams (r_data R (w_store w)) k @ vs)"
  using assms
proof induction
  case (step w1 w2)
  then show ?case using effect_keeps [OF step(2), of k] by auto
qed simp

text \<open>Joining: every group of the list exists afterwards, new ones before the first entry.\<close>

lemma ensure_group:
  "\<exists>s'. ensure_stream_group G k g s = (None, s') \<and> r_data R s' = r_data R s
    \<and> ga_position G s' = (\<lambda>k' g'. if k' = k \<and> g' = g \<and> ga_position G s k g = None then Some 0 else ga_position G s k' g')"
proof (cases "ga_position G s k g")
  case None
  from create_new [OF this] show ?thesis by (auto simp: ensure_stream_group_def None)
next
  case (Some c)
  then have "ga_position G s k g \<noteq> None" by simp
  from create_busy [OF this] show ?thesis by (auto simp: ensure_stream_group_def Some fun_eq_iff)
qed

lemma join_groups_joins:
  "\<exists>s'. join_groups G rs s = (None, s') \<and> r_data R s' = r_data R s
    \<and> (\<forall>k g. ga_position G s' k g
        = (if ga_position G s k g = None \<and> (\<exists>r \<in> set rs. k = reader_stream r \<and> g = reader_group r) then Some 0 else ga_position G s k g))"
proof (induction rs arbitrary: s)
  case (Cons r rs)
  obtain s1 where s1: "ensure_stream_group G (reader_stream r) (reader_group r) s = (None, s1)" "r_data R s1 = r_data R s"
    "ga_position G s1 = (\<lambda>k' g'. if k' = reader_stream r \<and> g' = reader_group r \<and> ga_position G s (reader_stream r) (reader_group r) = None
       then Some 0 else ga_position G s k' g')"
    using ensure_group by blast
  obtain s' where "join_groups G rs s1 = (None, s')" "r_data R s' = r_data R s1"
    "\<forall>k g. ga_position G s' k g
        = (if ga_position G s1 k g = None \<and> (\<exists>r \<in> set rs. k = reader_stream r \<and> g = reader_group r) then Some 0 else ga_position G s1 k g)"
    using Cons.IH by blast
  then show ?case using s1 by auto
qed simp

lemma handed_mono:
  assumes "effects P R w w'" and "handed_so_far R G handed w"
  shows "handed_so_far R G handed w'"
  unfolding handed_so_far_def
proof
  fix r
  obtain vs where vs: "rd_streams (r_data R (w_store w')) (reader_stream r) = rd_streams (r_data R (w_store w)) (reader_stream r) @ vs"
    and pos: "ga_position G (w_store w') = ga_position G (w_store w)"
    using effects_keep [OF assms(1)] by blast
  obtain c where "ga_position G (w_store w) (reader_stream r) (reader_group r) = Some c"
    "c \<le> length (rd_streams (r_data R (w_store w)) (reader_stream r))"
    "handed r = map (\<lambda>i. (ga_entry_id G i, Some (rd_streams (r_data R (w_store w)) (reader_stream r) ! i))) [0..<c]"
    using assms(2) unfolding handed_so_far_def by blast
  then show "\<exists>c. ga_position G (w_store w') (reader_stream r) (reader_group r) = Some c
     \<and> c \<le> length (rd_streams (r_data R (w_store w')) (reader_stream r))
     \<and> handed r = map (\<lambda>i. (ga_entry_id G i, Some (rd_streams (r_data R (w_store w')) (reader_stream r) ! i))) [0..<c]"
    by (auto simp: vs pos nth_append)
qed

lemma reader_inject: "reader_stream r = reader_stream r' \<and> reader_group r = reader_group r' \<longleftrightarrow> r = r'"
  by (cases r; cases r') simp_all

lemma read_handed:
  assumes "handed_so_far R G handed w" and read: "ga_read G (reader_stream r) (reader_group r) n (w_store w) = (ms, s)"
  shows "handed_so_far R G (handed(r := handed r @ ms)) (w\<lparr>w_store := s\<rparr>)
    \<and> r_data R s = r_data R (w_store w) \<and> (\<forall>m \<in> set ms. \<forall>v. snd m = Some v \<longrightarrow> v \<in> set (rd_streams (r_data R s) (reader_stream r)))"
proof -
  let ?xs = "rd_streams (r_data R (w_store w)) (reader_stream r)"
  let ?e = "\<lambda>i. (ga_entry_id G i, Some (?xs ! i))"
  obtain c where c: "ga_position G (w_store w) (reader_stream r) (reader_group r) = Some c" "c \<le> length ?xs" "handed r = map ?e [0..<c]"
    using assms(1) unfolding handed_so_far_def by blast
  from read_new [OF c(1) read] have ms: "ms = map ?e [c..<min (c + n) (length ?xs)]" and data: "r_data R s = r_data R (w_store w)"
    and pos: "ga_position G s = (\<lambda>k' g'. if k' = reader_stream r \<and> g' = reader_group r then Some (c + length ms)
        else ga_position G (w_store w) k' g')" by auto
  have upto: "c + length ms = min (c + n) (length ?xs)" using c(2) ms by simp
  then have all: "handed r @ ms = map ?e [0..<c + length ms]"
    using upt_add_eq_append [of 0 c "length ms"] ms [folded upto] c(3) by simp
  have "\<exists>c'. ga_position G s (reader_stream r') (reader_group r') = Some c' \<and> c' \<le> length (rd_streams (r_data R s) (reader_stream r'))
      \<and> (handed(r := handed r @ ms)) r' = map (\<lambda>i. (ga_entry_id G i, Some (rd_streams (r_data R s) (reader_stream r') ! i))) [0..<c']" for r'
  proof (cases "r' = r")
    case True
    then show ?thesis using all upto by (intro exI [of _ "c + length ms"]) (simp add: pos data)
  next
    case False
    then have "\<not> (reader_stream r' = reader_stream r \<and> reader_group r' = reader_group r)" using reader_inject by blast
    then show ?thesis using assms(1) False by (simp add: pos data handed_so_far_def del: de_Morgan_conj)
  qed
  then have "handed_so_far R G (handed(r := handed r @ ms)) (w\<lparr>w_store := s\<rparr>)" by (simp add: handed_so_far_def)
  moreover have "\<forall>m \<in> set ms. \<forall>v. snd m = Some v \<longrightarrow> v \<in> set (rd_streams (r_data R s) (reader_stream r))"
    by (auto simp: ms data)
  ultimately show ?thesis using data by blast
qed

lemma take_turn_handed:
  assumes "typed_world R w" and "handed_so_far R G handed w" and "turn_redis t = R" and "take_turn G t w = Some (ms, w')"
  shows "typed_world R w' \<and> handed_so_far R G (log_batch (turn_reader t) ms handed) w'"
proof (cases "turn_reader t")
  case None
  then have p: "perform t w = Some w'" "ms = []" using assms(4) by (auto simp: take_turn_def)
  have "served R t w" using assms(3) None by (cases t) (simp_all add: served_def)
  from turn_effects [OF shared_store_axioms assms(1) this p(1)] have e: "effects any_cmd R w w'" .
  show ?thesis using effects_typed [OF shared_store_axioms e assms(1)] handed_mono [OF e assms(2)] None by (simp add: log_batch_def)
next
  case (Some r)
  obtain xs s where read: "ga_read G (reader_stream r) (reader_group r) (reader_count r) (w_store w) = (xs, s)" by force
  let ?w = "w\<lparr>w_store := s\<rparr>"
  note h = read_handed [OF assms(2) read]
  then have typed: "typed_world R ?w" using assms(1) by (simp add: typed_world_def)
  show ?thesis
  proof (cases "xs = []")
    case True
    then have "ms = []" "w' = ?w" using assms(4) Some read by (simp_all add: take_turn_def)
    then show ?thesis using h typed Some True by (simp add: log_batch_def)
  next
    case False
    then have p: "ms = xs" "perform (hand_out xs t) ?w = Some w'" using assms(4) Some read by (auto simp: take_turn_def)
    have "served R (hand_out xs t) ?w" using assms(3) Some h by (cases t) (auto simp: served_def)
    from turn_effects [OF shared_store_axioms typed this p(2)] have e: "effects any_cmd R ?w w'" .
    show ?thesis
      using effects_typed [OF shared_store_axioms e typed] handed_mono [OF e] h Some p(1) by (simp add: log_batch_def)
  qed
qed

lemma run_daemons_handed:
  "typed_world R w \<Longrightarrow> handed_so_far R G handed w \<Longrightarrow> run_daemons R G ts (handed, w) = Some (handed', w') \<Longrightarrow>
    typed_world R w' \<and> handed_so_far R G handed' w'"
proof (induction ts arbitrary: handed w)
  case (Cons t ts)
  then obtain ms w1 where "turn_redis t = R" "take_turn G t w = Some (ms, w1)"
    "run_daemons R G ts (log_batch (turn_reader t) ms handed, w1) = Some (handed', w')"
    by (auto split: if_splits bind_splits)
  then show ?case using Cons.IH take_turn_handed [OF Cons.prems(1,2)] by blast
qed simp

end

section \<open>Groups held in memory\<close>

type_synonym grouped_data = "redis_data \<times> (string \<Rightarrow> string \<Rightarrow> nat option)"

definition grouped_redis :: "grouped_data redis" where
  "grouped_redis =
     \<lparr>r_data = fst, r_exec = (\<lambda>c (d, g). (apply_cmd c d, g)),
      r_incr = (\<lambda>k (d, g). let (n, d) = r_incr mem_redis k d in (n, (d, g))),
      r_decr = (\<lambda>k (d, g). let (n, d) = r_decr mem_redis k d in (n, (d, g))),
      r_setnx = (\<lambda>k v (d, g). let (ok, d) = r_setnx mem_redis k v d in (ok, (d, g)))\<rparr>"

definition position_at :: "string \<Rightarrow> string \<Rightarrow> nat \<Rightarrow> (string \<Rightarrow> string \<Rightarrow> nat option) \<Rightarrow> string \<Rightarrow> string \<Rightarrow> nat option" where
  "position_at k g c positions = (\<lambda>k' g'. if k' = k \<and> g' = g then Some c else positions k' g')"

definition busy_text :: string where
  "busy_text = ''BUSYGROUP Consumer Group name already exists''"

lemma busy_found: "str_find busy_text ''BUSYGROUP'' \<noteq> None"
  by code_simp

definition mem_groups :: "grouped_data group_api" where
  "mem_groups =
     \<lparr>ga_position = snd,
      ga_create = (\<lambda>k g (d, ps). if ps k g = None then (None, (d, position_at k g 0 ps))
         else (Some busy_text, (d, ps))),
      ga_read = (\<lambda>k g n (d, ps). case ps k g of None \<Rightarrow> ([], (d, ps)) | Some c \<Rightarrow>
         let ms = map (\<lambda>i. (nat_str i, Some (rd_streams d k ! i))) [c..<min (c + n) (length (rd_streams d k))]
         in (ms, (d, position_at k g (c + length ms) ps))),
      ga_entry_id = nat_str\<rparr>"

lemma grouped_simps [simp]:
  "r_data grouped_redis (d, ps) = d" "r_exec grouped_redis cmd (d, ps) = (apply_cmd cmd d, ps)"
  "r_incr grouped_redis k (d, ps) = (fst (r_incr mem_redis k d), (snd (r_incr mem_redis k d), ps))"
  "r_decr grouped_redis k (d, ps) = (fst (r_decr mem_redis k d), (snd (r_decr mem_redis k d), ps))"
  "r_setnx grouped_redis k v (d, ps) = (fst (r_setnx mem_redis k v d), (snd (r_setnx mem_redis k v d), ps))"
  by (simp_all add: grouped_redis_def split_beta)

lemma mem_groups_simps [simp]:
  "ga_position mem_groups (d, ps) = ps" "ga_entry_id mem_groups = nat_str"
  "ga_create mem_groups k g (d, ps) = (if ps k g = None then (None, (d, position_at k g 0 ps)) else (Some busy_text, (d, ps)))"
  "ga_read mem_groups k g n (d, ps) = (case ps k g of None \<Rightarrow> ([], (d, ps)) | Some c \<Rightarrow>
     (map (\<lambda>i. (nat_str i, Some (rd_streams d k ! i))) [c..<min (c + n) (length (rd_streams d k))],
      (d, position_at k g (c + length [c..<min (c + n) (length (rd_streams d k))]) ps)))"
  by (simp_all add: mem_groups_def Let_def split: option.split)

lemma mem_data [simp]: "r_data mem_redis d = d"
  by (simp add: mem_redis_def)

interpretation mem_groups: stream_groups grouped_redis mem_groups
proof
  fix cmd :: store_cmd and k g v n ms c and s s' :: grouped_data and ok m
  obtain d ps where s: "s = (d, ps)" by force
  show "r_data grouped_redis (r_exec grouped_redis cmd s) = apply_cmd cmd (r_data grouped_redis s)"
    "ga_position mem_groups (r_exec grouped_redis cmd s) = ga_position mem_groups s"
    "ga_position mem_groups (snd (r_incr grouped_redis k s)) = ga_position mem_groups s"
    "ga_position mem_groups (snd (r_decr grouped_redis k s)) = ga_position mem_groups s"
    "ga_position mem_groups (snd (r_setnx grouped_redis k v s)) = ga_position mem_groups s"
    by (simp_all add: s)
  show "m = counter (rd_strings (r_data grouped_redis s) k) + 1
      \<and> r_data grouped_redis s' = (r_data grouped_redis s)\<lparr>rd_strings := (rd_strings (r_data grouped_redis s))(k \<mapsto> Num m)\<rparr>"
    if "r_incr grouped_redis k s = (m, s')" using that by (auto simp: s mem_redis_def Let_def)
  show "m = counter (rd_strings (r_data grouped_redis s) k) - 1
      \<and> r_data grouped_redis s' = (r_data grouped_redis s)\<lparr>rd_strings := (rd_strings (r_data grouped_redis s))(k \<mapsto> Num m)\<rparr>"
    if "r_decr grouped_redis k s = (m, s')" using that by (auto simp: s mem_redis_def Let_def)
  show "ok = (rd_strings (r_data grouped_redis s) k = None)
      \<and> r_data grouped_redis s' = (if ok then (r_data grouped_redis s)\<lparr>rd_strings := (rd_strings (r_data grouped_redis s))(k \<mapsto> v)\<rparr>
          else r_data grouped_redis s)"
    if "r_setnx grouped_redis k v s = (ok, s')" using that by (auto simp: s mem_redis_def split: if_splits)
  show "\<exists>s'. ga_create mem_groups k g s = (None, s') \<and> r_data grouped_redis s' = r_data grouped_redis s
        \<and> ga_position mem_groups s' = (\<lambda>k' g'. if k' = k \<and> g' = g then Some 0 else ga_position mem_groups s k' g')"
    if "ga_position mem_groups s k g = None" using that unfolding s by (simp add: position_at_def fun_eq_iff)
  show "\<exists>msg. ga_create mem_groups k g s = (Some msg, s) \<and> str_find msg ''BUSYGROUP'' \<noteq> None"
    if "ga_position mem_groups s k g \<noteq> None" using that busy_found by (auto simp: s)
  show "ms = map (\<lambda>i. (ga_entry_id mem_groups i, Some (rd_streams (r_data grouped_redis s) k ! i)))
          [c..<min (c + n) (length (rd_streams (r_data grouped_redis s) k))]
        \<and> r_data grouped_redis s' = r_data grouped_redis s
        \<and> ga_position mem_groups s' = (\<lambda>k' g'. if k' = k \<and> g' = g then Some (c + length ms) else ga_position mem_groups s k' g')"
    if "ga_position mem_groups s k g = Some c" "ga_read mem_groups k g n s = (ms, s')"
    using that unfolding s by (auto simp: position_at_def fun_eq_iff)
qed

section \<open>Every entry once\<close>

text \<open>
  C10. Every daemon is handed the entries of its stream in order and each of them once. Whatever turns
  the components take after the daemons have joined their groups, and whichever of them raise: what a
  reader has been handed so far are the first entries of its stream, and what it is handed next are
  the entries after these, up to the size of a batch. So no entry is handled twice, and those of a
  batch that crashed are not handed out again.
\<close>

theorem every_entry_is_handed_once:
  assumes "stream_groups R G" and "typed_world R w0" and "join_groups G readers (w_store w0) = (joined, s)"
    and "\<forall>r. ga_position G (w_store w0) (reader_stream r) (reader_group r) = None"
    and "run_daemons R G ts (\<lambda>r. [], w0\<lparr>w_store := s\<rparr>) = Some (handed, w)"
  shows "joined = None \<and> typed_world R w
    \<and> (\<forall>r. let entries = rd_streams (r_data R (w_store w)) (reader_stream r); entry = (\<lambda>i. (ga_entry_id G i, Some (entries ! i)))
        in \<exists>c \<le> length entries. handed r = map entry [0..<c]
           \<and> (\<exists>s. ga_read G (reader_stream r) (reader_group r) (reader_count r) (w_store w)
                = (map entry [c..<min (c + reader_count r) (length entries)], s)))"
proof -
  have members: "r \<in> set readers" for r by (cases r) (simp_all add: readers_def)
  obtain s' where s': "join_groups G readers (w_store w0) = (None, s')" "r_data R s' = r_data R (w_store w0)"
    "\<forall>k g. ga_position G s' k g
        = (if ga_position G (w_store w0) k g = None \<and> (\<exists>r \<in> set readers. k = reader_stream r \<and> g = reader_group r) then Some 0
           else ga_position G (w_store w0) k g)"
    using stream_groups.join_groups_joins [OF assms(1)] by blast
  then have s: "s = s'" "joined = None" using assms(3) by simp_all
  have "handed_so_far R G (\<lambda>r. []) (w0\<lparr>w_store := s\<rparr>)"
    using s'(3) assms(4) members by (auto simp: handed_so_far_def s)
  moreover have "typed_world R (w0\<lparr>w_store := s\<rparr>)" using assms(2) s'(2) by (simp add: typed_world_def s)
  ultimately have w: "typed_world R w" "handed_so_far R G handed w"
    using stream_groups.run_daemons_handed [OF assms(1)] assms(5) by blast+
  have "\<exists>c \<le> length (rd_streams (r_data R (w_store w)) (reader_stream r)).
      handed r = map (\<lambda>i. (ga_entry_id G i, Some (rd_streams (r_data R (w_store w)) (reader_stream r) ! i))) [0..<c]
      \<and> (\<exists>s. ga_read G (reader_stream r) (reader_group r) (reader_count r) (w_store w)
           = (map (\<lambda>i. (ga_entry_id G i, Some (rd_streams (r_data R (w_store w)) (reader_stream r) ! i)))
                [c..<min (c + reader_count r) (length (rd_streams (r_data R (w_store w)) (reader_stream r)))], s))" for r
  proof -
    obtain c where c: "ga_position G (w_store w) (reader_stream r) (reader_group r) = Some c"
      "c \<le> length (rd_streams (r_data R (w_store w)) (reader_stream r))"
      "handed r = map (\<lambda>i. (ga_entry_id G i, Some (rd_streams (r_data R (w_store w)) (reader_stream r) ! i))) [0..<c]"
      using w(2) unfolding handed_so_far_def by blast
    obtain ms s1 where read: "ga_read G (reader_stream r) (reader_group r) (reader_count r) (w_store w) = (ms, s1)" by force
    show ?thesis using c stream_groups.read_new [OF assms(1) c(1) read] read by blast
  qed
  then show ?thesis using s(2) w(1) unfolding Let_def by blast
qed

definition junk_world :: "grouped_data world" where
  "junk_world = \<lparr>w_store = (empty_data\<lparr>rd_streams := (\<lambda>k. if k = STREAM_DISPATCH then replicate 3 (Txt ''junk'') else [])\<rparr>, \<lambda>k g. None),
     w_db = empty_db\<rparr>"

definition grouped_dispatcher :: "grouped_data dispatcher_env" where
  "grouped_dispatcher =
     \<lparr>di_redis = grouped_redis, di_settings = di_settings sample_dispatcher, di_send = (\<lambda>host port j. Delivered), di_sha256 = id, di_now = 0\<rparr>"

lemma junk_joins:
  "\<exists>ps. join_groups mem_groups readers (w_store junk_world) = (None, (fst (w_store junk_world), ps)) \<and> ps STREAM_DISPATCH ''dispatch_group'' = Some 0"
  by (simp add: junk_world_def readers_def ensure_stream_group_def position_at_def)

lemma junk_crashes: "dispatcher_batch grouped_dispatcher ((i, Some (Txt ''junk'')) # ms) w = Crash ValueError w"
  by (simp add: dispatcher_batch_def message_request_def)

theorem every_entry_is_handed_once_witness:
  "\<exists>s handed w. join_groups mem_groups readers (w_store junk_world) = (None, s)
     \<and> run_daemons grouped_redis mem_groups
        [Dispatching grouped_dispatcher [] :: (grouped_data, unit, unit, unit, unit) turn, Dispatching grouped_dispatcher []]
        (\<lambda>r. [], junk_world\<lparr>w_store := s\<rparr>) = Some (handed, w)
     \<and> length (handed DispatcherReader) = 3
     \<and> fst (ga_read mem_groups STREAM_DISPATCH ''dispatch_group'' 50 (w_store w)) = []"
proof -
  let ?ts = "[Dispatching grouped_dispatcher [] :: (grouped_data, unit, unit, unit, unit) turn, Dispatching grouped_dispatcher []]"
  obtain ps where join: "join_groups mem_groups readers (w_store junk_world) = (None, (fst (w_store junk_world), ps))"
    and ps: "ps STREAM_DISPATCH ''dispatch_group'' = Some 0" using junk_joins by blast
  have typed: "typed_world grouped_redis junk_world"
    by (simp add: typed_world_def typed_data_def typed_ledger_def junk_world_def empty_data_def empty_db_def typed_hash_def tbl_all_def
        STREAM_RESULTS_def STREAM_DISPATCH_def)
  have none: "\<forall>r. ga_position mem_groups (w_store junk_world) (reader_stream r) (reader_group r) = None" by (simp add: junk_world_def)
  have redis: "di_redis grouped_dispatcher = grouped_redis" by (simp add: grouped_dispatcher_def)
  have three: "[0..<3] = [0, 1, 2 :: nat]" by (simp add: upt_rec)
  obtain handed w where run: "run_daemons grouped_redis mem_groups ?ts (\<lambda>r. [], junk_world\<lparr>w_store := (fst (w_store junk_world), ps)\<rparr>) = Some (handed, w)"
    and handed: "length (handed DispatcherReader) = 3" and junk: "rd_streams (r_data grouped_redis (w_store w)) STREAM_DISPATCH = replicate 3 (Txt ''junk'')"
    by (simp add: take_turn_def ps three junk_world_def junk_crashes redis log_batch_def position_at_def Let_def)
  from every_entry_is_handed_once [OF mem_groups.stream_groups_axioms typed join none run]
  have "\<exists>c \<le> length (replicate 3 (Txt ''junk'')). handed DispatcherReader = map (\<lambda>i. (ga_entry_id mem_groups i, Some (replicate 3 (Txt ''junk'') ! i))) [0..<c]
    \<and> (\<exists>s. ga_read mem_groups STREAM_DISPATCH ''dispatch_group'' 50 (w_store w)
         = (map (\<lambda>i. (ga_entry_id mem_groups i, Some (replicate 3 (Txt ''junk'') ! i))) [c..<min (c + 50) (length (replicate 3 (Txt ''junk'')))], s))"
    unfolding Let_def by (elim conjE allE [of _ DispatcherReader]) (simp only: reader_simps junk)
  then have "fst (ga_read mem_groups STREAM_DISPATCH ''dispatch_group'' 50 (w_store w)) = []" using handed by auto
  with join run handed show ?thesis by blast
qed

end
