(* ===== verification/Simulator.thy ===== *)
theory Simulator
  imports Executor
begin

text \<open>
  The simulator's servers (\<open>simulator_executor.py\<close>, \<open>run_servers\<close>): one per executor core, each on
  a port of its own, all closed again when one port is refused or the process is interrupted.
  Sockets and threads are parameters on a state of any type; joining a thread ends when its server
  ends, when an interrupt arrives, or never.
\<close>

record ('k, 'v, 's, 'x) executor_server =
  es_address :: "string \<times> int"
  es_executor :: "('k, 'v, 's, 'x) executor_env"

record ('k, 'v, 's, 'x, 'e) server_host =
  sh_settings :: "py_error + omega_settings"
  sh_executor :: "('k, 'v, 's, 'x) executor_env"
  sh_generate :: "'e \<Rightarrow> 'k \<times> 'e"
  sh_verify_key :: "'k \<Rightarrow> string"
  sh_print :: "string \<Rightarrow> 'e \<Rightarrow> 'e"
  sh_bind :: "string \<times> int \<Rightarrow> 'e \<Rightarrow> py_error option \<times> 'e"
  sh_serve :: "string \<times> int \<Rightarrow> 'e \<Rightarrow> 'e"
  sh_shutdown :: "string \<times> int \<Rightarrow> 'e \<Rightarrow> 'e"
  sh_server_close :: "string \<times> int \<Rightarrow> 'e \<Rightarrow> 'e"
  sh_join :: "string \<times> int \<Rightarrow> 'e \<Rightarrow> (bool \<times> 'e) option"

text \<open>
  \<open>sh_executor\<close> is the executor without its name and key; \<open>sh_verify_key\<close> the hexadecimal text of
  the public key; \<open>sh_join\<close> says whether the thread ended, rather than an interrupt.
\<close>

definition key_message :: "string \<Rightarrow> string" where
  "key_message public_key = ''>>> KERNEL OMEGA SIMULATOR [PubKey: '' @ public_key @ ''] <<<''"

definition core_server ::
    "('k, 'v, 's, 'x, 'e) server_host \<Rightarrow> omega_settings \<Rightarrow> 'k \<Rightarrow> nat \<Rightarrow> ('k, 'v, 's, 'x) executor_server" where
  "core_server host omega signing_key index =
     \<lparr>es_address = (om_executor_host omega, om_executor_base_port omega + int index),
      es_executor = (sh_executor host)\<lparr>ex_node_id := ''sim-core-'' @ nat_str index, ex_signing_key := signing_key\<rparr>\<rparr>"

definition core_servers ::
    "('k, 'v, 's, 'x, 'e) server_host \<Rightarrow> omega_settings \<Rightarrow> 'k \<Rightarrow> ('k, 'v, 's, 'x) executor_server list" where
  "core_servers host omega signing_key = map (core_server host omega signing_key) [0..<nat (om_executor_cores omega)]"

text \<open>The servers started, with the exception that ended the loop, if one did.\<close>

fun start_servers ::
    "('k, 'v, 's, 'x, 'e) server_host \<Rightarrow> ('k, 'v, 's, 'x) executor_server list \<Rightarrow> ('k, 'v, 's, 'x) executor_server list
       \<Rightarrow> 'e \<Rightarrow> (py_error option \<times> ('k, 'v, 's, 'x) executor_server list) \<times> 'e" where
  "start_servers host [] started e = ((None, started), e)"
| "start_servers host (server # servers) started e =
     (case sh_bind host (es_address server) e of
        (Some err, e) \<Rightarrow> ((Some err, started), e)
      | (None, e) \<Rightarrow> start_servers host servers (started @ [server]) (sh_serve host (es_address server) e))"

fun close_servers :: "('k, 'v, 's, 'x, 'e) server_host \<Rightarrow> ('k, 'v, 's, 'x) executor_server list \<Rightarrow> 'e \<Rightarrow> 'e" where
  "close_servers host [] e = e"
| "close_servers host (server # servers) e =
     close_servers host servers (sh_server_close host (es_address server) (sh_shutdown host (es_address server) e))"

text \<open>True when every thread has ended, False when an interrupt arrived first.\<close>

fun join_servers :: "('k, 'v, 's, 'x, 'e) server_host \<Rightarrow> ('k, 'v, 's, 'x) executor_server list \<Rightarrow> 'e \<Rightarrow> (bool \<times> 'e) option" where
  "join_servers host [] e = Some (True, e)"
| "join_servers host (server # servers) e =
     (case sh_join host (es_address server) e of
        None \<Rightarrow> None
      | Some (True, e) \<Rightarrow> join_servers host servers e
      | Some (False, e) \<Rightarrow> Some (False, e))"

definition ports_refused :: "omega_settings \<Rightarrow> string" where
  "ports_refused omega =
     (let port_end = om_executor_base_port omega + om_executor_cores omega - 1
      in ''Unable to bind simulator ports '' @ om_executor_host omega @ '':'' @ json_int (om_executor_base_port omega)
           @ ''-'' @ json_int port_end @ ''. '' @ ''Set OMEGA_EXECUTOR_BASE_PORT to a free range.'')"

definition run_servers :: "('k, 'v, 's, 'x, 'e) server_host \<Rightarrow> 'e \<Rightarrow> ((py_error + unit) \<times> 'e) option" where
  "run_servers host e =
     (case sh_settings host of
        Inl err \<Rightarrow> Some (Inl err, e)
      | Inr omega \<Rightarrow>
          (case sh_generate host e of
             (signing_key, e) \<Rightarrow>
               (case start_servers host (core_servers host omega signing_key) []
                   (sh_print host (key_message (sh_verify_key host signing_key)) e) of
                  ((Some (OSError msg), servers), e) \<Rightarrow>
                    Some (Inl (RuntimeError (ports_refused omega)), close_servers host servers e)
                | ((Some err, servers), e) \<Rightarrow> Some (Inl err, e)
                | ((None, servers), e) \<Rightarrow>
                    (case join_servers host servers e of
                       None \<Rightarrow> None
                     | Some (True, e) \<Rightarrow> Some (Inr (), e)
                     | Some (False, e) \<Rightarrow> Some (Inr (), close_servers host servers e)))))"

end
