(* ===== verification/SimulatorProps.thy ===== *)
theory SimulatorProps
  imports Simulator ForestProps ExecutionProps
begin

text \<open>
  The simulator's ports: all of them are served or none stays open, and every execution that the
  worker queues is addressed to the port where the core it names is served.
\<close>

section \<open>Sockets\<close>

text \<open>
  What is relied on of the sockets of the host, whose addresses in use are \<open>listening\<close>: binding takes
  a free address, closing gives it up, and nothing else that the simulator does changes them.
\<close>

locale listening_sockets =
  fixes host :: "('k, 'v, 's, 'x, 'e) server_host" and listening :: "'e \<Rightarrow> (string \<times> int) set"
  assumes bound: "sh_bind host a e = (None, e') \<Longrightarrow> a \<notin> listening e \<and> listening e' = insert a (listening e)"
    and refused: "sh_bind host a e = (Some err, e') \<Longrightarrow> listening e' = listening e"
    and closed: "listening (sh_server_close host a e) = listening e - {a}"
    and joined: "sh_join host a e = Some (r, e') \<Longrightarrow> listening e' = listening e"
    and quiet: "listening (sh_serve host a e) = listening e" "listening (sh_shutdown host a e) = listening e"
      "listening (sh_print host s e) = listening e" "listening (snd (sh_generate host e)) = listening e"
begin

lemma start_listening:
  "start_servers host servers started e = ((err, started'), e') \<Longrightarrow>
    \<exists>n. started' = started @ take n servers \<and> (err = None \<longrightarrow> take n servers = servers) \<and> (err \<noteq> None \<longrightarrow> n < length servers)
      \<and> listening e' = listening e \<union> es_address ` set (take n servers)
      \<and> listening e \<inter> es_address ` set (take n servers) = {}"
proof (induction servers arbitrary: started e)
  case (Cons server servers)
  obtain r e1 where b: "sh_bind host (es_address server) e = (r, e1)" by force
  show ?case
  proof (cases r)
    case (Some err')
    then show ?thesis using Cons.prems b refused [OF b [unfolded Some]] by (intro exI [of _ 0]) auto
  next
    case None
    note fresh = bound [OF b [unfolded None]]
    have "start_servers host servers (started @ [server]) (sh_serve host (es_address server) e1) = ((err, started'), e')"
      using Cons.prems b None by simp
    from Cons.IH [OF this] obtain n where "started' = (started @ [server]) @ take n servers"
      "err = None \<longrightarrow> take n servers = servers" "err \<noteq> None \<longrightarrow> n < length servers"
      "listening e' = insert (es_address server) (listening e) \<union> es_address ` set (take n servers)"
      "insert (es_address server) (listening e) \<inter> es_address ` set (take n servers) = {}"
      using fresh by (auto simp: quiet)
    with fresh show ?thesis by (intro exI [of _ "Suc n"]) auto
  qed
qed simp

lemma close_listening: "listening (close_servers host servers e) = listening e - es_address ` set servers"
  by (induction servers arbitrary: e) (auto simp: closed quiet)

lemma join_listening: "join_servers host servers e = Some (r, e') \<Longrightarrow> listening e' = listening e"
proof (induction servers arbitrary: e)
  case (Cons server servers)
  then obtain b e1 where j: "sh_join host (es_address server) e = Some (b, e1)" by (auto split: option.splits)
  with Cons show ?case using joined [OF j] by (cases b) auto
qed simp

end

definition mem_sockets :: "(string, string, redis_data, machine, (string \<times> int) set) server_host" where
  "mem_sockets =
     \<lparr>sh_settings = Inr ((di_settings sample_dispatcher)\<lparr>om_executor_cores := 3\<rparr>), sh_executor = sample_executor,
      sh_generate = (\<lambda>e. (''k'', e)), sh_verify_key = id, sh_print = (\<lambda>s e. e),
      sh_bind = (\<lambda>a e. if a \<in> e then (Some (OSError ''Address already in use''), e) else (None, insert a e)),
      sh_serve = (\<lambda>a e. e), sh_shutdown = (\<lambda>a e. e), sh_server_close = (\<lambda>a e. e - {a}), sh_join = (\<lambda>a e. Some (False, e))\<rparr>"

interpretation mem_sockets: listening_sockets mem_sockets id
  by unfold_locales (auto simp: mem_sockets_def split: if_splits)

section \<open>All the ports or none\<close>

lemma core_servers_addresses:
  "es_address ` set (core_servers host omega key)
    = (\<lambda>i. (om_executor_host omega, om_executor_base_port omega + int i)) ` {..<nat (om_executor_cores omega)}"
  by (auto simp: core_servers_def core_server_def image_image atLeast0LessThan)

text \<open>
  C39. The simulator holds all its ports or none. When every port is free it serves one core on each of
  the consecutive ports, and an interrupt closes them all. When a port is refused it raises the message
  that names the range, and the ports it had opened are closed again. Only an exception other than
  \<open>OSError\<close>, which a port out of range raises, leaves the ports opened before it open.
\<close>

theorem simulator_holds_all_ports_or_none:
  assumes "listening_sockets host listening" and "sh_settings host = Inr omega" and "sh_generate host e = (key, e0)"
    and "start_servers host (core_servers host omega key) [] (sh_print host (key_message (sh_verify_key host key)) e0)
      = ((err, started), e1)"
  shows "case err of
      None \<Rightarrow> started = core_servers host omega key
        \<and> listening e1 = listening e \<union> (\<lambda>i. (om_executor_host omega, om_executor_base_port omega + int i)) ` {..<nat (om_executor_cores omega)}
        \<and> (\<forall>ended e2. join_servers host started e1 = Some (ended, e2) \<longrightarrow>
             (\<exists>e3. run_servers host e = Some (Inr (), e3) \<and> listening e3 = (if ended then listening e1 else listening e)))
    | Some (OSError msg) \<Rightarrow>
        \<exists>e2. run_servers host e = Some (Inl (RuntimeError (ports_refused omega)), e2) \<and> listening e2 = listening e
    | Some err \<Rightarrow> run_servers host e = Some (Inl err, e1) \<and> listening e1 = listening e \<union> es_address ` set started"
proof -
  let ?servers = "core_servers host omega key"
  have e0: "listening (sh_print host m e0) = listening e" for m
    using listening_sockets.quiet [OF assms(1)] assms(3) by (metis snd_conv)
  obtain n where n: "started = take n ?servers" "err = None \<longrightarrow> take n ?servers = ?servers"
    "listening e1 = listening e \<union> es_address ` set started" "listening e \<inter> es_address ` set started = {}"
    using listening_sockets.start_listening [OF assms(1,4)] unfolding e0 by auto
  have closed: "listening (close_servers host started e2) = listening e" if "listening e2 = listening e1" for e2
    using that n(3,4) by (auto simp: listening_sockets.close_listening [OF assms(1)])
  show ?thesis
  proof (cases err)
    case None
    have "\<exists>e3. run_servers host e = Some (Inr (), e3) \<and> listening e3 = (if ended then listening e1 else listening e)"
      if "join_servers host started e1 = Some (ended, e2)" for ended e2
      using that assms(2-4) None closed listening_sockets.join_listening [OF assms(1) that]
      by (cases ended) (simp_all add: run_servers_def)
    then show ?thesis using n None core_servers_addresses [of host omega key] by simp
  next
    case (Some x)
    then show ?thesis using assms(2-4) n(3) closed by (cases x) (simp_all add: run_servers_def)
  qed
qed

theorem simulator_holds_all_ports_or_none_witness:
  "run_servers mem_sockets {} = Some (Inr (), {})
    \<and> (\<exists>err. run_servers mem_sockets {(''h'', 7002)} = Some (Inl (RuntimeError err), {(''h'', 7002)}))"
proof -
  have sockets: "sh_settings mem_sockets = Inr ((di_settings sample_dispatcher)\<lparr>om_executor_cores := 3\<rparr>)" "sh_generate mem_sockets e = (''k'', e)"
    "sh_print mem_sockets m e = e" "sh_bind mem_sockets a e = (if a \<in> e then (Some (OSError ''Address already in use''), e) else (None, insert a e))"
    "sh_serve mem_sockets a e = e" "sh_join mem_sockets a e = Some (False, e)" for a e m
    by (simp_all add: mem_sockets_def)
  let ?servers = "core_servers mem_sockets ((di_settings sample_dispatcher)\<lparr>om_executor_cores := 3\<rparr>) ''k''"
  have addresses: "map es_address ?servers = [(''h'', 7000), (''h'', 7001), (''h'', 7002)]"
    by (simp add: core_servers_def core_server_def sample_dispatcher_def upt_rec)
  then obtain a b c where three: "?servers = [a, b, c]" "es_address a = (''h'', 7000)" "es_address b = (''h'', 7001)" "es_address c = (''h'', 7002)"
    by (auto simp: map_eq_Cons_conv)
  note both = simulator_holds_all_ports_or_none [OF mem_sockets.listening_sockets_axioms sockets(1,2), unfolded sockets three(1)]
  show ?thesis
    using both [of "{}"] both [of "{(''h'', 7002)}"] by (simp add: sockets three ex_bool_eq)
qed

section \<open>The ports of the queued executions\<close>

text \<open>
  C11. Every execution the worker queues reaches the core it names. Under common settings with at
  least one core, the request that a dispatch appends to the stream and the row it leaves in the
  ledger name an address at which the simulator serves exactly the core of the request; and where
  connections to the simulator's addresses are accepted, the dispatcher delivers the request.
\<close>

theorem queued_executions_reach_their_core:
  assumes "shared_store (we_redis env)" and "0 < om_executor_cores (we_omega env)" and "di_settings denv = we_omega env"
    and "dispatch_capsule env capsule w = Done w'"
    and "\<forall>server \<in> set (core_servers host (we_omega env) key). \<forall>j. di_send denv (fst (es_address server)) (snd (es_address server)) j = Delivered"
  shows "\<exists>request server row. dispatched env w' = dispatched env w @ [Doc (request_to_json request)]
    \<and> er_run_id request = tc_run_id capsule \<and> er_capsule request = capsule
    \<and> er_executor_core request = we_md5_prefix env (tc_id capsule) mod om_executor_cores (we_omega env)
    \<and> server \<in> set (core_servers host (we_omega env) key)
    \<and> executor_env.ex_node_id (es_executor server) = ''sim-core-'' @ json_int (er_executor_core request)
    \<and> es_address server = (om_executor_host (we_omega env), om_executor_base_port (we_omega env) + er_executor_core request)
    \<and> map_of (db_executions (w_db w')) (tc_run_id capsule) = Some row
    \<and> xr_executor_core row = Some (er_executor_core request)
    \<and> xr_executor_host row = Some (fst (es_address server)) \<and> xr_executor_port row = Some (snd (es_address server))
    \<and> (\<forall>w1. dispatch denv request w1 = Done (mark_delivered denv request (count_inflight (di_redis denv) w1)))"
proof -
  let ?omega = "we_omega env"
  let ?core = "we_md5_prefix env (tc_id capsule) mod om_executor_cores ?omega"
  let ?server = "core_server host ?omega key (nat ?core)"
  have core: "0 \<le> ?core" "?core < om_executor_cores ?omega" using assms(2) by simp_all
  then have member: "?server \<in> set (core_servers host ?omega key)" by (auto simp: core_servers_def)
  have address: "es_address ?server = (om_executor_host ?omega, om_executor_base_port ?omega + ?core)"
    "executor_env.ex_node_id (es_executor ?server) = ''sim-core-'' @ json_int ?core"
    using core by (simp_all add: core_server_def json_int_def)
  obtain request where request: "er_executor_core request = ?core" "er_run_id request = tc_run_id capsule" "er_capsule request = capsule"
    and queued: "queue_execution env request w = Done w'"
  proof -
    let ?request = "\<lparr>er_run_id = tc_run_id capsule, er_candidate_id = tc_id capsule, er_task_id = tc_tree_id capsule,
      er_executor_core = ?core, er_capsule = capsule, er_created_at = we_time env, er_preferred_executor_core = Some ?core\<rparr>"
    have "queue_execution env ?request w = Done w'"
      using assms(2,4) by (simp add: dispatch_capsule_def select_executor_core_def)
    then show thesis by (intro that [of ?request]) simp_all
  qed
  from queued obtain db where db: "record_execution_queued
           \<lparr>eq_run_id = er_run_id request, eq_candidate_id = er_candidate_id request,
            eq_task_id = er_task_id request, eq_executor_core = er_executor_core request,
            eq_executor_host = om_executor_host ?omega, eq_executor_port = om_executor_base_port ?omega + ?core,
            eq_meta = [''worker_id'' \<mapsto> JStr (we_worker_id env)]\<rparr> (w_db w) = Inr db"
    and w': "w' = w_exec (we_redis env) [CXAdd STREAM_DISPATCH (Doc (request_to_json request))]
      (w\<lparr>w_db := snd (update_candidate_status (er_candidate_id request) ''queued'' None db)\<rparr>)"
    by (auto simp: queue_execution_def Let_def request(1) split: sum.splits)
  have "db_executions (w_db w') = db_executions db"
    by (simp add: w' update_candidate_status_def db_defs Let_def split: prod.splits option.splits)
  then obtain row where row: "map_of (db_executions (w_db w')) (tc_run_id capsule) = Some row"
    "xr_executor_core row = Some ?core" "xr_executor_host row = Some (om_executor_host ?omega)"
    "xr_executor_port row = Some (om_executor_base_port ?omega + ?core)"
    using db by (auto simp: record_execution_queued_def request split: if_splits option.splits)
  have stream: "dispatched env w' = dispatched env w @ [Doc (request_to_json request)]"
    using assms(1) by (simp add: w')
  have sent: "di_send denv (om_executor_host ?omega) (om_executor_base_port ?omega + ?core) j = Delivered" for j
    using assms(5) member address by (metis fst_conv snd_conv)
  then have "dispatch denv request w1 = Done (mark_delivered denv request (count_inflight (di_redis denv) w1))" for w1
    by (simp add: dispatch_def assms(3) request)
  with stream request member address row show ?thesis by (intro exI [of _ request] exI [of _ ?server] exI [of _ row]) simp
qed

definition sample_delivery :: "redis_data dispatcher_env" where
  "sample_delivery = sample_dispatcher\<lparr>di_settings := we_omega sample_env,
     di_send := (\<lambda>host port j. if host = ''127.0.0.1'' \<and> 5000 \<le> port \<and> port < 5002 then Delivered else Refused ''connection refused'')\<rparr>"

definition recorded_world :: "redis_data world" where
  "recorded_world = sample_world\<lparr>w_db := (w_db sample_world)
     \<lparr>db_candidates := [(''c1'', candidate_record sample_env sample_expansion ''s.py'' ''s.py'' 0)]\<rparr>\<rparr>"

theorem queued_executions_reach_their_core_witness:
  "\<exists>w row. dispatch_capsule sample_env sample_capsule recorded_world = Done w
    \<and> map_of (db_executions (w_db w)) ''run'' = Some row
    \<and> xr_executor_core row = Some 1 \<and> xr_executor_host row = Some ''127.0.0.1'' \<and> xr_executor_port row = Some 5001"
proof -
  have cores: "om_executor_cores (we_omega sample_env) = 2" "we_md5_prefix sample_env id' = 7" "we_redis sample_env = mem_redis" for id'
    by (simp_all add: sample_env_def)
  obtain w where w: "dispatch_capsule sample_env sample_capsule recorded_world = Done w"
    by (simp add: dispatch_capsule_def select_executor_core_def cores queue_execution_def record_execution_queued_def has_execution_def
        has_candidate_def has_task_def recorded_world_def sample_world_def sample_capsule_def empty_db_def Let_def)
  let ?servers = "core_servers mem_sockets (we_omega sample_env) ''k''"
  have "\<forall>server \<in> set ?servers. \<forall>j. di_send sample_delivery (fst (es_address server)) (snd (es_address server)) j = Delivered"
    by (auto simp: core_servers_def core_server_def sample_delivery_def sample_env_def)
  note reach = queued_executions_reach_their_core [OF _ _ _ w this]
  have "shared_store (we_redis sample_env)" "0 < om_executor_cores (we_omega sample_env)" "di_settings sample_delivery = we_omega sample_env"
    by (simp_all add: cores mem.shared_store_axioms sample_delivery_def)
  from reach [OF this] obtain request :: execution_request and server row where "er_executor_core request = 7 mod 2" "server \<in> set ?servers"
    "es_address server = (om_executor_host (we_omega sample_env), om_executor_base_port (we_omega sample_env) + er_executor_core request)"
    "map_of (db_executions (w_db w)) (tc_run_id sample_capsule) = Some row" "xr_executor_core row = Some (er_executor_core request)"
    "xr_executor_host row = Some (fst (es_address server))" "xr_executor_port row = Some (snd (es_address server))"
    unfolding cores by (elim exE conjE) (rule that; assumption)
  moreover have "om_executor_host (we_omega sample_env) = ''127.0.0.1''" "om_executor_base_port (we_omega sample_env) = 5000"
    "tc_run_id sample_capsule = ''run''"
    by (simp_all add: sample_env_def sample_capsule_def)
  ultimately show ?thesis using w by auto
qed

end
