(* ===== verification/AuditReport.thy ===== *)
theory AuditReport
  imports AuditRun PyFormat "HOL-Library.Option_ord"
begin

text \<open>
  What the audit measures and reports (\<open>scripts/run_optimization_audit.py\<close>): the metrics of a task
  from the ledger, the ranking of the upgrades, and the text of the report. Sections of a row's
  document are objects or missing, and names of stages are texts, as the components write them;
  another value raises here. Times are seconds; \<open>ar_float\<close> is \<open>float(text)\<close>, \<open>ar_dumps\<close> prints a
  document.
\<close>

section \<open>Reading documents\<close>

definition section_json :: "json option \<Rightarrow> py_error + (string \<times> json) list" where
  "section_json v = (case v of None \<Rightarrow> Inr [] | Some (JObj d) \<Rightarrow> Inr d | Some _ \<Rightarrow> Inl AttributeError)"

fun py_float :: "(string \<Rightarrow> real option) \<Rightarrow> json \<Rightarrow> py_error + real" where
  "py_float ar_float (JInt n) = Inr (of_int n)"
| "py_float ar_float (JFloat x) = Inr x"
| "py_float ar_float (JBool b) = Inr (of_bool b)"
| "py_float ar_float (JStr s) = (case ar_float s of None \<Rightarrow> Inl ValueError | Some x \<Rightarrow> Inr x)"
| "py_float ar_float _ = Inl TypeError"

text \<open>\<open>int(value or 0)\<close>, which cuts a float off.\<close>

fun int_or_zero :: "json \<Rightarrow> py_error + int" where
  "int_or_zero JNull = Inr 0"
| "int_or_zero (JBool b) = Inr (of_bool b)"
| "int_or_zero (JInt n) = Inr n"
| "int_or_zero (JFloat x) = Inr (if x < 0 then \<lceil>x\<rceil> else \<lfloor>x\<rfloor>)"
| "int_or_zero (JStr s) = (if s = [] then Inr 0 else py_int s)"
| "int_or_zero (JArr js) = (if js = [] then Inr 0 else Inl TypeError)"
| "int_or_zero (JObj d) = (if d = [] then Inr 0 else Inl TypeError)"

section \<open>The metrics of a fixture\<close>

record fixture_metrics =
  fm_name :: string
  fm_task_id :: string
  fm_status :: string
  fm_candidates_generated :: nat
  fm_executions :: nat
  fm_accepted :: nat
  fm_wall_seconds :: real
  fm_candidates_per_minute :: real
  fm_executions_per_minute :: real
  fm_executor_utilization :: real
  fm_full_suite_runs_per_accepted :: real
  fm_seed_ms :: real
  fm_coverage_ms :: real
  fm_generation_ms :: real
  fm_queue_wait_ms :: real
  fm_executor_ms :: real
  fm_full_suite_ms :: real
  fm_materialize_ms :: real
  fm_snapshot_bytes :: int
  fm_snapshot_files :: int
  fm_failed_stage_counts :: "(string \<times> nat) list"
  fm_hotspots :: "(string \<times> real) list"

text \<open>The rows of a task, executions by start and end with missing times first.\<close>

definition task_executions :: "metadata_db \<Rightarrow> string \<Rightarrow> execution_row list" where
  "task_executions db task_id =
     sort_key xr_started_at (sort_key xr_finished_at (filter (\<lambda>r. xr_task_id r = task_id) (map snd (db_executions db))))"

definition task_candidates :: "metadata_db \<Rightarrow> string \<Rightarrow> candidate_row list" where
  "task_candidates db task_id =
     filter (\<lambda>r. cr_task_id r = task_id \<and> cr_patch_kind r \<noteq> ''seed'') (map snd (db_candidates db))"

definition task_decisions :: "metadata_db \<Rightarrow> string \<Rightarrow> policy_row list" where
  "task_decisions db task_id =
     map snd (filter (\<lambda>(k, _). map_option cr_task_id (map_of (db_candidates db) k) = Some task_id) (db_policy_decisions db))"

text \<open>What the loop over the executions collects.\<close>

record stage_times =
  sg_queue_waits :: "real list"
  sg_materialize :: "real list"
  sg_full_suite :: "real list"
  sg_failed_stages :: "(string \<times> nat) list"

definition optional_time :: "(string \<Rightarrow> real option) \<Rightarrow> (string \<times> json) list \<Rightarrow> string \<Rightarrow> py_error + real list" where
  "optional_time ar_float d k = (case map_of d k of None \<Rightarrow> Inr [] | Some j \<Rightarrow> py_bind (py_float ar_float j) (\<lambda>x. Inr [x]))"

definition count_failed_stage :: "json option \<Rightarrow> (string \<times> nat) list \<Rightarrow> py_error + (string \<times> nat) list" where
  "count_failed_stage failed_stage counts =
     (case failed_stage of
        None \<Rightarrow> Inr counts
      | Some JNull \<Rightarrow> Inr counts
      | Some (JStr s) \<Rightarrow> Inr (if s = [] then counts else dict_set s (dict_get counts s 0 + 1) counts)
      | Some _ \<Rightarrow> Inl TypeError)"

definition collect_row :: "(string \<Rightarrow> real option) \<Rightarrow> execution_row \<Rightarrow> stage_times \<Rightarrow> py_error + stage_times" where
  "collect_row ar_float row acc =
     py_bind (section_json (xr_meta row ''dispatch'')) (\<lambda>dispatch_meta.
     py_bind (section_json (xr_meta row ''simulator'')) (\<lambda>simulator_meta.
     py_bind (section_json (xr_meta row ''funnel'')) (\<lambda>funnel_meta.
     py_bind (section_json (map_of funnel_meta ''stages'')) (\<lambda>stage_meta.
     py_bind (optional_time ar_float dispatch_meta ''queue_wait_ms'') (\<lambda>queue_wait.
     py_bind (optional_time ar_float simulator_meta ''materialize_ms'') (\<lambda>materialize.
     py_bind (optional_time ar_float stage_meta ''full_suite_ms'') (\<lambda>full_suite.
     py_bind (count_failed_stage (map_of funnel_meta ''failed_stage'') (sg_failed_stages acc)) (\<lambda>failed_stages.
       Inr \<lparr>sg_queue_waits = sg_queue_waits acc @ queue_wait, sg_materialize = sg_materialize acc @ materialize,
            sg_full_suite = sg_full_suite acc @ full_suite, sg_failed_stages = failed_stages\<rparr>))))))))"

fun collect_rows :: "(string \<Rightarrow> real option) \<Rightarrow> execution_row list \<Rightarrow> stage_times \<Rightarrow> py_error + stage_times" where
  "collect_rows ar_float [] acc = Inr acc"
| "collect_rows ar_float (row # rows) acc = py_bind (collect_row ar_float row acc) (collect_rows ar_float rows)"

fun generation_times :: "(string \<Rightarrow> real option) \<Rightarrow> candidate_row list \<Rightarrow> py_error + real list" where
  "generation_times ar_float [] = Inr []"
| "generation_times ar_float (row # rows) =
     (case cr_metadata row ''generation_seconds'' of
        None \<Rightarrow> generation_times ar_float rows
      | Some JNull \<Rightarrow> generation_times ar_float rows
      | Some j \<Rightarrow> py_bind (py_float ar_float j) (\<lambda>x. py_bind (generation_times ar_float rows) (\<lambda>xs. Inr (x * 1000 # xs))))"

text \<open>\<open>sum(xs) / max(len(xs), 1)\<close>.\<close>

definition average :: "real list \<Rightarrow> real" where
  "average xs = sum_list xs / of_nat (max (length xs) 1)"

definition finished_times :: "execution_row list \<Rightarrow> real list" where
  "finished_times rows = concat (map (\<lambda>r. case xr_finished_at r of None \<Rightarrow> [] | Some t \<Rightarrow> [t]) rows)"

definition wall_time :: "real list \<Rightarrow> real \<Rightarrow> py_error + real \<Rightarrow> py_error + real" where
  "wall_time finished created_at seed_seconds =
     (if finished \<noteq> [] then Inr (Max (set finished) - created_at) else py_bind seed_seconds (\<lambda>s. Inr (max 1 s)))"

definition per_minute :: "nat \<Rightarrow> real \<Rightarrow> real" where
  "per_minute n wall_seconds = (if wall_seconds = 0 then 0 else of_nat n / wall_seconds * 60)"

definition utilization :: "real \<Rightarrow> real \<Rightarrow> int \<Rightarrow> real" where
  "utilization total_runtime wall_seconds executor_cores = min 1 (total_runtime / max (wall_seconds * of_int executor_cores) 1)"

definition collect_fixture_metrics ::
    "(string \<Rightarrow> real option) \<Rightarrow> string \<Rightarrow> string \<Rightarrow> metadata_db \<Rightarrow> int \<Rightarrow> py_error + fixture_metrics" where
  "collect_fixture_metrics ar_float task_id name db executor_cores =
     (case map_of (db_tasks db) task_id of
        None \<Rightarrow> Inl TypeError
      | Some task \<Rightarrow>
          let execution_rows = task_executions db task_id; candidate_rows = task_candidates db task_id;
              accepted_count = length (filter pr_accepted (task_decisions db task_id));
              execution_count = length execution_rows; candidate_count = length candidate_rows;
              total_runtime = sum_list (map (\<lambda>r. case xr_runtime r of None \<Rightarrow> 0 | Some x \<Rightarrow> x) execution_rows)
          in py_bind (section_json (tr_metadata task ''timings'')) (\<lambda>seed_timings.
             py_bind (section_json (tr_metadata task ''snapshot'')) (\<lambda>snapshot_meta.
             let seed_total = py_float ar_float (dict_get seed_timings ''seed_total_seconds'' (JFloat 0)) in
             py_bind (wall_time (finished_times execution_rows) (tr_created_at task) seed_total) (\<lambda>wall_seconds.
             py_bind (collect_rows ar_float execution_rows
                \<lparr>sg_queue_waits = [], sg_materialize = [], sg_full_suite = [], sg_failed_stages = []\<rparr>) (\<lambda>collected.
             py_bind (generation_times ar_float candidate_rows) (\<lambda>generation.
             py_bind seed_total (\<lambda>seed_seconds.
             py_bind (py_float ar_float (dict_get seed_timings ''coverage_total_seconds'' (JFloat 0))) (\<lambda>coverage_seconds.
             py_bind (int_or_zero (dict_get snapshot_meta ''bytes'' (JInt 0))) (\<lambda>bytes.
             py_bind (int_or_zero (dict_get snapshot_meta ''files'' (JInt 0))) (\<lambda>files.
               let hotspots = [(''seed_ms'', seed_seconds * 1000), (''coverage_ms'', coverage_seconds * 1000),
                     (''generation_ms'', sum_list generation), (''queue_wait_ms'', sum_list (sg_queue_waits collected)),
                     (''executor_ms'', total_runtime * 1000), (''full_suite_ms'', sum_list (sg_full_suite collected)),
                     (''materialize_ms'', sum_list (sg_materialize collected))]
               in Inr \<lparr>fm_name = name, fm_task_id = task_id, fm_status = tr_status task,
                    fm_candidates_generated = candidate_count, fm_executions = execution_count, fm_accepted = accepted_count,
                    fm_wall_seconds = wall_seconds,
                    fm_candidates_per_minute = per_minute candidate_count wall_seconds,
                    fm_executions_per_minute = per_minute execution_count wall_seconds,
                    fm_executor_utilization = utilization total_runtime wall_seconds executor_cores,
                    fm_full_suite_runs_per_accepted =
                      (if accepted_count = 0 then 0 else of_nat (length (sg_full_suite collected)) / of_nat accepted_count),
                    fm_seed_ms = seed_seconds * 1000, fm_coverage_ms = coverage_seconds * 1000,
                    fm_generation_ms = average generation, fm_queue_wait_ms = average (sg_queue_waits collected),
                    fm_executor_ms = total_runtime / of_nat (max execution_count 1) * 1000,
                    fm_full_suite_ms = average (sg_full_suite collected), fm_materialize_ms = average (sg_materialize collected),
                    fm_snapshot_bytes = bytes, fm_snapshot_files = files,
                    fm_failed_stage_counts = sg_failed_stages collected, fm_hotspots = take 3 (sort_desc snd hotspots)\<rparr>))))))))))"

section \<open>The upgrades\<close>

record upgrade =
  ug_title :: string
  ug_expected_impact :: string
  ug_problem :: string
  ug_implementation :: string
  ug_risk :: string
  ug_rollout :: string
  ug_score :: real

definition fixtures_avg :: "(fixture_metrics \<Rightarrow> real) \<Rightarrow> fixture_metrics list \<Rightarrow> real" where
  "fixtures_avg key fixtures = sum_list (map key fixtures) / of_nat (max (length fixtures) 1)"

definition coverage_upgrade :: "real \<Rightarrow> upgrade" where
  "coverage_upgrade coverage_pressure =
     \<lparr>ug_title = ''Cache and parallelize coverage collection'', ug_expected_impact = ''High'',
      ug_problem = ''Average coverage stage is '' @ format_fixed 1 coverage_pressure
        @ '' ms and happens before every search tree begins.'',
      ug_implementation = ''Cache collected pytest node ids and coverage matrices by task input hash, and run per-node coverage in a bounded worker pool.'',
      ug_risk = ''Low. Ochiai scoring stays the same; only the collection strategy changes.'',
      ug_rollout = ''Ship behind a config flag and compare suspicious-line parity on both fixtures before enabling by default.'',
      ug_score = coverage_pressure\<rparr>"

definition snapshot_upgrade :: "real \<Rightarrow> upgrade" where
  "snapshot_upgrade snapshot_pressure =
     \<lparr>ug_title = ''Replace inline repo snapshots with task-level bundles'',
      ug_expected_impact = (if snapshot_pressure > 50000 then ''High'' else ''Medium''),
      ug_problem = ''Average repo snapshot payload is '' @ format_fixed 0 snapshot_pressure
        @ '' bytes and is re-materialized for every candidate execution.'',
      ug_implementation = ''Store the repo snapshot once per task in CAS and send only a task-level bundle reference plus candidate overlay files.'',
      ug_risk = ''Medium. Transport changes touch both simulator and Linux executor materialization.'',
      ug_rollout = ''Keep inline snapshots as fallback until bundle mode matches current execution results on both fixtures.'',
      ug_score = snapshot_pressure / 1000\<rparr>"

definition suite_upgrade :: "real \<Rightarrow> upgrade" where
  "suite_upgrade full_suite_pressure =
     \<lparr>ug_title = ''Add an impacted-test tier before full-suite execution'',
      ug_expected_impact = (if full_suite_pressure > 0 then ''High'' else ''Medium''),
      ug_problem = ''Average full-suite stage is '' @ format_fixed 1 full_suite_pressure
        @ '' ms and is the most expensive funnel step once targeted tests pass.'',
      ug_implementation = ''Select impacted tests from touched paths and coverage metadata, and run the full suite only for candidates that survive that tier.'',
      ug_risk = ''Medium. Must preserve final full-suite validation for accepted candidates.'',
      ug_rollout = ''Run the impacted tier for observability first, then allow it to short-circuit only non-winning candidates.'',
      ug_score = full_suite_pressure\<rparr>"

definition dispatch_upgrade :: "real \<Rightarrow> upgrade" where
  "dispatch_upgrade queue_pressure =
     \<lparr>ug_title = ''Make dispatch capacity-aware'', ug_expected_impact = ''Medium'',
      ug_problem = ''Average queue wait is '' @ format_fixed 1 queue_pressure
        @ '' ms and current dispatch prefers a single hashed core without load-based fallback.'',
      ug_implementation = ''Track per-core inflight slots and reroute to healthy cores when the preferred core is saturated.'',
      ug_risk = ''Low. It changes scheduling, not verification or policy semantics.'',
      ug_rollout = ''Start with telemetry-only slot tracking, then enable fallback core assignment behind a flag.'',
      ug_score = queue_pressure\<rparr>"

definition pooling_upgrade :: upgrade where
  "pooling_upgrade =
     \<lparr>ug_title = ''Defer Linux warm-resource pooling until measured on Firecracker'', ug_expected_impact = ''Unknown'',
      ug_problem = ''The current audit runs on the simulator path, so clone/restore pressure on real Firecracker is not yet measured.'',
      ug_implementation = ''Add the same stage metrics to the Linux executor and rerun this audit on a Linux/KVM host before changing isolation mechanics.'',
      ug_risk = ''Medium. Warm-resource reuse can affect cleanup and isolation guarantees.'',
      ug_rollout = ''Do not optimize this path until Linux measurements show clone/restore dominating wall time.'',
      ug_score = -1\<rparr>"

definition build_upgrade_candidates :: "fixture_metrics list \<Rightarrow> upgrade list" where
  "build_upgrade_candidates fixtures =
     sort_desc ug_score
       [coverage_upgrade (fixtures_avg fm_coverage_ms fixtures),
        snapshot_upgrade (fixtures_avg (\<lambda>f. of_int (fm_snapshot_bytes f)) fixtures),
        suite_upgrade (fixtures_avg fm_full_suite_ms fixtures),
        dispatch_upgrade (fixtures_avg fm_queue_wait_ms fixtures),
        pooling_upgrade]"

section \<open>The report\<close>

definition baseline_row :: "fixture_metrics \<Rightarrow> string" where
  "baseline_row f =
     ''| '' @ fm_name f @ '' | '' @ fm_status f @ '' | '' @ nat_str (fm_candidates_generated f) @ '' | ''
       @ nat_str (fm_executions f) @ '' | '' @ format_fixed 2 (fm_wall_seconds f) @ '' | ''
       @ format_fixed 1 (fm_candidates_per_minute f) @ '' | '' @ format_fixed 1 (fm_executions_per_minute f) @ '' | ''
       @ format_fixed 1 (fm_executor_utilization f * 100) @ ''% |''"

definition hotspot_lines :: "(json \<Rightarrow> string) \<Rightarrow> fixture_metrics \<Rightarrow> string list" where
  "hotspot_lines ar_dumps f =
     [''### '' @ fm_name f, '''',
      ''- Snapshot: '' @ json_int (fm_snapshot_bytes f) @ '' bytes across '' @ json_int (fm_snapshot_files f) @ '' files'',
      ''- Stage averages: seed '' @ format_fixed 1 (fm_seed_ms f) @ '' ms, coverage '' @ format_fixed 1 (fm_coverage_ms f)
        @ '' ms, generation '' @ format_fixed 1 (fm_generation_ms f) @ '' ms, queue '' @ format_fixed 1 (fm_queue_wait_ms f)
        @ '' ms, executor '' @ format_fixed 1 (fm_executor_ms f) @ '' ms, full suite '' @ format_fixed 1 (fm_full_suite_ms f) @ '' ms'']
     @ (if fm_failed_stage_counts f \<noteq> []
        then [''- Stage dropoff: `'' @ ar_dumps (js_sort (JObj (map (\<lambda>(s, n). (s, JInt (int n))) (fm_failed_stage_counts f)))) @ ''`'']
        else [])
     @ [''- Top measured hotspots: ''
          @ join_text '', '' (map (\<lambda>(name, v). name @ ''='' @ format_fixed 1 v @ '' ms'') (fm_hotspots f)), '''']"

definition upgrade_lines :: "upgrade \<Rightarrow> string list" where
  "upgrade_lines u =
     [''### '' @ ug_title u, '''', ''- Expected impact: '' @ ug_expected_impact u, ''- Problem: '' @ ug_problem u,
      ''- Implementation sketch: '' @ ug_implementation u, ''- Correctness / trust risk: '' @ ug_risk u,
      ''- Rollout / fallback: '' @ ug_rollout u, '''']"

text \<open>An index past the end of the list of upgrades raises; \<open>build_upgrade_candidates\<close> makes five.\<close>

definition roadmap_lines :: "upgrade list \<Rightarrow> py_error + string list" where
  "roadmap_lines upgrades =
     (if length upgrades < 4 then Inl IndexError
      else let title = (\<lambda>i. ''- '' @ ug_title (upgrades ! i))
        in Inr [''## Roadmap'', '''', ''### Do now'', '''', title 0, title 1, '''', ''### Do next'', '''', title 2, title 3, '''',
             ''### Defer'', '''', ''- '' @ ug_title (last upgrades), ''''])"

definition report_lines :: "(json \<Rightarrow> string) \<Rightarrow> (json \<Rightarrow> string) \<Rightarrow> fixture_metrics list \<Rightarrow> json \<Rightarrow> upgrade list \<Rightarrow> py_error + string list" where
  "report_lines ar_dumps ar_dumps_indented fixtures telemetry upgrades =
     py_bind (roadmap_lines upgrades) (\<lambda>roadmap.
       Inr ([''# Kernel Omega Optimization Audit'', '''', ''## Baseline'', '''',
             ''| Fixture | Status | Candidates | Executions | Wall (s) | Cand/min | Exec/min | Utilization |'',
             ''|---|---:|---:|---:|---:|---:|---:|---:|'']
          @ map baseline_row fixtures
          @ ['''', ''## Hotspots'', ''''] @ concat (map (hotspot_lines ar_dumps) fixtures)
          @ [''## Prioritized Upgrade Backlog'', ''''] @ concat (map upgrade_lines upgrades)
          @ roadmap @ [''## Telemetry Snapshot'', '''', ''```json'', ar_dumps_indented (js_sort telemetry), ''```'']))"

definition build_report :: "(json \<Rightarrow> string) \<Rightarrow> (json \<Rightarrow> string) \<Rightarrow> fixture_metrics list \<Rightarrow> json \<Rightarrow> upgrade list \<Rightarrow> py_error + string" where
  "build_report ar_dumps ar_dumps_indented fixtures telemetry upgrades =
     py_bind (report_lines ar_dumps ar_dumps_indented fixtures telemetry upgrades) (\<lambda>ls. Inr (join_text [CHR 0x0A] ls))"

end
