(* ===== verification/AuditMain.thy ===== *)
theory AuditMain
  imports AuditReport
begin

text \<open>
  The audit from start to end (\<open>main\<close> of \<open>scripts/run_optimization_audit.py\<close>). Copying a fixture,
  the administration of the database, flushing the store and writing the two files are parameters.
\<close>

section \<open>Steps that raise and loops that may not end\<close>

type_synonym ('a, 'e) step = "'e \<Rightarrow> ((py_error + 'a) \<times> 'e) option"

definition step_bind :: "('a, 'e) step \<Rightarrow> ('a \<Rightarrow> ('b, 'e) step) \<Rightarrow> ('b, 'e) step" where
  "step_bind m f = (\<lambda>e. case m e of
     None \<Rightarrow> None | Some (Inl err, e) \<Rightarrow> Some (Inl err, e) | Some (Inr x, e) \<Rightarrow> f x e)"

definition step_of :: "('e \<Rightarrow> (py_error + 'a) \<times> 'e) \<Rightarrow> ('a, 'e) step" where
  "step_of f = (\<lambda>e. Some (f e))"

definition step_done :: "('e \<Rightarrow> py_error option \<times> 'e) \<Rightarrow> (unit, 'e) step" where
  "step_done f = (\<lambda>e. case f e of (None, e) \<Rightarrow> Some (Inr (), e) | (Some err, e) \<Rightarrow> Some (Inl err, e))"

definition step_value :: "py_error + 'a \<Rightarrow> ('a, 'e) step" where
  "step_value v = (\<lambda>e. Some (v, e))"

section \<open>The fixtures\<close>

text \<open>The metrics of a fixture, what the seeding printed, and the document of the task.\<close>

type_synonym fixture_report = "fixture_metrics \<times> string \<times> jsonb"

record ('p, 'e) main_env =
  am_audit :: "('p, 'e) audit_env"
  am_float :: "string \<Rightarrow> real option"
  am_dumps :: "json \<Rightarrow> string"
  am_dumps_indented :: "json \<Rightarrow> string"
  am_copy_fixture :: "string \<Rightarrow> 'e \<Rightarrow> (py_error + string) \<times> 'e"
  am_admin_url :: "string \<Rightarrow> string"
  am_ensure_database :: "string \<Rightarrow> 'e \<Rightarrow> py_error option \<times> 'e"
  am_reset_database :: "string \<Rightarrow> 'e \<Rightarrow> py_error option \<times> 'e"
  am_flush :: "string \<Rightarrow> 'e \<Rightarrow> py_error option \<times> 'e"
  am_write_report :: "string \<Rightarrow> 'e \<Rightarrow> py_error option \<times> 'e"
  am_write_json :: "fixture_report list \<Rightarrow> json \<Rightarrow> upgrade list \<Rightarrow> 'e \<Rightarrow> py_error option \<times> 'e"

definition FIXTURES :: "(string \<times> string \<times> string) list" where
  "FIXTURES = [(''sample_repo'', ''src/algo.py'', ''tests/test_algo.py''), (''medium_repo'', ''src/search.py'', ''tests/test_search.py'')]"

definition run_fixture ::
    "('p, 'e) main_env \<Rightarrow> variables \<Rightarrow> real \<Rightarrow> string \<times> string \<times> string \<Rightarrow> (fixture_report, 'e) step" where
  "run_fixture env vars timeout fixture =
     (case fixture of (name, source_relpath, test_relpath) \<Rightarrow>
        let au = am_audit env; url = var_or vars ''OMEGA_POSTGRES_URL'' ''''
        in step_bind (step_of (am_copy_fixture env name)) (\<lambda>repo_copy.
           step_bind (step_of (seed_task au vars repo_copy source_relpath test_relpath)) (\<lambda>(task_id, seed_output).
           step_bind (wait_for_terminal_task au task_id url timeout) (\<lambda>(status, task_metadata).
           step_bind (step_value (py_int (var_or vars ''OMEGA_EXECUTOR_CORES'' ''''))) (\<lambda>cores.
           step_bind (step_of (au_query au url)) (\<lambda>db.
           step_bind (step_value (collect_fixture_metrics (am_float env) task_id name db cores)) (\<lambda>metrics.
             step_value (Inr (metrics\<lparr>fm_status := status\<rparr>, seed_output, task_metadata)))))))))"

fun run_fixtures ::
    "('p, 'e) main_env \<Rightarrow> variables \<Rightarrow> real \<Rightarrow> (string \<times> string \<times> string) list \<Rightarrow> (fixture_report list, 'e) step" where
  "run_fixtures env vars timeout [] = step_value (Inr [])"
| "run_fixtures env vars timeout (fixture # fixtures) =
     step_bind (run_fixture env vars timeout fixture) (\<lambda>report.
     step_bind (run_fixtures env vars timeout fixtures) (\<lambda>rest. step_value (Inr (report # rest))))"

section \<open>The guarded body\<close>

definition check_health :: "json \<Rightarrow> py_error + unit" where
  "check_health telemetry =
     py_bind (js_get telemetry ''ok'' JNull) (\<lambda>ok.
       if ok = JBool True then Inr () else Inl (RuntimeError ''telemetry API did not report healthy''))"

definition audit_body :: "('p, 'e) main_env \<Rightarrow> variables \<Rightarrow> real \<Rightarrow> (string, 'e) step" where
  "audit_body env vars timeout =
     (let au = am_audit env; telemetry_base = ''http://127.0.0.1:'' @ var_or vars ''OMEGA_TELEMETRY_PORT'' ''''
      in step_bind (wait_for_http au (telemetry_base @ ''/healthz'')) (\<lambda>telemetry.
         step_bind (step_value (check_health telemetry)) (\<lambda>_.
         step_bind (run_fixtures env vars timeout FIXTURES) (\<lambda>fixture_reports.
         step_bind (wait_for_http au (telemetry_base @ ''/api/dashboard'')) (\<lambda>dashboard_snapshot.
           let metrics = map fst fixture_reports; upgrades = build_upgrade_candidates metrics
           in step_bind (step_value (build_report (am_dumps env) (am_dumps_indented env) metrics dashboard_snapshot upgrades)) (\<lambda>report_text.
              step_bind (step_done (am_write_report env report_text)) (\<lambda>_.
              step_bind (step_done (am_write_json env fixture_reports dashboard_snapshot upgrades)) (\<lambda>_.
                step_value (Inr report_text)))))))))"

text \<open>\<open>try: body finally: stop_processes(processes)\<close>.\<close>

definition and_stop :: "('p, 'e) audit_env \<Rightarrow> (string \<times> 'p) list \<Rightarrow> ('a, 'e) step \<Rightarrow> ('a, 'e) step" where
  "and_stop env processes body = (\<lambda>e. case body e of
     None \<Rightarrow> None
   | Some (r, e) \<Rightarrow> (case stop_processes env processes e of None \<Rightarrow> None | Some e \<Rightarrow> Some (r, e)))"

text \<open>The processes are started before the guarded body.\<close>

definition run_services :: "('p, 'e) main_env \<Rightarrow> variables \<Rightarrow> real \<Rightarrow> (string, 'e) step" where
  "run_services env vars timeout =
     (let au = am_audit env
      in step_bind (start_simulator au vars) (\<lambda>(simulator_proc, pubkey).
         let vars = vars(''OMEGA_TRUSTED_PUBKEY'' \<mapsto> pubkey)
         in (\<lambda>e. case start_daemons au vars audit_services [] e of
                ((Some err, handles), e) \<Rightarrow> Some (Inl err, e)
              | ((None, daemons), e) \<Rightarrow>
                  and_stop au ((''simulator_executor'', simulator_proc) # daemons) (audit_body env vars timeout) e)))"

definition run_audit :: "('p, 'e) main_env \<Rightarrow> variables \<Rightarrow> string \<Rightarrow> real \<Rightarrow> bool \<Rightarrow> (string, 'e) step" where
  "run_audit env vars profile timeout skip_infra =
     (let au = am_audit env
      in step_bind (step_of (choose_audit_postgres_port au vars)) (\<lambda>port.
         let vars = audit_variables vars profile port; redis_url = var_or vars ''OMEGA_REDIS_URL'' '''';
             database_url = var_or vars ''OMEGA_POSTGRES_URL'' ''''
         in step_bind (if skip_infra then step_value (Inr ()) else step_done (ensure_infra au vars)) (\<lambda>_.
            step_bind (wait_for_redis au redis_url) (\<lambda>_.
            step_bind (wait_for_postgres au (am_admin_url env database_url)) (\<lambda>_.
            step_bind (step_done (am_ensure_database env database_url)) (\<lambda>_.
            step_bind (wait_for_postgres au database_url) (\<lambda>_.
            step_bind (step_done (am_reset_database env database_url)) (\<lambda>_.
            step_bind (step_done (am_flush env redis_url)) (\<lambda>_. run_services env vars timeout)))))))))"

end
