(* ===== verification/AuditProps.thy ===== *)
theory AuditProps
  imports AuditMain Simulator
begin

text \<open>
  What the audit guarantees: it reads back what the programs print, its waits end, it stops what it
  started once everything is up, its metrics stay within bounds, and how it ranks the upgrades.
\<close>

section \<open>Waiting loops\<close>

text \<open>
  A loop whose fruitless attempts take at least \<open>\<delta>\<close> returns: with what an attempt gave or raised,
  or at the deadline. What every attempt preserves holds at the end.
\<close>

lemma poll_returns:
  assumes slow: "\<And>e e'. attempt e = (Inr None, e') \<Longrightarrow> clock e + \<delta> \<le> clock e'" and "0 < (\<delta>::real)"
    and keeps: "\<And>e r e'. P e \<Longrightarrow> attempt e = (r, e') \<Longrightarrow> P e'" and "P e"
  shows "\<exists>r e'. poll_until clock deadline attempt e = Some (r, e') \<and> P e'
    \<and> (case r of Inr None \<Rightarrow> deadline \<le> clock e' | _ \<Rightarrow> \<exists>e1. attempt e1 = (r, e'))"
  using \<open>P e\<close>
proof (induction "nat \<lceil>(deadline - clock e) / \<delta>\<rceil>" arbitrary: e rule: less_induct)
  case less
  show ?case
  proof (cases "clock e < deadline")
    case False
    then show ?thesis using less.prems by (subst poll_until.simps) simp
  next
    case True
    obtain r e1 where a: "attempt e = (r, e1)" by force
    have P: "P e1" using keeps less.prems a by blast
    show ?thesis
    proof (cases "r = Inr None")
      case False
      then have "poll_until clock deadline attempt e = Some (r, e1)"
        using True a by (subst poll_until.simps) (auto split: sum.splits option.splits)
      then show ?thesis using P a False by (auto split: sum.splits option.splits)
    next
      case again: True
      have "(deadline - clock e1) / \<delta> \<le> (deadline - clock e) / \<delta> - 1"
      proof -
        have "deadline - clock e1 \<le> deadline - clock e - \<delta>" using slow [of e e1] a again by simp
        then have "(deadline - clock e1) / \<delta> \<le> (deadline - clock e - \<delta>) / \<delta>"
          using \<open>0 < \<delta>\<close> by (intro divide_right_mono) simp_all
        then show ?thesis using \<open>0 < \<delta>\<close> by (simp add: diff_divide_distrib)
      qed
      moreover have "0 < (deadline - clock e) / \<delta>" using True \<open>0 < \<delta>\<close> by simp
      ultimately have "nat \<lceil>(deadline - clock e1) / \<delta>\<rceil> < nat \<lceil>(deadline - clock e) / \<delta>\<rceil>" by linarith
      moreover have "poll_until clock deadline attempt e = poll_until clock deadline attempt e1"
        using True a again by (subst poll_until.simps) simp
      ultimately show ?thesis using less.hyps [OF _ P] by simp
    qed
  qed
qed

section \<open>The host\<close>

text \<open>
  What is relied on of the host: a sleep takes its time, a query does not turn the clock back, a
  process that has exited stays so, and a killed one has exited.
\<close>

locale audit_host =
  fixes env :: "('p, 'e) audit_env"
  assumes sleep_clock: "au_clock env e + d \<le> au_clock env (au_sleep env d e)"
    and query_clock: "au_query env url e = (r, e') \<Longrightarrow> au_clock env e \<le> au_clock env e'"
    and exited_sleep: "au_exited env p e \<Longrightarrow> au_exited env p (au_sleep env d e)"
    and exited_kill: "au_exited env p e \<Longrightarrow> au_exited env p (au_kill env q e)"
    and killed: "au_exited env p (au_kill env p e)"
begin

lemma task_wait_returns:
  "\<exists>r e'. wait_for_terminal_task env task_id url timeout e = Some (r, e')
    \<and> (case r of
         Inr (status, metadata) \<Rightarrow> status \<in> set terminal_statuses
           \<and> (\<exists>e1 db row. au_query env url e1 = (Inr db, e') \<and> map_of (db_tasks db) task_id = Some row
                \<and> status = tr_status row \<and> metadata = tr_metadata row)
       | Inl err \<Rightarrow> au_clock env e + timeout \<le> au_clock env e' \<or> (\<exists>e1. au_query env url e1 = (Inl err, e')))"
proof -
  let ?attempt = "task_attempt env url task_id" and ?deadline = "au_clock env e + timeout"
  have slow: "au_clock env e1 + 1 / 2 \<le> au_clock env e2" if "?attempt e1 = (Inr None, e2)" for e1 e2
  proof -
    from that obtain e3 r where "au_query env url e1 = (r, e3)" "e2 = au_sleep env (1 / 2) e3"
      by (auto simp: task_attempt_def split: prod.splits sum.splits option.splits if_splits)
    then show ?thesis using query_clock sleep_clock [of e3 "1 / 2"] by fastforce
  qed
  obtain r e' where poll: "poll_until (au_clock env) ?deadline ?attempt e = Some (r, e')"
    and r: "case r of Inr None \<Rightarrow> ?deadline \<le> au_clock env e' | _ \<Rightarrow> \<exists>e1. ?attempt e1 = (r, e')"
    using poll_returns [of ?attempt "au_clock env" "1 / 2" "\<lambda>e. True" e ?deadline, OF slow] by auto
  show ?thesis
  proof (cases r)
    case (Inl err)
    with r obtain e1 where "?attempt e1 = (Inl err, e')" by auto
    then have "au_query env url e1 = (Inl err, e')"
      by (auto simp: task_attempt_def split: prod.splits sum.splits option.splits if_splits)
    then show ?thesis using poll by (auto simp: wait_for_terminal_task_def wait_for_def Inl)
  next
    case (Inr found)
    show ?thesis
    proof (cases found)
      case None
      then show ?thesis using poll r by (auto simp: wait_for_terminal_task_def wait_for_def Inr)
    next
      case (Some x)
      with r Inr obtain e1 where "?attempt e1 = (Inr (Some x), e')" by auto
      then obtain db row where "au_query env url e1 = (Inr db, e')" "map_of (db_tasks db) task_id = Some row"
        "tr_status row \<in> set terminal_statuses" "x = (tr_status row, tr_metadata row)"
        by (auto simp: task_attempt_def split: prod.splits sum.splits option.splits if_splits)
      then show ?thesis using poll by (auto simp: wait_for_terminal_task_def wait_for_def Inr Some)
    qed
  qed
qed

lemma reap_all_stops:
  "\<exists>e'. reap_all env deadline processes e = Some e' \<and> (\<forall>(name, p) \<in> set processes. au_exited env p e')
     \<and> (\<forall>p. au_exited env p e \<longrightarrow> au_exited env p e')"
proof (induction processes arbitrary: e)
  case (Cons process processes)
  obtain name proc where process: "process = (name, proc)" by force
  have slow: "au_clock env e1 + 1 / 10 \<le> au_clock env e2" if "exit_attempt env proc e1 = (Inr None, e2)" for e1 e2
    using that sleep_clock [of e1 "1 / 10"] by (auto simp: exit_attempt_def split: if_splits)
  have keeps: "\<forall>p. au_exited env p e \<longrightarrow> au_exited env p e2"
    if "\<forall>p. au_exited env p e \<longrightarrow> au_exited env p e1" "exit_attempt env proc e1 = (r, e2)" for e1 r e2
    using that by (auto simp: exit_attempt_def intro: exited_sleep split: if_splits)
  obtain r e1 where poll: "poll_until (au_clock env) deadline (exit_attempt env proc) e = Some (r, e1)"
    and e1: "\<forall>p. au_exited env p e \<longrightarrow> au_exited env p e1"
  proof -
    have "\<exists>r e1. poll_until (au_clock env) deadline (exit_attempt env proc) e = Some (r, e1)
      \<and> (\<forall>p. au_exited env p e \<longrightarrow> au_exited env p e1)
      \<and> (case r of Inr None \<Rightarrow> deadline \<le> au_clock env e1 | _ \<Rightarrow> \<exists>e2. exit_attempt env proc e2 = (r, e1))"
      by (rule poll_returns [where \<delta> = "1 / 10"]) (fact slow, simp, rule keeps, simp_all)
    then show thesis using that by blast
  qed
  let ?e2 = "if au_exited env proc e1 then e1 else au_kill env proc e1"
  have e2: "au_exited env proc ?e2" "\<forall>p. au_exited env p e \<longrightarrow> au_exited env p ?e2"
    using e1 killed exited_kill by auto
  obtain e' where rest: "reap_all env deadline processes ?e2 = Some e'" "\<forall>(name, p) \<in> set processes. au_exited env p e'"
    "\<forall>p. au_exited env p ?e2 \<longrightarrow> au_exited env p e'"
    using Cons.IH [of ?e2] by blast
  then show ?case using poll e2 by (auto simp: process)
qed simp

lemma stop_processes_stops:
  "\<exists>e'. stop_processes env processes e = Some e' \<and> (\<forall>(name, p) \<in> set processes. au_exited env p e')"
  using reap_all_stops unfolding stop_processes_def Let_def by blast

end

section \<open>A host in memory\<close>

record host =
  ho_clock :: real
  ho_exited :: "string set"
  ho_ledger :: "real \<Rightarrow> metadata_db"
  ho_printed :: string

text \<open>Processes are known by their names; one that is asked to terminate does not.\<close>

definition mem_host :: "(string, host) audit_env" where
  "mem_host =
     \<lparr>au_clock = ho_clock, au_sleep = (\<lambda>d h. h\<lparr>ho_clock := ho_clock h + max 0 d\<rparr>),
      au_command = (\<lambda>cmd vars h. (\<lparr>cp_returncode = 0, cp_stdout = ho_printed h, cp_stderr = []\<rparr>, h)),
      au_bind = (\<lambda>port h. (None, h)), au_url_port = (\<lambda>url. Inr None), au_json = (\<lambda>s. Inl ValueError), au_repr = (\<lambda>j. []),
      au_ping = (\<lambda>url h. (Inr True, h)), au_connect = (\<lambda>url h. (None, h)), au_http_get = (\<lambda>url h. (Inr (JObj [(''ok'', JBool False)]), h)),
      au_query = (\<lambda>url h. (Inr (ho_ledger h (ho_clock h)), h)), au_popen = (\<lambda>name args vars h. (Inr name, h)),
      au_exited = (\<lambda>p h. p \<in> ho_exited h), au_readline = (\<lambda>p h. (''[PubKey: ab12]'', h)), au_terminate = (\<lambda>p h. h),
      au_kill = (\<lambda>p h. h\<lparr>ho_exited := insert p (ho_exited h)\<rparr>), au_python = ''python'', au_log = (\<lambda>name. name)\<rparr>"

lemma mem_host_simps [simp]:
  "au_clock mem_host = ho_clock" "au_sleep mem_host d h = h\<lparr>ho_clock := ho_clock h + max 0 d\<rparr>"
  "au_http_get mem_host url h = (Inr (JObj [(''ok'', JBool False)]), h)"
  "au_query mem_host url h = (Inr (ho_ledger h (ho_clock h)), h)" "au_popen mem_host name args vars h = (Inr name, h)"
  "au_exited mem_host p h \<longleftrightarrow> p \<in> ho_exited h" "au_readline mem_host p h = (''[PubKey: ab12]'', h)"
  "au_kill mem_host p h = h\<lparr>ho_exited := insert p (ho_exited h)\<rparr>"
  "au_command mem_host cmd given h = (\<lparr>cp_returncode = 0, cp_stdout = ho_printed h, cp_stderr = []\<rparr>, h)"
  by (simp_all add: mem_host_def)

interpretation mem_host: audit_host mem_host
  by unfold_locales auto

section \<open>The wait for a task\<close>

text \<open>
  The wait for a task ends. On a host whose sleeps take their time it returns a terminal status
  that the ledger really had for the task, with the metadata of that row, or raises: what the query
  raised, or the timeout, which is not before its time.
\<close>

theorem task_wait_ends:
  assumes "audit_host env"
  shows "\<exists>r e'. wait_for_terminal_task env task_id url timeout e = Some (r, e')
    \<and> (case r of
         Inr (status, metadata) \<Rightarrow> status \<in> set terminal_statuses
           \<and> (\<exists>e1 db row. au_query env url e1 = (Inr db, e') \<and> map_of (db_tasks db) task_id = Some row
                \<and> status = tr_status row \<and> metadata = tr_metadata row)
       | Inl err \<Rightarrow> au_clock env e + timeout \<le> au_clock env e' \<or> (\<exists>e1. au_query env url e1 = (Inl err, e')))"
  by (rule audit_host.task_wait_returns [OF assms])

definition sample_host :: host where
  "sample_host = \<lparr>ho_clock = 0, ho_exited = {}, ho_ledger = (\<lambda>t. empty_db), ho_printed = []\<rparr>"

theorem task_wait_ends_witness:
  "\<exists>r h'. wait_for_terminal_task mem_host ''task_1'' ''url'' 3 sample_host = Some (r, h') \<and> (\<forall>err. r = Inl err \<longrightarrow> 3 \<le> ho_clock h')"
proof -
  have host: "au_clock mem_host = ho_clock" "ho_clock sample_host = 0" "au_query mem_host url h \<noteq> (Inl err, h')" for url h err h'
    by (simp_all add: sample_host_def)
  from task_wait_ends [OF mem_host.audit_host_axioms, of "''task_1''" "''url''" 3 sample_host]
  obtain r h' where wait: "wait_for_terminal_task mem_host ''task_1'' ''url'' 3 sample_host = Some (r, h')"
    and "\<And>err. r = Inl err \<Longrightarrow> au_clock mem_host sample_host + 3 \<le> au_clock mem_host h' \<or> (\<exists>e1. au_query mem_host ''url'' e1 = (Inl err, h'))"
    by (elim exE conjE) (rule that, assumption, simp)
  then have "r = Inl err \<longrightarrow> 3 \<le> ho_clock h'" for err by (auto simp: host)
  with wait show ?thesis by blast
qed

section \<open>Stopping\<close>

text \<open>
  What is started is stopped, once everything is up: after the body, whatever it raised, the
  simulator and every daemon have exited. But when a daemon does not come up the run ends at once,
  and the simulator and the daemons started before it are left as they are.
\<close>

theorem audit_stops_what_it_started:
  assumes "audit_host (am_audit env)"
    and "start_simulator (am_audit env) vars e = Some (Inr (proc, pubkey), e1)"
  shows "case start_daemons (am_audit env) (vars(''OMEGA_TRUSTED_PUBKEY'' \<mapsto> pubkey)) audit_services [] e1 of
      ((Some err, started), e2) \<Rightarrow> run_services env vars timeout e = Some (Inl err, e2)
    | ((None, daemons), e2) \<Rightarrow>
        map fst daemons = audit_services
        \<and> (\<forall>r e3. audit_body env (vars(''OMEGA_TRUSTED_PUBKEY'' \<mapsto> pubkey)) timeout e2 = Some (r, e3) \<longrightarrow>
             (\<exists>e4. run_services env vars timeout e = Some (r, e4) \<and> au_exited (am_audit env) proc e4
                \<and> (\<forall>(name, p) \<in> set daemons. au_exited (am_audit env) p e4)))"
proof -
  let ?au = "am_audit env" and ?vars = "vars(''OMEGA_TRUSTED_PUBKEY'' \<mapsto> pubkey)"
  have names: "map fst daemons = map fst handles @ services"
    if "start_daemons ?au v services handles e1 = ((None, daemons), e2)" for v services handles e1 daemons e2
    using that by (induction services arbitrary: handles e1) (auto simp: Let_def split: prod.splits sum.splits if_splits)
  obtain started daemons e2 where d: "start_daemons ?au ?vars audit_services [] e1 = ((started, daemons), e2)"
    by (metis surj_pair)
  have services: "run_services env vars timeout e = (case started of
      Some err \<Rightarrow> Some (Inl err, e2)
    | None \<Rightarrow> and_stop ?au ((''simulator_executor'', proc) # daemons) (audit_body env ?vars timeout) e2)"
    using assms(2) d by (cases started) (simp_all add: run_services_def step_bind_def Let_def)
  show ?thesis
  proof (cases started)
    case (Some err)
    then show ?thesis using services d by simp
  next
    case None
    have "\<exists>e4. run_services env vars timeout e = Some (r, e4) \<and> au_exited ?au proc e4 \<and> (\<forall>(name, p) \<in> set daemons. au_exited ?au p e4)"
      if "audit_body env ?vars timeout e2 = Some (r, e3)" for r e3
      using audit_host.stop_processes_stops [OF assms(1), of "(''simulator_executor'', proc) # daemons" e3] that services None
      by (auto simp: and_stop_def)
    moreover have "map fst daemons = audit_services" using names [of ?vars audit_services "[]" e1 daemons e2] d None by simp
    ultimately show ?thesis unfolding d None prod.case option.case by blast
  qed
qed

definition sample_main :: "(string, host) main_env" where
  "sample_main =
     \<lparr>am_audit = mem_host, am_float = (\<lambda>s. None), am_dumps = (\<lambda>j. []), am_dumps_indented = (\<lambda>j. []),
      am_copy_fixture = (\<lambda>name h. (Inr name, h)), am_admin_url = id, am_ensure_database = (\<lambda>url h. (None, h)),
      am_reset_database = (\<lambda>url h. (None, h)), am_flush = (\<lambda>url h. (None, h)), am_write_report = (\<lambda>text h. (None, h)),
      am_write_json = (\<lambda>fs j us h. (None, h))\<rparr>"

lemma simulator_starts: "start_simulator mem_host vars h = Some (Inr (''simulator_executor'', ''ab12''), h)"
proof -
  have "search match_pubkey ''[PubKey: ab12]'' = Some ''ab12''" by code_simp
  then have "poll_until ho_clock (ho_clock h + 20) (pubkey_attempt mem_host ''simulator_executor'') h = Some (Inr (Some ''ab12''), h)"
    by (subst poll_until.simps) (simp add: pubkey_attempt_def)
  then show ?thesis by (simp add: start_simulator_def start_process_def)
qed

theorem audit_stops_what_it_started_witness:
  "\<exists>h'. run_services sample_main Map.empty 10 sample_host = Some (Inl (RuntimeError ''telemetry API did not report healthy''), h')
     \<and> ''simulator_executor'' \<in> ho_exited h'"
proof -
  let ?vars = "[''OMEGA_TRUSTED_PUBKEY'' \<mapsto> ''ab12'']"
  have host: "am_audit sample_main = mem_host" by (simp add: sample_main_def)
  obtain daemons h2 where daemons: "start_daemons mem_host ?vars audit_services [] sample_host = ((None, daemons), h2)"
    by (simp add: audit_services_def start_process_def Let_def sample_host_def)
  have "poll_until ho_clock (ho_clock h2 + 30) (http_attempt mem_host url) h2 = Some (Inr (Some (JObj [(''ok'', JBool False)])), h2)" for url
    by (subst poll_until.simps) (simp add: http_attempt_def)
  then have body: "audit_body sample_main ?vars 10 h2 = Some (Inl (RuntimeError ''telemetry API did not report healthy''), h2)"
    by (simp add: audit_body_def host Let_def step_bind_def wait_for_http_def wait_for_def step_value_def check_health_def dict_get_def)
  show ?thesis
    using audit_stops_what_it_started [of sample_main Map.empty sample_host "''simulator_executor''" "''ab12''" sample_host 10, unfolded host, OF mem_host.audit_host_axioms simulator_starts]
      daemons body by auto
qed

section \<open>The seeded task\<close>

lemma takeWhile_hex:
  "\<forall>c \<in> set digits. is_hex c \<Longrightarrow> \<not> is_hex d \<Longrightarrow> takeWhile is_hex (digits @ d # rest) = digits"
  by (induction digits) auto

lemma match_task_id_seeded:
  assumes "digits \<noteq> []" and "\<forall>c \<in> set digits. is_hex c"
  shows "match_task_id (''Seeded task task_'' @ digits @ CHR '' '' # tail) = Some (''task_'' @ digits)"
proof -
  have "\<not> is_hex CHR '' ''" by (simp add: is_hex_def is_digit_def)
  then show ?thesis using takeWhile_hex [OF assms(2)] assms(1) by (simp add: match_task_id_def Let_def)
qed

lemma match_pubkey_printed:
  assumes "key \<noteq> []" and "\<forall>c \<in> set key. is_hex c"
  shows "match_pubkey (''[PubKey: '' @ key @ CHR '']'' # tail) = Some key"
proof -
  obtain c cs where key: "key = c # cs" using assms(1) by (cases key) simp
  have "\<not> py_isspace c" using assms(2) by (auto simp: key is_hex_def is_digit_def py_isspace_def)
  then have "dropWhile py_isspace (CHR '' '' # key @ CHR '']'' # tail) = key @ CHR '']'' # tail"
    by (simp add: key py_isspace_def)
  moreover have "\<not> is_hex CHR '']''" "\<not> py_isspace CHR '']''" by (simp_all add: is_hex_def is_digit_def py_isspace_def)
  ultimately show ?thesis using takeWhile_hex [OF assms(2)] assms(1) by (simp add: match_pubkey_def Let_def)
qed

text \<open>
  The audit reads back what the programs it starts print: from the output of a successful seeding
  exactly the task identifier that the command line drew, whatever follows, and from the simulator's
  first line exactly its public key.
\<close>

theorem audit_reads_what_the_programs_print:
  assumes "digits \<noteq> []" and "\<forall>c \<in> set digits. is_hex c" and "key \<noteq> []" and "\<forall>c \<in> set key. is_hex c"
    and "au_command env (seed_cmd env repo source test) (Some vars) e
      = (\<lparr>cp_returncode = 0, cp_stdout = seed_message (''task_'' @ digits) report plan @ rest, cp_stderr = errors\<rparr>, e')"
    and "au_readline env proc e1 = (key_message key @ [CHR 0x0A], e2)"
  shows "seed_task env vars repo source test e
      = (Inr (''task_'' @ digits, py_strip (seed_message (''task_'' @ digits) report plan @ rest)), e')
    \<and> pubkey_attempt env proc e1 = (Inr (Some key), e2)"
proof
  obtain tail where tail: "seed_message (''task_'' @ digits) report plan @ rest = ''Seeded task task_'' @ digits @ CHR '' '' # tail"
    by (simp add: seed_message_def)
  have "search match_task_id (seed_message (''task_'' @ digits) report plan @ rest) = Some (''task_'' @ digits)"
    unfolding tail using match_task_id_seeded [OF assms(1,2)] by (simp only: append.simps search.simps option.case)
  then show "seed_task env vars repo source test e
      = (Inr (''task_'' @ digits, py_strip (seed_message (''task_'' @ digits) report plan @ rest)), e')"
    by (simp only: seed_task_def assms(5) prod.case completed.simps option.case if_False simp_thms)
  have "search match_pubkey (''[PubKey: '' @ key @ CHR '']'' # tail) = Some key" for tail
    using match_pubkey_printed [OF assms(3,4)] by (simp only: append.simps search.simps option.case)
  then have "search match_pubkey (key_message key @ [CHR 0x0A]) = Some key"
    by (simp add: key_message_def match_pubkey_def)
  then show "pubkey_attempt env proc e1 = (Inr (Some key), e2)"
    using assms(6) by (simp add: pubkey_attempt_def key_message_def)
qed

definition sample_report :: coverage_build_report where
  "sample_report = \<lparr>cb_matrix = [], cb_suspicious_lines = [3, 5], cb_failed_count = 1, cb_passed_count = 2, cb_node_ids = [], cb_timings = []\<rparr>"

theorem audit_reads_what_the_programs_print_witness:
  "\<exists>out (h :: host) env. seed_task env Map.empty ''repo'' ''s.py'' ''t.py'' h = (Inr (''task_0a1b2c3d'', out), h)
    \<and> pubkey_attempt env ''simulator_executor'' h = (Inr (Some ''ab12''), h)"
proof -
  let ?env = "mem_host\<lparr>au_readline := (\<lambda>p h. (key_message ''ab12'' @ [CHR 0x0A], h))\<rparr>"
  let ?host = "sample_host\<lparr>ho_printed := seed_message ''task_0a1b2c3d'' sample_report (legacy_task_plan [3, 5] sample_budgets) @ [CHR 0x0A]\<rparr>"
  have seeding: "au_command ?env (seed_cmd ?env ''repo'' ''s.py'' ''t.py'') (Some Map.empty) ?host
    = (\<lparr>cp_returncode = 0, cp_stdout = seed_message (''task_'' @ ''0a1b2c3d'') sample_report (legacy_task_plan [3, 5] sample_budgets) @ [CHR 0x0A],
        cp_stderr = []\<rparr>, ?host)"
    by simp
  have hex: "\<forall>c \<in> set ''0a1b2c3d''. is_hex c" "\<forall>c \<in> set ''ab12''. is_hex c" by (simp_all add: is_hex_def is_digit_def)
  have "au_readline ?env ''simulator_executor'' ?host = (key_message ''ab12'' @ [CHR 0x0A], ?host)" by simp
  from audit_reads_what_the_programs_print [OF list.discI [OF refl] hex(1) list.discI [OF refl] hex(2) seeding this]
  show ?thesis unfolding append.simps by blast
qed

section \<open>The ranking\<close>

lemma average_nonneg: "\<forall>x \<in> set xs. 0 \<le> f x \<Longrightarrow> 0 \<le> fixtures_avg f xs"
  unfolding fixtures_avg_def by (intro divide_nonneg_nonneg sum_list_nonneg) auto

lemma sort_desc_last:
  assumes "\<forall>x \<in> set xs. f y < f x"
  shows "sort_desc f (xs @ [y]) = sort_desc f xs @ [y]"
  using assms
proof (induction xs)
  case (Cons x xs)
  have "insort_key (\<lambda>x. - f x) x (zs @ [y]) = insort_key (\<lambda>x. - f x) x zs @ [y]" if "f y < f x" for zs
    using that by (induction zs) auto
  then show ?case using Cons by (simp add: sort_desc_def)
qed (simp add: sort_desc_def)

lemma four_elements: "length xs = 4 \<Longrightarrow> \<exists>a b c d. xs = [a, b, c, d]"
  by (auto simp: length_Suc_conv numeral_eq_Suc)

text \<open>
  The report ranks the upgrades by what was measured and defers the unmeasured one. For metrics
  that are not negative the ranking holds the four measured upgrades in descending order of their
  scores, equal scores in their listed order, and last the pooling of warm resources, which has no
  measurement; the report can always be built and its roadmap ends with that one.
\<close>

theorem roadmap_defers_the_unmeasured_upgrade:
  assumes "\<forall>f \<in> set fixtures. 0 \<le> fm_coverage_ms f \<and> 0 \<le> fm_snapshot_bytes f \<and> 0 \<le> fm_full_suite_ms f \<and> 0 \<le> fm_queue_wait_ms f"
  shows "\<exists>measured printed. build_upgrade_candidates fixtures = measured @ [pooling_upgrade]
    \<and> length measured = 4 \<and> sorted_wrt (\<lambda>u v. ug_score v \<le> ug_score u) measured \<and> (\<forall>u \<in> set measured. 0 \<le> ug_score u)
    \<and> roadmap_lines (build_upgrade_candidates fixtures) =
        Inr ([''## Roadmap'', '''', ''### Do now'', ''''] @ map (\<lambda>u. ''- '' @ ug_title u) (take 2 measured)
          @ ['''', ''### Do next'', ''''] @ map (\<lambda>u. ''- '' @ ug_title u) (drop 2 measured)
          @ ['''', ''### Defer'', '''', ''- Defer Linux warm-resource pooling until measured on Firecracker'', ''''])
    \<and> build_report dumps dumps_indented fixtures telemetry (build_upgrade_candidates fixtures) = Inr printed"
proof -
  let ?us = "[coverage_upgrade (fixtures_avg fm_coverage_ms fixtures),
        snapshot_upgrade (fixtures_avg (\<lambda>f. of_int (fm_snapshot_bytes f)) fixtures),
        suite_upgrade (fixtures_avg fm_full_suite_ms fixtures), dispatch_upgrade (fixtures_avg fm_queue_wait_ms fixtures)]"
  have "0 \<le> fixtures_avg fm_coverage_ms fixtures" "0 \<le> fixtures_avg (\<lambda>f. of_int (fm_snapshot_bytes f)) fixtures"
    "0 \<le> fixtures_avg fm_full_suite_ms fixtures" "0 \<le> fixtures_avg fm_queue_wait_ms fixtures"
    by (rule average_nonneg, use assms in simp)+
  then have scores: "\<forall>u \<in> set ?us. 0 \<le> ug_score u"
    by (simp add: coverage_upgrade_def snapshot_upgrade_def suite_upgrade_def dispatch_upgrade_def)
  moreover have "ug_score pooling_upgrade = -1" by (simp add: pooling_upgrade_def)
  ultimately have "\<forall>u \<in> set ?us. ug_score pooling_upgrade < ug_score u" by force
  from sort_desc_last [OF this]
  have ranking: "build_upgrade_candidates fixtures = sort_desc ug_score ?us @ [pooling_upgrade]"
    by (simp add: build_upgrade_candidates_def)
  obtain a b c d where measured: "sort_desc ug_score ?us = [a, b, c, d]"
    using four_elements [of "sort_desc ug_score ?us"] by auto
  have "ug_title pooling_upgrade = ''Defer Linux warm-resource pooling until measured on Firecracker''" by (simp add: pooling_upgrade_def)
  then have roadmap: "roadmap_lines (build_upgrade_candidates fixtures) =
        Inr ([''## Roadmap'', '''', ''### Do now'', ''''] @ map (\<lambda>u. ''- '' @ ug_title u) (take 2 [a, b, c, d])
          @ ['''', ''### Do next'', ''''] @ map (\<lambda>u. ''- '' @ ug_title u) (drop 2 [a, b, c, d])
          @ ['''', ''### Defer'', '''', ''- Defer Linux warm-resource pooling until measured on Firecracker'', ''''])"
    by (simp add: ranking measured roadmap_lines_def Let_def)
  then obtain printed where "build_report dumps dumps_indented fixtures telemetry (build_upgrade_candidates fixtures) = Inr printed"
    by (simp add: build_report_def report_lines_def)
  moreover have "\<forall>u \<in> set [a, b, c, d]. 0 \<le> ug_score u" using scores by (metis measured set_sort_desc)
  moreover have "sorted_wrt (\<lambda>u v. ug_score v \<le> ug_score u) [a, b, c, d]" using sorted_sort_desc [of ug_score ?us] unfolding measured .
  ultimately show ?thesis using ranking roadmap unfolding measured by (intro exI [of _ "[a, b, c, d]"] exI [of _ printed]) simp
qed

definition sample_metrics :: fixture_metrics where
  "sample_metrics =
     \<lparr>fm_name = ''sample_repo'', fm_task_id = ''task_1'', fm_status = ''merged'', fm_candidates_generated = 2, fm_executions = 2,
      fm_accepted = 1, fm_wall_seconds = 4, fm_candidates_per_minute = 30, fm_executions_per_minute = 30,
      fm_executor_utilization = 1 / 2, fm_full_suite_runs_per_accepted = 1, fm_seed_ms = 50, fm_coverage_ms = 40,
      fm_generation_ms = 3, fm_queue_wait_ms = 10, fm_executor_ms = 900, fm_full_suite_ms = 30, fm_materialize_ms = 2,
      fm_snapshot_bytes = 2000, fm_snapshot_files = 3, fm_failed_stage_counts = [(''targeted_pytest'', 1)],
      fm_hotspots = [(''executor_ms'', 1800)]\<rparr>"

theorem roadmap_defers_the_unmeasured_upgrade_witness:
  "\<exists>printed. build_report (\<lambda>j. []) (\<lambda>j. []) [sample_metrics] JNull (build_upgrade_candidates [sample_metrics]) = Inr printed
     \<and> last (build_upgrade_candidates [sample_metrics]) = pooling_upgrade"
proof -
  have "\<forall>f \<in> set [sample_metrics]. 0 \<le> fm_coverage_ms f \<and> 0 \<le> fm_snapshot_bytes f \<and> 0 \<le> fm_full_suite_ms f \<and> 0 \<le> fm_queue_wait_ms f"
    by (simp add: sample_metrics_def)
  from roadmap_defers_the_unmeasured_upgrade [OF this, of "\<lambda>j. []" "\<lambda>j. []" JNull] show ?thesis by (elim exE conjE) simp
qed

section \<open>The metrics\<close>

lemma sum_count_stage: "sum_list (map snd (dict_set s (Suc (dict_get d s 0)) d)) = Suc (sum_list (map snd d))"
  by (induction d) (auto simp: dict_get_def)

lemma count_failed_stage_bound:
  "count_failed_stage v counts = Inr counts' \<Longrightarrow> sum_list (map snd counts') \<le> sum_list (map snd counts) + 1"
  by (auto simp: count_failed_stage_def sum_count_stage split: option.splits json.splits if_splits)

lemma collect_rows_bounds:
  "collect_rows ar_float rows acc = Inr acc' \<Longrightarrow>
    sum_list (map snd (sg_failed_stages acc')) \<le> sum_list (map snd (sg_failed_stages acc)) + length rows
    \<and> length (sg_full_suite acc') \<le> length (sg_full_suite acc) + length rows"
proof (induction rows arbitrary: acc)
  case (Cons row rows)
  from Cons.prems obtain acc1 where step: "collect_row ar_float row acc = Inr acc1" and rest: "collect_rows ar_float rows acc1 = Inr acc'"
    by (auto simp: py_bind_Inr)
  have suite: "length xs \<le> 1" if "optional_time ar_float d k = Inr xs" for d k xs
    using that by (auto simp: optional_time_def py_bind_Inr split: option.splits)
  have "sum_list (map snd (sg_failed_stages acc1)) \<le> sum_list (map snd (sg_failed_stages acc)) + 1"
    "length (sg_full_suite acc1) \<le> length (sg_full_suite acc) + 1"
    using step by (auto simp: collect_row_def py_bind_Inr dest: suite count_failed_stage_bound)
  then show ?case using Cons.IH [OF rest] by auto
qed simp

text \<open>
  The metrics of a task stay within bounds. Where no recorded runtime is negative, the
  utilisation lies between 0 and 1; the failures counted by stage, and the runs of the full suite per
  accepted candidate, are no more than the task's executions in the ledger; the three hotspots are in
  descending order.
\<close>

theorem metrics_within_bounds:
  assumes "collect_fixture_metrics ar_float task_id name db cores = Inr m"
    and "\<forall>(k, r) \<in> set (db_executions db). \<forall>x. xr_runtime r = Some x \<longrightarrow> 0 \<le> x"
  shows "0 \<le> fm_executor_utilization m \<and> fm_executor_utilization m \<le> 1
    \<and> fm_executions m = length (filter (\<lambda>(k, r). xr_task_id r = task_id) (db_executions db))
    \<and> sum_list (map snd (fm_failed_stage_counts m)) \<le> fm_executions m
    \<and> fm_full_suite_runs_per_accepted m * of_nat (fm_accepted m) \<le> of_nat (fm_executions m)
    \<and> length (fm_hotspots m) = 3 \<and> sorted_wrt (\<lambda>p q. snd q \<le> snd p) (fm_hotspots m)"
proof -
  let ?rows = "task_executions db task_id"
  let ?total = "sum_list (map (\<lambda>r. case xr_runtime r of None \<Rightarrow> 0 | Some x \<Rightarrow> x) ?rows)"
  have rows: "length ?rows = length (filter (\<lambda>(k, r). xr_task_id r = task_id) (db_executions db))"
    by (simp add: task_executions_def filter_map o_def case_prod_unfold)
  have "0 \<le> ?total"
    using assms(2) by (intro sum_list_nonneg) (fastforce simp: task_executions_def split: option.splits)
  then have util: "0 \<le> utilization ?total wall cores" "utilization ?total wall cores \<le> 1" for wall
    by (simp_all add: utilization_def)
  obtain collected wall hotspots where
    c: "collect_rows ar_float ?rows \<lparr>sg_queue_waits = [], sg_materialize = [], sg_full_suite = [], sg_failed_stages = []\<rparr> = Inr collected"
    and m: "fm_executor_utilization m = utilization ?total wall cores" "fm_executions m = length ?rows"
      "fm_failed_stage_counts m = sg_failed_stages collected" "fm_hotspots m = take 3 (sort_desc snd hotspots)" "length hotspots = 7"
      "fm_full_suite_runs_per_accepted m * of_nat (fm_accepted m) \<le> of_nat (length (sg_full_suite collected))"
    using assms(1) by (auto simp: collect_fixture_metrics_def Let_def py_bind_Inr split: option.splits)
  have "sorted_wrt (\<lambda>p q. snd q \<le> snd p) (take 3 (sort_desc snd hotspots))"
    by (rule sorted_wrt_take) (rule sorted_sort_desc)
  then show ?thesis using util m rows collect_rows_bounds [OF c] by auto
qed

definition sample_ledger :: metadata_db where
  "sample_ledger = empty_db
     \<lparr>db_tasks := [(''task_1'', \<lparr>tr_repo_path = [], tr_source_path = [], tr_test_path = [], tr_repo_revision = [], tr_objective = [],
        tr_trigger = [], tr_profile = [], tr_status = ''merged'', tr_created_at = 1, tr_metadata = Map.empty\<rparr>)],
      db_executions := [(''run'', \<lparr>xr_candidate_id = ''c1'', xr_task_id = ''task_1'', xr_status = ''failed'', xr_executor_core = None,
        xr_executor_host = None, xr_executor_port = None, xr_executor_id = None, xr_hardware_isolated = None, xr_started_at = Some 2,
        xr_finished_at = Some 5, xr_success = Some False, xr_runtime = Some 2, xr_tests_passed = None, xr_tests_failed = None,
        xr_artifact_uri = None, xr_error_signature = None,
        xr_meta = [''funnel'' \<mapsto> JObj [(''failed_stage'', JStr ''targeted_pytest'')]]\<rparr>)]\<rparr>"

theorem metrics_within_bounds_witness:
  "\<exists>m. collect_fixture_metrics (\<lambda>s. None) ''task_1'' ''sample_repo'' sample_ledger 1 = Inr m \<and> fm_executor_utilization m \<le> 1
     \<and> sum_list (map snd (fm_failed_stage_counts m)) \<le> 1"
proof -
  obtain m where m: "collect_fixture_metrics (\<lambda>s. None) ''task_1'' ''sample_repo'' sample_ledger 1 = Inr m"
    by (simp add: collect_fixture_metrics_def sample_ledger_def empty_db_def task_executions_def task_candidates_def task_decisions_def
        collect_row_def section_json_def optional_time_def count_failed_stage_def wall_time_def finished_times_def dict_get_def Let_def)
  have "\<forall>(k, r) \<in> set (db_executions sample_ledger). \<forall>x. xr_runtime r = Some x \<longrightarrow> 0 \<le> x"
    "length (filter (\<lambda>(k, r). xr_task_id r = ''task_1'') (db_executions sample_ledger)) = 1"
    by (simp_all add: sample_ledger_def)
  with metrics_within_bounds [OF m] m show ?thesis by auto
qed

end
