(* ===== verification/NodeLock.thy ===== *)
theory NodeLock
  imports ForestWorker
begin

text \<open>
  The expiring lock of a node (\<open>ForestWorker.run\<close>, \<open>set(lock_key, worker_id, nx=True, ex=10)\<close> to
  the \<open>delete\<close> in the \<open>finally\<close>) under interleaving. The other theories run one iteration of a
  worker without interruption and without a clock; here many workers contend for the lock of one
  node, time passes between any two of their commands, and the server drops the lock ten seconds
  after it was taken. The commands are a step relation on the lock as the server holds it and on
  where each worker stands in its code. Workers are named by their identifiers, which are random and
  taken to be distinct.
\<close>

section \<open>The lock and the workers\<close>

definition lock_seconds :: real where
  "lock_seconds = 10"

text \<open>
  Where a worker stands: outside the section; expanding the node under the lock it took at a time;
  past the ownership check of the \<open>finally\<close>, about to delete the key, with the expiry of the lock
  it then found.
\<close>

datatype lock_phase = Outside | Expanding real | Releasing real

record lock_state =
  lk_now :: real
  lk_held :: "(string \<times> real) option"
  lk_phase :: "string \<Rightarrow> lock_phase"

text \<open>What \<open>get(lock_key)\<close> and \<open>set(nx=True)\<close> see: a lock whose expiry has passed is gone.\<close>

definition live_lock :: "lock_state \<Rightarrow> (string \<times> real) option" where
  "live_lock s = (case lk_held s of None \<Rightarrow> None | Some (w, e) \<Rightarrow> if lk_now s < e then Some (w, e) else None)"

definition lock_start :: "real \<Rightarrow> lock_state" where
  "lock_start t = \<lparr>lk_now = t, lk_held = None, lk_phase = \<lambda>_. Outside\<rparr>"

section \<open>The commands\<close>

definition lock_take :: "string \<Rightarrow> lock_state \<Rightarrow> lock_state" where
  "lock_take w s =
     (case live_lock s of
        None \<Rightarrow> s\<lparr>lk_held := Some (w, lk_now s + lock_seconds),
                  lk_phase := (lk_phase s)(w := Expanding (lk_now s))\<rparr>
      | Some _ \<Rightarrow> s)"

definition lock_check :: "string \<Rightarrow> lock_state \<Rightarrow> lock_state" where
  "lock_check w s =
     (case live_lock s of
        Some (v, e) \<Rightarrow> s\<lparr>lk_phase := (lk_phase s)(w := if v = w then Releasing e else Outside)\<rparr>
      | None \<Rightarrow> s\<lparr>lk_phase := (lk_phase s)(w := Outside)\<rparr>)"

definition lock_delete :: "string \<Rightarrow> lock_state \<Rightarrow> lock_state" where
  "lock_delete w s = s\<lparr>lk_held := None, lk_phase := (lk_phase s)(w := Outside)\<rparr>"

definition lock_wait :: "real \<Rightarrow> lock_state \<Rightarrow> lock_state" where
  "lock_wait d s = s\<lparr>lk_now := lk_now s + d\<rparr>"

inductive lock_step :: "lock_state \<Rightarrow> lock_state \<Rightarrow> bool" where
  take: "lk_phase s w = Outside \<Longrightarrow> lock_step s (lock_take w s)"
| check: "lk_phase s w = Expanding t \<Longrightarrow> lock_step s (lock_check w s)"
| delete: "lk_phase s w = Releasing e \<Longrightarrow> lock_step s (lock_delete w s)"
| wait: "0 \<le> d \<Longrightarrow> lock_step s (lock_wait d s)"

inductive_cases lock_stepE: "lock_step s s'"

text \<open>A worker is in the section from the lock it took to the delete or the check that finds another's.\<close>

definition in_section :: "lock_state \<Rightarrow> string \<Rightarrow> bool" where
  "in_section s w \<longleftrightarrow> lk_phase s w \<noteq> Outside"

definition phase_expiry :: "lock_phase \<Rightarrow> real option" where
  "phase_expiry p = (case p of Outside \<Rightarrow> None | Expanding t \<Rightarrow> Some (t + lock_seconds) | Releasing e \<Rightarrow> Some e)"

text \<open>
  No worker of the section has overstayed; and, which is weaker, none of them is late with the
  delete that follows its check.
\<close>

definition timely :: "lock_state \<Rightarrow> bool" where
  "timely s \<longleftrightarrow> (\<forall>w e. phase_expiry (lk_phase s w) = Some e \<longrightarrow> lk_now s < e)"

definition prompt_release :: "lock_state \<Rightarrow> bool" where
  "prompt_release s \<longleftrightarrow> (\<forall>w e. lk_phase s w = Releasing e \<longrightarrow> lk_now s < e)"

definition lock_run :: "(lock_state \<Rightarrow> bool) \<Rightarrow> lock_state \<Rightarrow> lock_state \<Rightarrow> bool" where
  "lock_run ok = (\<lambda>s s'. lock_step s s' \<and> ok s')\<^sup>*\<^sup>*"

lemma phase_expiry_simps [simp]:
  "phase_expiry Outside = None" "phase_expiry (Expanding t) = Some (t + lock_seconds)" "phase_expiry (Releasing e) = Some e"
  by (simp_all add: phase_expiry_def)

lemma lock_start_simps [simp]:
  "lk_now (lock_start t) = t" "lk_held (lock_start t) = None" "lk_phase (lock_start t) w = Outside"
  by (simp_all add: lock_start_def)

lemmas lock_command_defs = lock_take_def lock_check_def lock_delete_def lock_wait_def live_lock_def

lemma lock_run_induct [consumes 1, case_names start step]:
  assumes "lock_run ok s s'" and "P s"
    and "\<And>u u'. lock_run ok s u \<Longrightarrow> lock_step u u' \<Longrightarrow> ok u' \<Longrightarrow> P u \<Longrightarrow> P u'"
  shows "P s'"
  using assms unfolding lock_run_def by (induction rule: rtranclp_induct) blast+

lemma lock_run_step: "lock_run ok s u \<Longrightarrow> lock_step u u' \<Longrightarrow> ok u' \<Longrightarrow> lock_run ok s u'"
  unfolding lock_run_def by (rule rtranclp.rtrancl_into_rtrancl) auto

lemma lock_run_refl [simp]: "lock_run ok s s"
  by (simp add: lock_run_def)

lemma live_lockE:
  assumes "live_lock s = Some (w, e)"
  obtains "lk_held s = Some (w, e)" and "lk_now s < e"
  using assms by (auto simp: live_lock_def split: option.splits if_splits)

section \<open>Mutual exclusion\<close>

text \<open>What holds while the workers keep the time: whoever is in the section holds the lock it took.\<close>

definition exclusive :: "lock_state \<Rightarrow> bool" where
  "exclusive s \<longleftrightarrow> (\<forall>w e. phase_expiry (lk_phase s w) = Some e \<longrightarrow> lk_held s = Some (w, e))"

lemma exclusive_live:
  "exclusive s \<Longrightarrow> timely s \<Longrightarrow> phase_expiry (lk_phase s w) = Some e \<Longrightarrow> live_lock s = Some (w, e)"
  by (auto simp: exclusive_def timely_def live_lock_def)

lemma exclusive_step: "lock_step s s' \<Longrightarrow> timely s \<Longrightarrow> exclusive s \<Longrightarrow> exclusive s'"
proof (induction rule: lock_step.induct)
  case (take s w)
  have "phase_expiry (lk_phase s v) = None" if "live_lock s = None" for v
    using that exclusive_live [of s v] take.prems by (cases "phase_expiry (lk_phase s v)") auto
  with take show ?case by (auto simp: exclusive_def lock_take_def split: option.splits)
next
  case (check s w t)
  then have "live_lock s = Some (w, t + lock_seconds)"
    using exclusive_live [of s w "t + lock_seconds"] by simp
  with check show ?case by (auto simp: exclusive_def lock_check_def elim: live_lockE)
next
  case (delete s w e)
  then have held: "lk_held s = Some (w, e)" by (simp add: exclusive_def)
  have "v = w" if "phase_expiry (lk_phase s v) = Some e'" for v e'
    using delete.prems(2) held that by (auto simp: exclusive_def)
  then have "phase_expiry (lk_phase s v) = None" if "v \<noteq> w" for v
    using that by (cases "phase_expiry (lk_phase s v)") auto
  then show ?case by (auto simp: exclusive_def lock_delete_def)
next
  case (wait d s)
  then show ?case by (simp add: exclusive_def lock_wait_def)
qed

lemma timely_run_exclusive:
  assumes "lock_run timely (lock_start t) s"
  shows "exclusive s \<and> timely s"
  using assms
  by (induction rule: lock_run_induct) (auto simp: exclusive_step, auto simp: exclusive_def timely_def)

text \<open>
  C16. As long as every worker in the section is within the ten seconds of the lock it took, the lock is
  mutual exclusion: a worker in the section holds the live lock, and it is the only one there,
  whatever the workers do and however their commands interleave.
\<close>

theorem lock_excludes_timely_workers:
  assumes "lock_run timely (lock_start t) s" and "in_section s w"
  shows "live_lock s = Some (w, the (phase_expiry (lk_phase s w))) \<and> (\<forall>v. in_section s v \<longleftrightarrow> v = w)"
proof -
  obtain e where e: "phase_expiry (lk_phase s w) = Some e"
    using assms(2) by (cases "lk_phase s w") (auto simp: in_section_def)
  have inv: "exclusive s" "timely s" using timely_run_exclusive [OF assms(1)] by auto
  have live: "live_lock s = Some (w, e)" using exclusive_live [OF inv e] .
  have only: "v = w" if "in_section s v" for v
  proof -
    from that obtain e' where "phase_expiry (lk_phase s v) = Some e'" by (cases "lk_phase s v") (auto simp: in_section_def)
    then show "v = w" using exclusive_live [OF inv, of v e'] live by simp
  qed
  have "\<forall>v. in_section s v \<longleftrightarrow> v = w" using assms(2) only by blast
  then show ?thesis by (simp add: live e)
qed

theorem lock_excludes_timely_workers_witness:
  "live_lock (lock_take ''b'' (lock_take ''a'' (lock_start 0))) = Some (''a'', 10)
    \<and> \<not> in_section (lock_take ''b'' (lock_take ''a'' (lock_start 0))) ''b''"
proof -
  let ?s = "lock_take ''a'' (lock_start 0)"
  have taken: "?s = \<lparr>lk_now = 0, lk_held = Some (''a'', 10), lk_phase = (\<lambda>_. Outside)(''a'' := Expanding 0)\<rparr>"
    by (simp add: lock_command_defs lock_start_def lock_seconds_def)
  have refused: "lock_take ''b'' ?s = ?s"
    unfolding taken by (simp add: lock_command_defs)
  have "timely ?s" by (auto simp: timely_def taken lock_seconds_def)
  then have "lock_run timely (lock_start 0) ?s"
    by (intro lock_run_step [OF lock_run_refl] lock_step.take) auto
  moreover have "in_section ?s ''a''" by (simp add: in_section_def taken)
  ultimately have "live_lock ?s = Some (''a'', the (phase_expiry (lk_phase ?s ''a''))) \<and> (\<forall>v. in_section ?s v \<longleftrightarrow> v = ''a'')"
    by (rule lock_excludes_timely_workers)
  then show ?thesis unfolding refused by (simp add: taken lock_seconds_def)
qed

section \<open>Release\<close>

definition release_owned :: "lock_state \<Rightarrow> bool" where
  "release_owned s \<longleftrightarrow> (\<forall>w e. lk_phase s w = Releasing e \<longrightarrow> lk_held s = Some (w, e))"

lemma release_owned_live:
  "release_owned s \<Longrightarrow> prompt_release s \<Longrightarrow> lk_phase s w = Releasing e \<Longrightarrow> live_lock s = Some (w, e)"
  by (auto simp: release_owned_def prompt_release_def live_lock_def)

lemma release_owned_step:
  "lock_step s s' \<Longrightarrow> prompt_release s \<Longrightarrow> release_owned s \<Longrightarrow> release_owned s'"
proof (induction rule: lock_step.induct)
  case (take s w)
  have "lk_phase s v \<noteq> Releasing e" if "live_lock s = None" for v e
    using that release_owned_live [of s v] take.prems by auto
  with take show ?case by (auto simp: release_owned_def lock_take_def split: option.splits)
next
  case (check s w t)
  then show ?case by (auto simp: release_owned_def lock_check_def live_lock_def split: option.splits if_splits)
next
  case (delete s w e)
  then have held: "lk_held s = Some (w, e)" by (simp add: release_owned_def)
  have "v = w" if "lk_phase s v = Releasing e'" for v e'
    using delete.prems(2) held that by (auto simp: release_owned_def)
  then show ?case by (auto simp: release_owned_def lock_delete_def)
next
  case (wait d s)
  then show ?case by (simp add: release_owned_def lock_wait_def)
qed

lemma prompt_run_owned:
  assumes "lock_run prompt_release (lock_start t) s"
  shows "release_owned s \<and> prompt_release s"
  using assms
  by (induction rule: lock_run_induct) (auto simp: release_owned_step, auto simp: release_owned_def prompt_release_def)

text \<open>
  C18. The check of the \<open>finally\<close> does its work: when every delete follows its check before the lock that was
  found expires, the lock of a worker lasts until that worker deletes it or it expires, however
  long the expansions of the others, whose own locks may have expired long ago.
\<close>

theorem lock_lasts_until_its_holder_deletes_it:
  assumes "lock_run prompt_release (lock_start t) s" and "live_lock s = Some (w, e)" and "lock_step s s'"
  shows "live_lock s' = Some (w, e) \<or> e \<le> lk_now s' \<or> lk_phase s w = Releasing e \<and> s' = lock_delete w s"
  using assms(2)
proof (rule live_lockE)
  assume held: "lk_held s = Some (w, e)" "lk_now s < e"
  from assms(3) show ?thesis
  proof (cases rule: lock_step.cases)
    case (delete v e')
    then show ?thesis using held prompt_run_owned [OF assms(1)] by (auto simp: release_owned_def)
  qed (use held in \<open>auto simp: lock_command_defs\<close>)
qed

theorem lock_lasts_until_its_holder_deletes_it_witness:
  "live_lock (lock_wait 5 (lock_take ''a'' (lock_start 0))) = Some (''a'', 10)"
proof -
  let ?s = "lock_take ''a'' (lock_start 0)"
  have taken: "?s = \<lparr>lk_now = 0, lk_held = Some (''a'', 10), lk_phase = (\<lambda>_. Outside)(''a'' := Expanding 0)\<rparr>"
    by (simp add: lock_command_defs lock_start_def lock_seconds_def)
  have "lock_run prompt_release (lock_start 0) ?s"
    by (intro lock_run_step [OF lock_run_refl] lock_step.take) (auto simp: prompt_release_def taken)
  moreover have "live_lock ?s = Some (''a'', 10)" by (simp add: taken live_lock_def)
  moreover have "lock_step ?s (lock_wait 5 ?s)" by (rule lock_step.wait) simp
  ultimately have "live_lock (lock_wait 5 ?s) = Some (''a'', 10) \<or> 10 \<le> lk_now (lock_wait 5 ?s)
      \<or> lk_phase ?s ''a'' = Releasing 10 \<and> lock_wait 5 ?s = lock_delete ''a'' ?s"
    by (rule lock_lasts_until_its_holder_deletes_it)
  moreover have "lk_now (lock_wait 5 ?s) = 5" by (simp add: taken lock_wait_def)
  moreover have "lk_phase ?s ''a'' \<noteq> Releasing 10" by (simp add: taken)
  ultimately show ?thesis by simp
qed

section \<open>A late delete\<close>

text \<open>
  The check and the delete are two commands. When the lock expires between them, the delete removes
  whatever lock is there by then: no expansion of this run overstays, and yet two workers expand the
  node at once, both within their ten seconds.
\<close>

definition prompt_expansion :: "lock_state \<Rightarrow> bool" where
  "prompt_expansion s \<longleftrightarrow> (\<forall>w t. lk_phase s w = Expanding t \<longrightarrow> lk_now s < t + lock_seconds)"

definition late_release :: "(lock_state \<Rightarrow> lock_state) list" where
  "late_release = [lock_take ''a'', lock_wait 9, lock_check ''a'', lock_wait 1, lock_take ''b'', lock_delete ''a'', lock_take ''c'']"

theorem late_delete_removes_anothers_lock:
  "lock_run prompt_expansion (lock_start 0) (fold (\<lambda>c. c) late_release (lock_start 0))
    \<and> timely (fold (\<lambda>c. c) late_release (lock_start 0))
    \<and> in_section (fold (\<lambda>c. c) late_release (lock_start 0)) ''b''
    \<and> in_section (fold (\<lambda>c. c) late_release (lock_start 0)) ''c''"
proof -
  let ?O = "\<lambda>_ :: string. Outside"
  let ?s1 = "\<lparr>lk_now = 0, lk_held = Some (''a'', 10), lk_phase = ?O(''a'' := Expanding 0)\<rparr>"
  let ?s2 = "?s1\<lparr>lk_now := 9\<rparr>" and ?s3 = "\<lparr>lk_now = 9, lk_held = Some (''a'', 10), lk_phase = ?O(''a'' := Releasing 10)\<rparr>"
  let ?s4 = "?s3\<lparr>lk_now := 10\<rparr>"
  let ?s5 = "\<lparr>lk_now = 10, lk_held = Some (''b'', 20), lk_phase = ?O(''a'' := Releasing 10, ''b'' := Expanding 10)\<rparr>"
  let ?s6 = "\<lparr>lk_now = 10, lk_held = None, lk_phase = ?O(''b'' := Expanding 10)\<rparr>"
  let ?s7 = "\<lparr>lk_now = 10, lk_held = Some (''c'', 20), lk_phase = ?O(''b'' := Expanding 10, ''c'' := Expanding 10)\<rparr>"
  have c: "lock_take ''a'' (lock_start 0) = ?s1" "lock_wait 9 ?s1 = ?s2" "lock_check ''a'' ?s2 = ?s3"
    "lock_wait 1 ?s3 = ?s4" "lock_take ''b'' ?s4 = ?s5" "lock_delete ''a'' ?s5 = ?s6" "lock_take ''c'' ?s6 = ?s7"
    by (auto simp: lock_command_defs lock_start_def lock_seconds_def fun_eq_iff)
  have end_state: "fold (\<lambda>c. c) late_release (lock_start 0) = ?s7"
    unfolding late_release_def by (simp only: fold_simps c)
  have steps: "lock_step (lock_start 0) ?s1" "lock_step ?s1 ?s2" "lock_step ?s2 ?s3" "lock_step ?s3 ?s4"
    "lock_step ?s4 ?s5" "lock_step ?s5 ?s6" "lock_step ?s6 ?s7"
    by (subst c [symmetric], rule lock_step.intros, simp)+
  have ok: "prompt_expansion ?s1" "prompt_expansion ?s2" "prompt_expansion ?s3" "prompt_expansion ?s4"
    "prompt_expansion ?s5" "prompt_expansion ?s6" "prompt_expansion ?s7"
    by (auto simp: prompt_expansion_def lock_seconds_def)
  note run = lock_run_refl [of prompt_expansion "lock_start 0"]
  note run = lock_run_step [OF run steps(1) ok(1)]
  note run = lock_run_step [OF run steps(2) ok(2)]
  note run = lock_run_step [OF run steps(3) ok(3)]
  note run = lock_run_step [OF run steps(4) ok(4)]
  note run = lock_run_step [OF run steps(5) ok(5)]
  note run = lock_run_step [OF run steps(6) ok(6)]
  note run = lock_run_step [OF run steps(7) ok(7)]
  with run show ?thesis
    unfolding end_state by (auto simp: in_section_def timely_def lock_seconds_def)
qed

section \<open>The uninterrupted iteration\<close>

text \<open>
  \<open>with_lock\<close> is one worker's round of these commands with nobody in between: the key holds what
  the lock state says before, and after, as long as the body returns within the ten seconds.
\<close>

definition lock_round :: "string \<Rightarrow> real \<Rightarrow> lock_state \<Rightarrow> lock_state" where
  "lock_round w d s =
     (if live_lock s = None
      then let u = lock_check w (lock_wait d (lock_take w s))
           in (case lk_phase u w of Releasing e \<Rightarrow> lock_delete w u | _ \<Rightarrow> u)
      else lock_take w s)"

lemma with_lock_refines_round:
  assumes "shared_store (we_redis env)"
    and "w_string (we_redis env) w (node_lock_key n) = map_option (Txt \<circ> fst) (live_lock s)"
    and "\<And>v. w_string (we_redis env) (outcome_world (body v)) (node_lock_key n) = w_string (we_redis env) v (node_lock_key n)"
    and "0 \<le> d" and "d < lock_seconds"
  shows "w_string (we_redis env) (outcome_world (with_lock env n body w)) (node_lock_key n)
    = map_option (Txt \<circ> fst) (live_lock (lock_round (we_worker_id env) d s))"
proof -
  let ?R = "we_redis env" and ?k = "node_lock_key n" and ?v = "Txt (we_worker_id env)"
  define v where "v = w\<lparr>w_store := snd (r_setnx ?R ?k ?v (w_store w))\<rparr>"
  show ?thesis
  proof (cases "live_lock s")
    case None
    have locked: "fst (r_setnx ?R ?k ?v (w_store w))" and "w_string ?R v ?k = Some ?v"
      using assms(1,2) None by (simp_all add: shared_store.setnx_value shared_store.setnx_data w_string_def v_def)
    then have held: "w_string ?R (outcome_world (body v)) ?k = Some ?v"
      using assms(3) by simp
    have "lock_round (we_worker_id env) d s = lock_delete (we_worker_id env) (lock_check (we_worker_id env) (lock_wait d (lock_take (we_worker_id env) s)))"
      using None assms(5) by (simp add: lock_round_def Let_def) (simp add: lock_command_defs)
    then have "live_lock (lock_round (we_worker_id env) d s) = None"
      by (simp add: lock_delete_def live_lock_def)
    moreover have "w_string ?R (outcome_world (with_lock env n body w)) ?k = None"
      using locked held assms(1) unfolding v_def
      by (cases "body v") (auto simp: with_lock_def Let_def split_beta v_def w_string_def)
    ultimately show ?thesis by simp
  next
    case (Some x)
    have "\<not> fst (r_setnx ?R ?k ?v (w_store w))" and "w_string ?R v ?k = w_string ?R w ?k"
      using assms(1,2) Some by (auto simp: shared_store.setnx_value shared_store.setnx_data w_string_def v_def)
    with Some show ?thesis
      using assms(2) by (simp add: with_lock_def Let_def split_beta v_def lock_round_def lock_take_def)
  qed
qed

end
