(* ===== verification/JsonText.thy ===== *)
theory JsonText
  imports Signatures
begin

text \<open>
  The text of JSON documents: the printer of \<open>json.dumps\<close> with its default separators and ASCII
  output, and the reader of \<open>json.loads\<close>. The other theories exchange the value that a text
  denotes; the theorems here are what entitles them to: a printed document is read back as the same
  value, and no proper beginning of a printed object is read as anything. The text of a float is a
  parameter in both directions. Characters are those below 256, so the reader refuses an escape of a
  larger one; it refuses \<open>NaN\<close> and the infinities too, which are no reals. The depth at which the
  library gives up is not modelled.
\<close>

section \<open>Printing\<close>

fun json_text :: "(real \<Rightarrow> string) \<Rightarrow> json \<Rightarrow> string" where
  "json_text ft JNull = ''null''"
| "json_text ft (JBool b) = json_bool b"
| "json_text ft (JInt n) = json_int n"
| "json_text ft (JFloat x) = ft x"
| "json_text ft (JStr s) = json_quote s"
| "json_text ft (JArr xs) = ''['' @ join_text '', '' (map (json_text ft) xs) @ '']''"
| "json_text ft (JObj d) = ''{'' @ join_text '', '' (map (\<lambda>(k, v). json_quote k @ '': '' @ json_text ft v) d) @ ''}''"

section \<open>Reading\<close>

definition is_json_space :: "char \<Rightarrow> bool" where
  "is_json_space c \<longleftrightarrow> code_point c \<in> {32, 9, 10, 13}"

definition skip_space :: "string \<Rightarrow> string" where
  "skip_space s = dropWhile is_json_space s"

definition hex_digit_value :: "char \<Rightarrow> nat option" where
  "hex_digit_value c =
     (let n = code_point c
      in if 48 \<le> n \<and> n \<le> 57 then Some (n - 48)
         else if 97 \<le> n \<and> n \<le> 102 then Some (n - 87)
         else if 65 \<le> n \<and> n \<le> 70 then Some (n - 55)
         else None)"

definition hex4 :: "char \<Rightarrow> char \<Rightarrow> char \<Rightarrow> char \<Rightarrow> nat option" where
  "hex4 a b c d =
     (case (hex_digit_value a, hex_digit_value b, hex_digit_value c, hex_digit_value d) of
        (Some h, Some i, Some j, Some k) \<Rightarrow> Some (((h * 16 + i) * 16 + j) * 16 + k)
      | _ \<Rightarrow> None)"

definition short_escape :: "char \<Rightarrow> char option" where
  "short_escape c =
     (if c = quote_mark \<or> c = backslash \<or> c = CHR ''/'' then Some c
      else if c = CHR ''b'' then Some (CHR 0x08)
      else if c = CHR ''f'' then Some (CHR 0x0C)
      else if c = CHR ''n'' then Some (CHR 0x0A)
      else if c = CHR ''r'' then Some (CHR 0x0D)
      else if c = CHR ''t'' then Some (CHR 0x09)
      else None)"

definition scan_cons :: "char \<Rightarrow> (string \<times> string) option \<Rightarrow> (string \<times> string) option" where
  "scan_cons c r = map_option (apfst (Cons c)) r"

text \<open>The string after its opening quote, and what follows the closing one.\<close>

fun scan_string :: "string \<Rightarrow> (string \<times> string) option" where
  "scan_string [] = None"
| "scan_string (c # s) =
     (if c = quote_mark then Some ([], s)
      else if c = backslash then
        (case s of
           [] \<Rightarrow> None
         | e # t \<Rightarrow>
             if e = CHR ''u'' then
               (case t of
                  h1 # h2 # h3 # h4 # u \<Rightarrow>
                    (case hex4 h1 h2 h3 h4 of
                       Some n \<Rightarrow> if n < 256 then scan_cons (char_of n) (scan_string u) else None
                     | None \<Rightarrow> None)
                | _ \<Rightarrow> None)
             else
               (case short_escape e of
                  None \<Rightarrow> None
                | Some x \<Rightarrow> scan_cons x (scan_string t)))
      else if code_point c < 32 then None
      else scan_cons c (scan_string s))"

text \<open>
  A number: a sign, an integer part without leading zeros, and where they match a fraction and an
  exponent; with either of them it is a float.
\<close>

definition scan_fraction :: "string \<Rightarrow> string" where
  "scan_fraction s =
     (case s of
        c # t \<Rightarrow> if c = CHR ''.'' \<and> takeWhile is_digit t \<noteq> [] then c # takeWhile is_digit t else []
      | [] \<Rightarrow> [])"

definition scan_exponent :: "string \<Rightarrow> string" where
  "scan_exponent s =
     (case s of
        c # t \<Rightarrow>
          if c \<noteq> CHR ''e'' \<and> c \<noteq> CHR ''E'' then []
          else
            (let sign = (case t of d # u \<Rightarrow> if d = CHR ''+'' \<or> d = CHR ''-'' then [d] else [] | [] \<Rightarrow> []);
                 digits = takeWhile is_digit (drop (length sign) t)
             in if digits = [] then [] else c # sign @ digits)
      | [] \<Rightarrow> [])"

definition scan_digits :: "string \<Rightarrow> string" where
  "scan_digits s = (case s of c # t \<Rightarrow> if c = CHR ''0'' then [c] else takeWhile is_digit s | [] \<Rightarrow> [])"

definition scan_number :: "(string \<Rightarrow> real) \<Rightarrow> string \<Rightarrow> (json \<times> string) option" where
  "scan_number rf s =
     (let sign = (case s of c # t \<Rightarrow> if c = CHR ''-'' then [c] else [] | [] \<Rightarrow> []);
          s1 = drop (length sign) s;
          digits = scan_digits s1;
          s2 = drop (length digits) s1;
          fraction = scan_fraction s2;
          s3 = drop (length fraction) s2;
          expo = scan_exponent s3;
          s4 = drop (length expo) s3
      in if digits = [] then None
         else if fraction = [] \<and> expo = []
         then Some (JInt (if sign = [] then int (digits_val digits) else - int (digits_val digits)), s4)
         else Some (JFloat (rf (sign @ digits @ fraction @ expo)), s4))"

definition scan_literal :: "(string \<Rightarrow> real) \<Rightarrow> string \<Rightarrow> (json \<times> string) option" where
  "scan_literal rf s =
     (if is_prefix ''null'' s then Some (JNull, drop 4 s)
      else if is_prefix ''true'' s then Some (JBool True, drop 4 s)
      else if is_prefix ''false'' s then Some (JBool False, drop 5 s)
      else scan_number rf s)"

text \<open>The dictionary of the pairs read: a later value replaces an earlier one in its place.\<close>

definition dict_of :: "(string \<times> json) list \<Rightarrow> (string \<times> json) list" where
  "dict_of ps = fold (\<lambda>(k, v). dict_set k v) ps []"

text \<open>
  A value at the head of a text, the elements of an array after its bracket or a comma, and the
  members of an object. The number is the fuel; \<open>json_loads\<close> gives two units for each character,
  and more never changes the answer (\<open>scan_fuel\<close>).
\<close>

fun scan_value :: "(string \<Rightarrow> real) \<Rightarrow> nat \<Rightarrow> string \<Rightarrow> (json \<times> string) option"
and scan_items :: "(string \<Rightarrow> real) \<Rightarrow> nat \<Rightarrow> string \<Rightarrow> (json list \<times> string) option"
and scan_members :: "(string \<Rightarrow> real) \<Rightarrow> nat \<Rightarrow> string \<Rightarrow> ((string \<times> json) list \<times> string) option" where
  "scan_value rf 0 s = None"
| "scan_value rf (Suc n) s =
     (case s of
        [] \<Rightarrow> None
      | c # t \<Rightarrow>
          if c = quote_mark then map_option (apfst JStr) (scan_string t)
          else if c = CHR ''['' then
            (case skip_space t of
               [] \<Rightarrow> None
             | d # u \<Rightarrow> if d = CHR '']'' then Some (JArr [], u)
                 else map_option (apfst JArr) (scan_items rf n (d # u)))
          else if c = CHR ''{'' then
            (case skip_space t of
               [] \<Rightarrow> None
             | d # u \<Rightarrow> if d = CHR ''}'' then Some (JObj [], u)
                 else map_option (apfst (JObj \<circ> dict_of)) (scan_members rf n (d # u)))
          else scan_literal rf (c # t))"
| "scan_items rf 0 s = None"
| "scan_items rf (Suc n) s =
     (case scan_value rf n s of
        None \<Rightarrow> None
      | Some (v, r) \<Rightarrow>
          (case skip_space r of
             [] \<Rightarrow> None
           | d # u \<Rightarrow>
               if d = CHR '']'' then Some ([v], u)
               else if d = CHR '','' then map_option (apfst (Cons v)) (scan_items rf n (skip_space u))
               else None))"
| "scan_members rf 0 s = None"
| "scan_members rf (Suc n) s =
     (case s of
        [] \<Rightarrow> None
      | c # t \<Rightarrow>
          if c \<noteq> quote_mark then None
          else case scan_string t of
            None \<Rightarrow> None
          | Some (k, r) \<Rightarrow>
              (case skip_space r of
                 [] \<Rightarrow> None
               | e # r \<Rightarrow>
                   if e \<noteq> CHR '':'' then None
                   else case scan_value rf n (skip_space r) of
                     None \<Rightarrow> None
                   | Some (v, r) \<Rightarrow>
                       (case skip_space r of
                          [] \<Rightarrow> None
                        | d # u \<Rightarrow>
                            if d = CHR ''}'' then Some ([(k, v)], u)
                            else if d = CHR '','' then map_option (apfst (Cons (k, v))) (scan_members rf n (skip_space u))
                            else None)))"

definition json_loads :: "(string \<Rightarrow> real) \<Rightarrow> string \<Rightarrow> json option" where
  "json_loads rf s =
     (case scan_value rf (2 * length s + 1) (skip_space s) of
        Some (v, r) \<Rightarrow> if skip_space r = [] then Some v else None
      | None \<Rightarrow> None)"


section \<open>Reading what was printed\<close>

definition number_ends :: "string \<Rightarrow> bool" where
  "number_ends r \<longleftrightarrow> (case r of [] \<Rightarrow> True | c # t \<Rightarrow> \<not> is_digit c \<and> c \<noteq> CHR ''.'' \<and> c \<noteq> CHR ''e'' \<and> c \<noteq> CHR ''E'')"

lemma number_ends_simps [simp]:
  "number_ends []" "number_ends (c # t) \<longleftrightarrow> \<not> is_digit c \<and> c \<noteq> CHR ''.'' \<and> c \<noteq> CHR ''e'' \<and> c \<noteq> CHR ''E''"
  by (simp_all add: number_ends_def)

text \<open>What the text of a float has to be: a token that starts a number and is read back as the float.\<close>

definition float_ok :: "(string \<Rightarrow> real) \<Rightarrow> (real \<Rightarrow> string) \<Rightarrow> real \<Rightarrow> bool" where
  "float_ok rf ft x \<longleftrightarrow> (\<exists>c t. ft x = c # t \<and> (is_digit c \<or> c = CHR ''-''))
     \<and> (\<forall>r. number_ends r \<longrightarrow> scan_number rf (ft x @ r) = Some (JFloat x, r))"

text \<open>Documents that are read back: dictionaries have each key once, and the floats do.\<close>

fun json_ok :: "(real \<Rightarrow> bool) \<Rightarrow> json \<Rightarrow> bool" where
  "json_ok P (JFloat x) = P x"
| "json_ok P (JArr xs) = list_all (json_ok P) xs"
| "json_ok P (JObj d) = (distinct (dict_keys d) \<and> list_all (\<lambda>(k, v). json_ok P v) d)"
| "json_ok P _ = True"

lemma skip_space_stop [simp]: "\<not> is_json_space c \<Longrightarrow> skip_space (c # s) = c # s"
  by (simp add: skip_space_def)

lemma skip_space_blank [simp]: "skip_space (CHR '' '' # s) = skip_space s"
  by (simp add: skip_space_def is_json_space_def)

lemma not_json_space [simp]:
  "\<not> is_json_space quote_mark" "\<not> is_json_space (CHR '','')" "\<not> is_json_space (CHR '':'')" "\<not> is_json_space (CHR '']'')"
  "\<not> is_json_space (CHR ''}'')" "\<not> is_json_space (CHR ''['')" "\<not> is_json_space (CHR ''{'')"
  by (simp_all add: is_json_space_def)

lemma not_digit [simp]:
  "\<not> is_digit (CHR '','')" "\<not> is_digit (CHR '']'')" "\<not> is_digit (CHR ''}'')" "\<not> is_digit (CHR ''-'')" "\<not> is_digit quote_mark"
  "\<not> is_digit (CHR ''['')" "\<not> is_digit (CHR ''{'')"
  by (simp_all add: is_digit_def)

lemma digit_not_space: "is_digit c \<Longrightarrow> \<not> is_json_space c"
  by (auto simp: is_digit_def is_json_space_def)

lemma hex_digit_value_digit: "n < 16 \<Longrightarrow> hex_digit_value (hex_digit n) = Some n"
  by (auto simp: hex_digit_value_def hex_digit_def of_char_of Let_def)

lemma hex4_zeros: "hex4 (CHR ''0'') (CHR ''0'') c d = (case (hex_digit_value c, hex_digit_value d) of
    (Some j, Some k) \<Rightarrow> Some (j * 16 + k) | _ \<Rightarrow> None)"
  by (simp add: hex4_def hex_digit_value_def Let_def split: option.splits)

lemma scan_string_escape: "scan_string (json_escape c @ s) = scan_cons c (scan_string s)"
proof -
  have lt: "code_point c div 16 < 16" "code_point c mod 16 < 16"
    using code_point_less [of c] by (simp_all add: less_mult_imp_div_less)
  have "code_point c div 16 * 16 + code_point c mod 16 = code_point c"
    by simp
  then have hex: "hex4 (CHR ''0'') (CHR ''0'') (hex_digit (code_point c div 16)) (hex_digit (code_point c mod 16)) = Some (code_point c)"
    by (simp only: hex4_zeros hex_digit_value_digit [OF lt(1)] hex_digit_value_digit [OF lt(2)] option.case prod.case)
  show ?thesis
    by (simp add: json_escape_def short_escape_def hex code_point_less)
qed

lemma scan_string_quote: "scan_string (concat (map json_escape s) @ quote_mark # r) = Some (s, r)"
  by (induction s) (simp_all add: scan_string_escape scan_cons_def)

lemma takeWhile_digits: "\<forall>c \<in> set ds. is_digit c \<Longrightarrow> number_ends r \<Longrightarrow> takeWhile is_digit (ds @ r) = ds"
  by (induction ds) (cases r, auto)

lemma nat_str_head:
  assumes "0 < n"
  obtains c t where "nat_str n = c # t" and "c \<noteq> CHR ''0''" and "is_digit c"
proof -
  have "\<exists>c t. nat_str n = c # t \<and> c \<noteq> CHR ''0''" using assms
  proof (induction n rule: nat_str.induct)
    case (1 n)
    show ?case
    proof (cases "n < 10")
      case True
      then have "digit_val (digit_char n) = n" by (rule digit_val_digit_char)
      then have "digit_char n \<noteq> CHR ''0''" using "1.prems" by (auto simp: digit_val_def)
      with True show ?thesis by (simp add: nat_str.simps [of n])
    next
      case False
      then have "0 < n div 10" by (simp add: div_greater_zero_iff)
      with False "1.IH" obtain c t where "nat_str (n div 10) = c # t" "c \<noteq> CHR ''0''" by auto
      with False show ?thesis by (simp add: nat_str.simps [of n])
    qed
  qed
  with that nat_str_digits [of _ n] show thesis by (metis list.set_intros(1))
qed

lemma scan_digits_nat: "number_ends r \<Longrightarrow> scan_digits (nat_str n @ r) = nat_str n"
proof (cases "n = 0")
  case True
  moreover have "digit_char 0 = CHR ''0''" by code_simp
  ultimately show ?thesis by (simp add: nat_str.simps [of 0] scan_digits_def)
next
  case False
  assume r: "number_ends r"
  obtain c t where ct: "nat_str n = c # t" "c \<noteq> CHR ''0''" using False nat_str_head by blast
  have "takeWhile is_digit (nat_str n @ r) = nat_str n"
    by (rule takeWhile_digits) (use r nat_str_digits in auto)
  with ct show ?thesis by (simp add: scan_digits_def)
qed

lemma scan_tail: "number_ends r \<Longrightarrow> scan_fraction r = []" "number_ends r \<Longrightarrow> scan_exponent r = []"
  by (auto simp: scan_fraction_def scan_exponent_def split: list.splits)

lemma scan_number_sign:
  "number_ends r \<Longrightarrow> scan_number rf (CHR ''-'' # nat_str n @ r) = Some (JInt (- int n), r)"
  by (simp add: scan_number_def scan_digits_nat scan_tail digits_val_nat_str)

lemma scan_number_nat:
  assumes "number_ends r"
  shows "scan_number rf (nat_str n @ r) = Some (JInt (int n), r)"
proof -
  have "c \<noteq> CHR ''-''" if "nat_str n @ r = c # t" for c t
    using that nat_str_digits [of c n] by (cases "nat_str n") auto
  then have "(case nat_str n @ r of [] \<Rightarrow> [] | c # t \<Rightarrow> if c = CHR ''-'' then [c] else []) = []"
    by (simp split: list.split)
  then show ?thesis
    using assms by (simp add: scan_number_def scan_digits_nat scan_tail digits_val_nat_str)
qed

lemma scan_number_int: "number_ends r \<Longrightarrow> scan_number rf (json_int n @ r) = Some (JInt n, r)"
  using scan_number_sign [of r rf "nat (- n)"] scan_number_nat [of r rf "nat n"] by (simp add: json_int_def)

lemma join_text_simps [simp]:
  "join_text sep [] = []" "join_text sep [p] = p" "join_text sep (p # q # ps) = p @ sep @ join_text sep (q # ps)"
  by (simp_all add: join_text_def)


text \<open>A printed value starts with a character that is neither a blank nor a closing bracket.\<close>

definition value_head :: "string \<Rightarrow> bool" where
  "value_head s \<longleftrightarrow> (case s of [] \<Rightarrow> False | c # t \<Rightarrow> \<not> is_json_space c \<and> c \<noteq> CHR '']'' \<and> c \<noteq> CHR ''}'')"

lemma json_int_head: "\<exists>c t. json_int n = c # t \<and> (is_digit c \<or> c = CHR ''-'')"
proof -
  obtain c t where "json_int n = c # t" by (cases "json_int n") (auto simp: json_int_def split: if_splits)
  with json_int_chars [of c n] show ?thesis by auto
qed

lemma number_head:
  assumes "is_digit c \<or> c = CHR ''-''"
  shows "\<not> is_json_space c" and "c \<notin> {CHR '']'', CHR ''}'', CHR ''['', CHR ''{'', quote_mark, CHR ''n'', CHR ''t'', CHR ''f''}"
proof -
  have "\<not> is_json_space (CHR ''-'')" by (simp add: is_json_space_def)
  then show "\<not> is_json_space c" using assms digit_not_space by blast
  have "\<not> is_digit (CHR ''n'')" "\<not> is_digit (CHR ''t'')" "\<not> is_digit (CHR ''f'')" by (simp_all add: is_digit_def)
  then show "c \<notin> {CHR '']'', CHR ''}'', CHR ''['', CHR ''{'', quote_mark, CHR ''n'', CHR ''t'', CHR ''f''}"
    using assms by auto
qed

lemma value_head_number: "is_digit c \<or> c = CHR ''-'' \<Longrightarrow> value_head (c # t)"
  using number_head [of c] by (simp add: value_head_def)

lemma value_head_chars [simp]:
  "value_head (quote_mark # t)" "value_head (CHR ''['' # t)" "value_head (CHR ''{'' # t)" "value_head (CHR ''n'' # t)"
  "value_head (CHR ''t'' # t)" "value_head (CHR ''f'' # t)"
  by (simp_all add: value_head_def is_json_space_def)

lemma value_head_text:
  assumes "json_ok (float_ok rf ft) j"
  shows "value_head (json_text ft j)"
proof (cases j)
  case (JBool b)
  then show ?thesis by (cases b) (simp_all add: json_bool_def)
next
  case (JInt n)
  obtain c t where "json_int n = c # t" "is_digit c \<or> c = CHR ''-''" using json_int_head by blast
  with value_head_number [of c t] JInt show ?thesis by simp
next
  case (JFloat x)
  with assms obtain c t where "ft x = c # t" "is_digit c \<or> c = CHR ''-''" by (auto simp: float_ok_def)
  with value_head_number [of c t] JFloat show ?thesis by simp
qed (simp_all add: json_quote_def)

lemma value_head_append [simp]: "value_head s \<Longrightarrow> skip_space (s @ r) = s @ r" "value_head s \<Longrightarrow> s \<noteq> []"
  by (auto simp: value_head_def split: list.splits)

lemma scan_literal_number:
  assumes "is_digit c \<or> c = CHR ''-''"
  shows "scan_value rf (Suc n) (c # t) = scan_number rf (c # t)"
proof -
  have "CHR ''n'' \<noteq> c" "CHR ''t'' \<noteq> c" "CHR ''f'' \<noteq> c" using number_head(2) [OF assms] by blast+
  with number_head [OF assms] show ?thesis by (simp add: scan_literal_def)
qed

text \<open>A value is read off the text it was printed as, whatever follows, with two units of fuel a character.\<close>

definition read_back :: "(string \<Rightarrow> real) \<Rightarrow> (real \<Rightarrow> string) \<Rightarrow> json \<Rightarrow> bool" where
  "read_back rf ft j \<longleftrightarrow> value_head (json_text ft j)
     \<and> (\<forall>n r. 2 * length (json_text ft j) \<le> n \<longrightarrow> number_ends r \<longrightarrow> scan_value rf n (json_text ft j @ r) = Some (j, r))"

lemma read_backD:
  "read_back rf ft j \<Longrightarrow> 2 * length (json_text ft j) \<le> n \<Longrightarrow> number_ends r \<Longrightarrow> scan_value rf n (json_text ft j @ r) = Some (j, r)"
  by (simp add: read_back_def)

lemma scan_items_text:
  assumes "list_all (read_back rf ft) (x # xs)" and "2 * length (join_text '', '' (map (json_text ft) (x # xs))) + 2 \<le> n"
  shows "scan_items rf n (join_text '', '' (map (json_text ft) (x # xs)) @ CHR '']'' # r) = Some (x # xs, r)"
  using assms
proof (induction xs arbitrary: x n)
  case Nil
  then obtain m where n: "n = Suc m" by (cases n) auto
  with Nil show ?case by (simp add: read_backD)
next
  case (Cons y ys)
  then obtain m where n: "n = Suc m" by (cases n) auto
  let ?rest = "join_text '', '' (map (json_text ft) (y # ys))"
  have head: "scan_value rf m (json_text ft x @ CHR '','' # CHR '' '' # ?rest @ CHR '']'' # r)
      = Some (x, CHR '','' # CHR '' '' # ?rest @ CHR '']'' # r)"
    using Cons.prems n by (intro read_backD) auto
  have "value_head (json_text ft y)" using Cons.prems(1) by (simp add: read_back_def)
  then have "skip_space (?rest @ CHR '']'' # r) = ?rest @ CHR '']'' # r"
    by (cases ys) simp_all
  moreover have "scan_items rf m (?rest @ CHR '']'' # r) = Some (y # ys, r)"
    using Cons.prems n by (intro Cons.IH) auto
  ultimately show ?case using head by (simp add: n)
qed

abbreviation member_text :: "(real \<Rightarrow> string) \<Rightarrow> string \<times> json \<Rightarrow> string" where
  "member_text ft \<equiv> (\<lambda>(k, v). json_quote k @ '': '' @ json_text ft v)"

lemma scan_members_text:
  assumes "list_all (\<lambda>(k, v). read_back rf ft v) (x # xs)" and "2 * length (join_text '', '' (map (member_text ft) (x # xs))) + 2 \<le> n"
  shows "scan_members rf n (join_text '', '' (map (member_text ft) (x # xs)) @ CHR ''}'' # r) = Some (x # xs, r)"
  using assms
proof (induction xs arbitrary: x n)
  case Nil
  obtain k v where x: "x = (k, v)" by (cases x)
  from Nil obtain m where n: "n = Suc m" by (cases n) auto
  have "value_head (json_text ft v)" using Nil x by (simp add: read_back_def)
  moreover have "scan_value rf m (json_text ft v @ CHR ''}'' # r) = Some (v, CHR ''}'' # r)"
    using Nil n x by (intro read_backD) auto
  ultimately show ?case by (simp add: n x json_quote_def scan_string_quote)
next
  case (Cons y ys)
  obtain k v where x: "x = (k, v)" by (cases x)
  from Cons obtain m where n: "n = Suc m" by (cases n) auto
  let ?rest = "join_text '', '' (map (member_text ft) (y # ys))"
  have "value_head (json_text ft v)" using Cons.prems x by (simp add: read_back_def)
  moreover have "scan_value rf m (json_text ft v @ CHR '','' # CHR '' '' # ?rest @ CHR ''}'' # r)
      = Some (v, CHR '','' # CHR '' '' # ?rest @ CHR ''}'' # r)"
    using Cons.prems n x by (intro read_backD) auto
  moreover have "skip_space (?rest @ CHR ''}'' # r) = ?rest @ CHR ''}'' # r"
    by (cases ys; cases y) (simp_all add: json_quote_def)
  moreover have "scan_members rf m (?rest @ CHR ''}'' # r) = Some (y # ys, r)"
    using Cons.prems n x by (intro Cons.IH) auto
  ultimately show ?case by (simp add: n x json_quote_def scan_string_quote)
qed

lemma fold_dict_set_fresh:
  "distinct (dict_keys (acc @ ps)) \<Longrightarrow> fold (\<lambda>(k, v). dict_set k v) ps acc = acc @ ps"
proof (induction ps arbitrary: acc)
  case (Cons p ps)
  obtain k v where p: "p = (k, v)" by (cases p)
  have "dict_set k v acc = acc @ [(k, v)]" if "k \<notin> set (dict_keys acc)" for acc
    using that by (induction acc) auto
  then have "dict_set k v acc = acc @ [(k, v)]" using Cons.prems p by simp
  then show ?case using Cons.IH [of "acc @ [(k, v)]"] Cons.prems by (simp add: p)
qed simp

lemma dict_of_distinct: "distinct (dict_keys ps) \<Longrightarrow> dict_of ps = ps"
  by (simp add: dict_of_def fold_dict_set_fresh)


lemma read_back_array:
  assumes "\<forall>x \<in> set xs. read_back rf ft x"
  shows "read_back rf ft (JArr xs)"
proof (cases xs)
  case Nil
  have "scan_value rf n (CHR ''['' # CHR '']'' # r) = Some (JArr [], r)" if "4 \<le> n" for n r
    using that by (cases n) simp_all
  with Nil show ?thesis by (simp add: read_back_def)
next
  case (Cons y ys)
  have "scan_value rf n (json_text ft (JArr xs) @ r) = Some (JArr xs, r)" if fuel: "2 * length (json_text ft (JArr xs)) \<le> n" for n r
  proof -
    let ?t = "join_text '', '' (map (json_text ft) (y # ys))"
    obtain m where n: "n = Suc m" using fuel by (cases n) auto
    have "value_head (json_text ft y)" using assms Cons by (simp add: read_back_def)
    then have skip: "skip_space (?t @ CHR '']'' # r) = ?t @ CHR '']'' # r" by (cases ys) simp_all
    obtain d u where du: "?t @ CHR '']'' # r = d # u" "d \<noteq> CHR '']''"
      using \<open>value_head (json_text ft y)\<close> by (cases ys; cases "json_text ft y") (auto simp: value_head_def)
    have "scan_items rf m (?t @ CHR '']'' # r) = Some (y # ys, r)"
      using assms Cons n fuel by (intro scan_items_text) (auto simp: list_all_iff)
    with du skip show ?thesis by (simp add: n Cons)
  qed
  then show ?thesis by (simp add: read_back_def)
qed

lemma read_back_object:
  assumes "\<forall>(k, v) \<in> set d. read_back rf ft v" and "distinct (dict_keys d)"
  shows "read_back rf ft (JObj d)"
proof (cases d)
  case Nil
  have "scan_value rf n (CHR ''{'' # CHR ''}'' # r) = Some (JObj [], r)" if "4 \<le> n" for n r
    using that by (cases n) simp_all
  with Nil show ?thesis by (simp add: read_back_def)
next
  case (Cons y ys)
  have "scan_value rf n (json_text ft (JObj d) @ r) = Some (JObj d, r)" if fuel: "2 * length (json_text ft (JObj d)) \<le> n" for n r
  proof -
    let ?t = "join_text '', '' (map (member_text ft) (y # ys))"
    obtain m where n: "n = Suc m" using fuel by (cases n) auto
    obtain t where t: "?t @ CHR ''}'' # r = quote_mark # t"
      by (cases ys; cases y) (simp_all add: json_quote_def)
    have "scan_members rf m (?t @ CHR ''}'' # r) = Some (y # ys, r)"
      using assms Cons n fuel by (intro scan_members_text) (auto simp: list_all_iff)
    with t show ?thesis using dict_of_distinct [OF assms(2)] by (simp add: n Cons)
  qed
  then show ?thesis by (simp add: read_back_def)
qed

lemma read_back_text: "json_ok (float_ok rf ft) j \<Longrightarrow> read_back rf ft j"
proof (induction j)
  case (JFloat x)
  have "scan_value rf n (ft x @ r) = Some (JFloat x, r)" if fuel: "2 * length (ft x) \<le> n" and ends: "number_ends r" for n r
  proof -
    obtain c t where ct: "ft x = c # t" "is_digit c \<or> c = CHR ''-''" using JFloat by (auto simp: float_ok_def)
    then obtain m where "n = Suc m" using fuel by (cases n) simp_all
    with scan_literal_number [OF ct(2)] ct JFloat ends show ?thesis by (simp add: float_ok_def)
  qed
  with value_head_text [OF JFloat] show ?case by (simp add: read_back_def)
next
  case (JInt i)
  have "scan_value rf n (json_int i @ r) = Some (JInt i, r)" if fuel: "2 * length (json_int i) \<le> n" and ends: "number_ends r" for n r
  proof -
    obtain c t where ct: "json_int i = c # t" "is_digit c \<or> c = CHR ''-''" using json_int_head by blast
    then obtain m where "n = Suc m" using fuel by (cases n) simp_all
    with scan_literal_number [OF ct(2)] ct scan_number_int [OF ends, of rf i] show ?thesis by simp
  qed
  with value_head_text [OF JInt] show ?case by (simp add: read_back_def)
next
  case (JArr xs)
  then show ?case by (intro read_back_array) (auto simp: list_all_iff)
next
  case (JObj d)
  then show ?case by (intro read_back_object) (fastforce simp: list_all_iff)+
next
  case (JStr s)
  have "scan_value rf n (json_quote s @ r) = Some (JStr s, r)" if "2 * length (json_quote s) \<le> n" for n r
    using that by (cases n) (simp_all add: json_quote_def scan_string_quote)
  then show ?case by (simp add: read_back_def json_quote_def)
next
  case (JBool b)
  have "scan_value rf n (json_bool b @ r) = Some (JBool b, r)" if "2 * length (json_bool b) \<le> n" for n r
    using that by (cases n; cases b) (simp_all add: json_bool_def scan_literal_def)
  with value_head_text [OF JBool] show ?case by (simp add: read_back_def)
next
  case JNull
  have "scan_value rf n (''null'' @ r) = Some (JNull, r)" if "8 \<le> n" for n r
    using that by (cases n) (simp_all add: scan_literal_def)
  then show ?case by (simp add: read_back_def)
qed

lemma loads_text:
  assumes "json_ok (float_ok rf ft) j"
  shows "json_loads rf (json_text ft j) = Some j"
proof -
  have "value_head (json_text ft j)" using assms by (rule value_head_text)
  then have "skip_space (json_text ft j) = json_text ft j" using value_head_append(1) [of "json_text ft j" "[]"] by simp
  moreover have "scan_value rf (2 * length (json_text ft j) + 1) (json_text ft j @ []) = Some (j, [])"
    by (rule read_backD [OF read_back_text [OF assms]]) simp_all
  ultimately show ?thesis by (simp add: json_loads_def skip_space_def)
qed

lemma distinct_keys_sort: "distinct (dict_keys d) \<Longrightarrow> distinct (dict_keys (sort_key fst d))"
  by (simp add: distinct_map)

lemma json_ok_sort: "json_ok P j \<Longrightarrow> json_ok P (js_sort j)"
proof (induction j rule: js_sort.induct)
  case (2 d)
  have keys: "dict_keys (map (\<lambda>(k, v). (k, js_sort v)) d) = dict_keys d" by (induction d) auto
  have "distinct (dict_keys (sort_key fst (map (\<lambda>(k, v). (k, js_sort v)) d)))"
    using 2 by (intro distinct_keys_sort) (simp only: keys json_ok.simps)
  moreover have "list_all (\<lambda>(k, v). json_ok P v) (sort_key fst (map (\<lambda>(k, v). (k, js_sort v)) d))"
    using 2 by (fastforce simp: list_all_iff)
  ultimately show ?case by simp
qed (auto simp: list_all_iff)


section \<open>Fuel\<close>

lemma skip_space_length: "length (skip_space s) \<le> length s"
  by (simp add: skip_space_def length_dropWhile_le)

lemma skip_space_shorter: "skip_space s = c # t \<Longrightarrow> length t < length s"
  using skip_space_length [of s] by simp

lemma scan_string_shorter: "scan_string s = Some (x, r) \<Longrightarrow> length r < length s"
  by (induction s arbitrary: x rule: scan_string.induct)
    (fastforce simp: scan_cons_def split: if_splits list.splits option.splits)+

lemma scan_number_shorter: "scan_number rf s = Some (v, r) \<Longrightarrow> length r < length s"
  by (cases s) (auto simp: scan_number_def scan_digits_def Let_def split: if_splits list.splits)

lemma scan_literal_shorter: "scan_literal rf s = Some (v, r) \<Longrightarrow> length r < length s"
  by (cases s) (auto simp: scan_literal_def dest: scan_number_shorter split: if_splits)

lemma scan_shorter:
  "scan_value rf n s = Some (v, r) \<Longrightarrow> length r < length s"
  "scan_items rf n s = Some (vs, r) \<Longrightarrow> length r < length s"
  "scan_members rf n s = Some (ms, r) \<Longrightarrow> length r < length s"
proof (induction rf n s and rf n s and rf n s arbitrary: v r and vs r and ms r
    rule: scan_value_scan_items_scan_members.induct)
  case (2 rf n s)
  then show ?case
    by (fastforce dest: scan_string_shorter scan_literal_shorter skip_space_shorter split: if_splits list.splits)
next
  case (4 rf n s)
  from "4.prems" obtain v r1 d u where step: "scan_value rf n s = Some (v, r1)" "skip_space r1 = d # u"
    by (auto split: option.splits list.splits)
  have "length r1 < length s" "length u < length r1"
    using "4.IH"(1) [OF step(1)] skip_space_shorter [OF step(2)] by auto
  moreover have "length r \<le> length u"
    using "4.prems" step "4.IH"(2) [OF step(1) refl step(2)] skip_space_length [of u]
    by (auto split: if_splits)
  ultimately show ?case by simp
next
  case (6 rf n s)
  from "6.prems" obtain c t k r1 r2 where key: "s = c # t" "c = quote_mark" "scan_string t = Some (k, r1)" "skip_space r1 = CHR '':'' # r2"
    by (auto split: option.splits list.splits if_splits)
  with "6.prems" obtain v r3 d u where step: "scan_value rf n (skip_space r2) = Some (v, r3)" "skip_space r3 = d # u"
    by (auto split: option.splits list.splits if_splits)
  have "length r3 < length (skip_space r2)" "length u < length r3" "length r2 < length r1" "length r1 < length t"
    using "6.IH"(1) [of c t "(k, r1)" k r1] key step skip_space_shorter scan_string_shorter [OF key(3)] by auto
  moreover have "length r \<le> length u"
    using "6.prems" key step "6.IH"(2) [of c t "(k, r1)" k r1 _ _ "(v, r3)" v r3 d u] skip_space_length [of u]
    by (auto split: if_splits) (metis less_imp_le_nat order_trans)
  ultimately show ?case using skip_space_length [of r2] key by simp
qed simp_all


text \<open>Two units for each character are enough: more fuel leaves the answer as it is, whatever the text.\<close>

lemma scan_fuel:
  "2 * length s < n \<Longrightarrow> scan_value rf (Suc n) s = scan_value rf n s"
  "2 * length s + 1 < n \<Longrightarrow> scan_items rf (Suc n) s = scan_items rf n s"
  "2 * length s + 1 < n \<Longrightarrow> scan_members rf (Suc n) s = scan_members rf n s"
proof (induction n arbitrary: s)
  case (Suc n)
  {
    case 1
    have "scan_items rf (Suc n) u = scan_items rf n u" "scan_members rf (Suc n) u = scan_members rf n u"
      if "skip_space t = u" "s = c # t" for c t u
    proof -
      have "2 * length u + 1 < n" using 1 that skip_space_length [of t] by auto
      then show "scan_items rf (Suc n) u = scan_items rf n u" "scan_members rf (Suc n) u = scan_members rf n u"
        by (fact Suc.IH(2), fact Suc.IH(3))
    qed
    then show ?case by (auto split: list.split)
  next
    case 2
    have head: "scan_value rf (Suc n) s = scan_value rf n s" using 2 by (intro Suc.IH) simp
    have "scan_items rf (Suc n) (skip_space u) = scan_items rf n (skip_space u)"
      if "scan_value rf n s = Some (v, r)" "skip_space r = d # u" for v r d u
      using 2 scan_shorter(1) [OF that(1)] skip_space_shorter [OF that(2)] skip_space_length [of u]
      by (intro Suc.IH) simp
    with head show ?case
      unfolding scan_items.simps(2) [of rf "Suc n"] scan_items.simps(2) [of rf n] by (auto split: list.split option.split)
  next
    case 3
    have head: "scan_value rf (Suc n) (skip_space q) = scan_value rf n (skip_space q)"
      if "s = c # t" "scan_string t = Some (k, r)" "skip_space r = e # q" for c t k r e q
      using 3 that(1) scan_string_shorter [OF that(2)] skip_space_shorter [OF that(3)] skip_space_length [of q]
      by (intro Suc.IH) simp
    have "scan_members rf (Suc n) (skip_space u) = scan_members rf n (skip_space u)"
      if "s = c # t" "scan_string t = Some (k, r)" "skip_space r = e # q"
        "scan_value rf n (skip_space q) = Some (v, r')" "skip_space r' = d # u" for c t k r e q v r' d u
      using 3 that(1) scan_string_shorter [OF that(2)] skip_space_shorter [OF that(3)] skip_space_length [of q]
        scan_shorter(1) [OF that(4)] skip_space_shorter [OF that(5)] skip_space_length [of u]
      by (intro Suc.IH) simp
    with head show ?case
      unfolding scan_members.simps(2) [of rf "Suc n"] scan_members.simps(2) [of rf n]
      by (auto split: list.split option.split)
  }
qed simp_all

lemma scan_value_fuel:
  assumes "2 * length s < n" and "n \<le> m"
  shows "scan_value rf m s = scan_value rf n s"
  using assms(2)
proof (induction m rule: dec_induct)
  case (step m)
  with assms(1) have "scan_value rf (Suc m) s = scan_value rf m s" by (intro scan_fuel(1)) simp
  with step show ?case by (simp only:)
qed simp


section \<open>Beginnings of a document\<close>

text \<open>What was read stays read when more text follows, unless it is a number that may go on.\<close>

definition settled :: "json \<Rightarrow> string \<Rightarrow> bool" where
  "settled v r \<longleftrightarrow> r \<noteq> [] \<and> number_ends r \<or> (case v of JInt _ \<Rightarrow> False | JFloat _ \<Rightarrow> False | _ \<Rightarrow> True)"

lemma scan_string_append: "scan_string s = Some (x, r) \<Longrightarrow> scan_string (s @ y) = Some (x, r @ y)"
proof (induction s arbitrary: x rule: scan_string.induct)
  case (2 c s)
  have cons: "scan_cons d q = Some (x, r) \<Longrightarrow> \<exists>x'. q = Some (x', r) \<and> x = d # x'" for d q
    by (auto simp: scan_cons_def)
  consider "c = quote_mark" | (escape) "c \<noteq> quote_mark" "c = backslash" | (plain) "c \<noteq> quote_mark" "c \<noteq> backslash"
    by blast
  then show ?case
  proof cases
    case escape
    with "2.prems" obtain e t where s: "s = e # t" by (cases s) auto
    show ?thesis
    proof (cases "e = CHR ''u''")
      case True
      with "2.prems" escape s obtain h1 h2 h3 h4 u n where u: "t = h1 # h2 # h3 # h4 # u" "hex4 h1 h2 h3 h4 = Some n" "n < 256"
        and q: "scan_cons (char_of n) (scan_string u) = Some (x, r)"
        by (auto split: list.splits option.splits if_splits)
      from cons [OF q] obtain x' where "scan_string u = Some (x', r)" "x = char_of n # x'" by blast
      with "2.IH"(1) [OF escape s True u(1) refl refl refl u(2,3)] escape s True u show ?thesis by (simp add: scan_cons_def)
    next
      case False
      with "2.prems" escape s obtain z where z: "short_escape e = Some z" and q: "scan_cons z (scan_string t) = Some (x, r)"
        by (auto split: option.splits)
      from cons [OF q] obtain x' where "scan_string t = Some (x', r)" "x = z # x'" by blast
      with "2.IH"(2) [OF escape s False z] escape s False z show ?thesis by (simp add: scan_cons_def)
    qed
  next
    case plain
    with "2.prems" have big: "\<not> code_point c < 32" and q: "scan_cons c (scan_string s) = Some (x, r)" by (auto split: if_splits)
    from cons [OF q] obtain x' where "scan_string s = Some (x', r)" "x = c # x'" by blast
    with "2.IH"(3) [OF plain big] plain big show ?thesis by (simp add: scan_cons_def)
  qed (use "2.prems" in simp)
qed simp

lemma skip_space_append: "skip_space s = c # t \<Longrightarrow> skip_space (s @ y) = c # t @ y"
  unfolding skip_space_def by (induction s) (auto split: if_splits)

lemma takeWhile_stop: "drop (length (takeWhile P s)) s \<noteq> [] \<Longrightarrow> takeWhile P (s @ y) = takeWhile P s"
  by (induction s) auto

lemma scan_digits_append: "drop (length (scan_digits s)) s \<noteq> [] \<Longrightarrow> scan_digits (s @ y) = scan_digits s"
  using takeWhile_stop [of is_digit s y] by (auto simp: scan_digits_def split: list.splits if_splits)

lemma scan_fraction_append:
  assumes "drop (length (scan_fraction s)) s \<noteq> []" and "hd (drop (length (scan_fraction s)) s) \<noteq> CHR ''.''"
  shows "scan_fraction (s @ y) = scan_fraction s"
proof (cases s)
  case (Cons c t)
  with assms takeWhile_stop [of is_digit t y] show ?thesis
    by (auto simp: scan_fraction_def split: if_splits)
qed (use assms in \<open>simp add: scan_fraction_def\<close>)

lemma scan_exponent_append:
  assumes "drop (length (scan_exponent s)) s \<noteq> []"
    and "hd (drop (length (scan_exponent s)) s) \<noteq> CHR ''e''" and "hd (drop (length (scan_exponent s)) s) \<noteq> CHR ''E''"
  shows "scan_exponent (s @ y) = scan_exponent s"
proof (cases s)
  case (Cons c t)
  show ?thesis
  proof (cases "c = CHR ''e'' \<or> c = CHR ''E''")
    case True
    define sign where "sign = (case t of d # u \<Rightarrow> if d = CHR ''+'' \<or> d = CHR ''-'' then [d] else [] | [] \<Rightarrow> [])"
    have expo: "scan_exponent s = (if takeWhile is_digit (drop (length sign) t) = [] then []
        else c # sign @ takeWhile is_digit (drop (length sign) t))"
      using True by (auto simp: scan_exponent_def Cons sign_def Let_def)
    with assms True Cons have digits: "takeWhile is_digit (drop (length sign) t) \<noteq> []" by (auto split: if_splits)
    then have "t \<noteq> []" by auto
    then have sign': "(case t @ y of d # u \<Rightarrow> if d = CHR ''+'' \<or> d = CHR ''-'' then [d] else [] | [] \<Rightarrow> []) = sign"
      and len: "length sign \<le> length t" by (cases t; simp add: sign_def)+
    have "takeWhile is_digit (drop (length sign) t @ y) = takeWhile is_digit (drop (length sign) t)"
      using assms(1) expo digits Cons by (intro takeWhile_stop) (simp add: add.commute)
    with True sign' len expo digits show ?thesis
      by (auto simp: scan_exponent_def Cons Let_def)
  qed (simp add: scan_exponent_def Cons)
qed (use assms in \<open>simp add: scan_exponent_def\<close>)

lemma scan_exponent_head: "scan_exponent s \<noteq> [] \<Longrightarrow> s \<noteq> [] \<and> hd s \<noteq> CHR ''.''"
  by (auto simp: scan_exponent_def split: list.splits if_splits)

lemma scan_number_append:
  assumes "scan_number rf s = Some (v, r)" and "r \<noteq> []" and "number_ends r"
  shows "scan_number rf (s @ y) = Some (v, r @ y)"
proof -
  define sign where "sign = (case s of c # t \<Rightarrow> if c = CHR ''-'' then [c] else [] | [] \<Rightarrow> [])"
  define s1 where "s1 = drop (length sign) s"
  define s2 where "s2 = drop (length (scan_digits s1)) s1"
  define s3 where "s3 = drop (length (scan_fraction s2)) s2"
  define s4 where "s4 = drop (length (scan_exponent s3)) s3"
  note parts = sign_def [symmetric] s1_def [symmetric] s2_def [symmetric] s3_def [symmetric] s4_def [symmetric]
  from assms(1) have r: "r = s4" and digits: "scan_digits s1 \<noteq> []"
    unfolding scan_number_def Let_def parts by (auto split: if_splits)
  have s4: "s4 \<noteq> []" "hd s4 \<noteq> CHR ''.''" "hd s4 \<noteq> CHR ''e''" "hd s4 \<noteq> CHR ''E''"
    using assms(2,3) r by (auto simp: neq_Nil_conv)
  have s3: "s3 \<noteq> []" "hd s3 \<noteq> CHR ''.''"
    using s4 scan_exponent_head [of s3] by (cases "scan_exponent s3 = []"; auto simp: s4_def)+
  have s2: "s2 \<noteq> []" using s3 by (auto simp: s3_def)
  have s1: "s1 \<noteq> []" using s2 by (auto simp: s2_def)
  have len: "length sign \<le> length s" "length (scan_digits s1) \<le> length s1" "length (scan_fraction s2) \<le> length s2"
    "length (scan_exponent s3) \<le> length s3"
    using s1 s2 s3 s4 by (auto simp: s1_def s2_def s3_def s4_def)
  have "s \<noteq> []" using s1 by (auto simp: s1_def)
  then have e0: "(case s @ y of c # t \<Rightarrow> if c = CHR ''-'' then [c] else [] | [] \<Rightarrow> []) = sign" "drop (length sign) (s @ y) = s1 @ y"
    using len by (cases s; simp add: sign_def s1_def)+
  have e1: "scan_digits (s1 @ y) = scan_digits s1" "drop (length (scan_digits s1)) (s1 @ y) = s2 @ y"
    using s2 len by (simp_all add: s2_def scan_digits_append)
  have e2: "scan_fraction (s2 @ y) = scan_fraction s2" "drop (length (scan_fraction s2)) (s2 @ y) = s3 @ y"
    using s3 len by (simp_all add: s3_def scan_fraction_append)
  have e3: "scan_exponent (s3 @ y) = scan_exponent s3" "drop (length (scan_exponent s3)) (s3 @ y) = s4 @ y"
    using s4 len by (simp_all add: s4_def scan_exponent_append)
  from assms(1) show ?thesis
    unfolding scan_number_def Let_def e0 e1 e2 e3 parts by (auto split: if_splits)
qed


lemma scan_number_first:
  assumes "scan_number rf s = Some (v, r)"
  obtains c t where "s = c # t" and "is_digit c \<or> c = CHR ''-''"
proof (cases s)
  case Nil
  with assms show thesis by (simp add: scan_number_def scan_digits_def)
next
  case (Cons c t)
  have "is_digit c" if "c \<noteq> CHR ''-''"
    using assms that by (simp add: Cons scan_number_def scan_digits_def Let_def split: if_splits) (auto simp: is_digit_def)
  with that Cons show thesis by blast
qed

lemma is_prefix_append: "is_prefix p s \<Longrightarrow> is_prefix p (s @ y)"
  by (induction p s rule: is_prefix.induct) auto

lemma scan_literal_append:
  assumes "scan_literal rf s = Some (v, r)" and "settled v r"
  shows "scan_literal rf (s @ y) = Some (v, r @ y)"
proof (cases "is_prefix ''null'' s \<or> is_prefix ''true'' s \<or> is_prefix ''false'' s")
  case True
  then have "4 \<le> length s" "is_prefix ''false'' s \<Longrightarrow> 5 \<le> length s"
    by (auto simp: is_prefix_iff dest!: arg_cong [of _ _ length])
  with True assms show ?thesis
    by (auto simp: scan_literal_def is_prefix_append split: if_splits) (auto simp: is_prefix_iff)
next
  case False
  with assms(1) have number: "scan_number rf s = Some (v, r)" by (simp add: scan_literal_def)
  then have "r \<noteq> [] \<and> number_ends r"
    using assms(2) by (auto simp: settled_def scan_number_def Let_def split: if_splits)
  with scan_number_append [OF number] have "scan_number rf (s @ y) = Some (v, r @ y)" by simp
  moreover obtain c t where "s = c # t" "is_digit c \<or> c = CHR ''-''"
    using number by (rule scan_number_first)
  ultimately show ?thesis
    using number_head(2) [of c] by (auto simp: scan_literal_def)
qed

lemma settled_before:
  "skip_space r = d # u \<Longrightarrow> d = CHR '']'' \<or> d = CHR '','' \<or> d = CHR ''}'' \<Longrightarrow> settled v r"
  by (cases r) (auto simp: settled_def skip_space_def is_json_space_def is_digit_def split: if_splits)

lemma scan_nothing [simp]: "scan_value rf n [] = None" "scan_items rf n [] = None" "scan_members rf n [] = None"
proof -
  show one: "scan_value rf n [] = None" for n by (cases n) simp_all
  show "scan_items rf n [] = None" by (cases n) (simp_all add: one)
  show "scan_members rf n [] = None" by (cases n) simp_all
qed

lemma skip_space_more: "skip_space u \<noteq> [] \<Longrightarrow> skip_space (u @ y) = skip_space u @ y"
  using skip_space_append [of u _ _ y] by (cases "skip_space u") auto

lemma scan_after_space:
  "scan_value rf n (skip_space u) = Some a \<Longrightarrow> skip_space (u @ y) = skip_space u @ y"
  "scan_items rf n (skip_space u) = Some b \<Longrightarrow> skip_space (u @ y) = skip_space u @ y"
  "scan_members rf n (skip_space u) = Some c \<Longrightarrow> skip_space (u @ y) = skip_space u @ y"
  by (rule skip_space_more, auto)+

lemma scan_append:
  "scan_value rf n s = Some (v, r) \<Longrightarrow> settled v r \<Longrightarrow> scan_value rf n (s @ y) = Some (v, r @ y)"
  "scan_items rf n s = Some (vs, r) \<Longrightarrow> scan_items rf n (s @ y) = Some (vs, r @ y)"
  "scan_members rf n s = Some (ms, r) \<Longrightarrow> scan_members rf n (s @ y) = Some (ms, r @ y)"
proof (induction rf n s and rf n s and rf n s arbitrary: v r and vs r and ms r
    rule: scan_value_scan_items_scan_members.induct)
  case (2 rf n s)
  then obtain c t where s: "s = c # t" by (auto split: list.splits)
  consider "c = quote_mark" | "c = CHR ''[''" | "c = CHR ''{''" | "c \<notin> {quote_mark, CHR ''['', CHR ''{''}" by blast
  then show ?case
  proof cases
    case 1
    with "2.prems" s show ?thesis by (auto simp: scan_string_append)
  next
    case 2
    with "2.prems" s obtain d u where du: "skip_space t = d # u" by (auto split: list.splits)
    with "2.prems" "2.IH"(1) [OF s _ 2 du] 2 s skip_space_append [OF du] show ?thesis by (auto split: if_splits)
  next
    case 3
    with "2.prems" s obtain d u where du: "skip_space t = d # u" by (auto split: list.splits)
    with "2.prems" "2.IH"(2) [OF s _ _ 3 du] 3 s skip_space_append [OF du] show ?thesis by (auto split: if_splits)
  next
    case 4
    with "2.prems" s scan_literal_append [of rf s v r y] show ?thesis by simp
  qed
next
  case (4 rf n s)
  then obtain v r' d u where step: "scan_value rf n s = Some (v, r')" "skip_space r' = d # u" "d = CHR '']'' \<or> d = CHR '',''"
    by (auto split: option.splits list.splits if_splits)
  have "scan_value rf n (s @ y) = Some (v, r' @ y)"
    using "4.IH"(1) [OF step(1)] settled_before [OF step(2)] step(3) by blast
  with "4.prems" step skip_space_append [OF step(2), of y] "4.IH"(2) [OF step(1) refl step(2)] show ?case
    by (auto simp: scan_after_space split: if_splits)
next
  case (6 rf n s)
  from "6.prems" obtain c t k r1 r2 where key: "s = c # t" "c = quote_mark" "scan_string t = Some (k, r1)" "skip_space r1 = CHR '':'' # r2"
    by (auto split: option.splits list.splits if_splits)
  with "6.prems" obtain v r3 d u where step: "scan_value rf n (skip_space r2) = Some (v, r3)" "skip_space r3 = d # u"
      "d = CHR '']'' \<or> d = CHR '','' \<or> d = CHR ''}''"
    by (auto split: option.splits list.splits if_splits)
  have "scan_value rf n (skip_space r2 @ y) = Some (v, r3 @ y)"
    using "6.IH"(1) [of c t "(k, r1)" k r1] key step settled_before [OF step(2)] by auto
  with "6.prems" key step skip_space_append [OF step(2), of y] skip_space_append [OF key(4), of y] scan_string_append [OF key(3), of y] "6.IH"(2) [of c t "(k, r1)" k r1 _ _ "(v, r3)" v r3 d u] show ?case
    by (auto simp: scan_after_space split: if_splits)
qed simp_all


theorem json_beginning_is_refused:
  assumes "json_ok (float_ok rf ft) (JObj d)" and "json_text ft (JObj d) = p @ x" and "x \<noteq> []"
  shows "json_loads rf p = None"
proof (rule ccontr)
  assume "json_loads rf p \<noteq> None"
  then obtain v r where read: "scan_value rf (2 * length p + 1) (skip_space p) = Some (v, r)"
    by (auto simp: json_loads_def split: option.splits)
  then obtain q where p: "p = CHR ''{'' # q" using assms(2) by (cases p) (auto simp: skip_space_def)
  with read have settled: "settled v r" by (auto simp: settled_def split: list.splits if_splits)
  let ?m = "2 * length (p @ x) + 1"
  have "scan_value rf ?m p = scan_value rf (2 * length p + 1) p" by (rule scan_value_fuel) simp_all
  with read p have "scan_value rf ?m p = Some (v, r)" by simp
  from scan_append(1) [OF this settled, of x] have "scan_value rf ?m (p @ x) = Some (v, r @ x)" .
  moreover have "scan_value rf ?m (json_text ft (JObj d) @ []) = Some (JObj d, [])"
    by (rule read_backD [OF read_back_text [OF assms(1)]]) (simp_all add: assms(2) del: json_text.simps)
  ultimately show False using assms(2,3) by (simp del: json_text.simps)
qed

end
