(* ===== verification/Socket.thy ===== *)
theory Socket
  imports ExecutionProps JsonText
begin

text \<open>
  The connection between the dispatcher and an executor as bytes: the text of the capsule that
  \<open>DispatcherService._dispatch\<close> sends, and \<open>ExecutorHandler.handle\<close>, which collects what arrives
  until the connection is closed and decodes it. The operating system may deliver the bytes in any
  pieces, stop short of the end, or fail. \<open>handle_connection\<close> of \<open>Executor\<close> is the same handler over
  documents; \<open>handle_refines\<close> relates the two.
\<close>

section \<open>Both ends\<close>

text \<open>\<open>request.capsule.to_json().encode("utf-8")\<close>.\<close>

definition capsule_bytes :: "(real \<Rightarrow> string) \<Rightarrow> task_capsule \<Rightarrow> string" where
  "capsule_bytes ft capsule = utf8_encode (json_text ft (capsule_to_json capsule))"

text \<open>What the successive calls of \<open>recv\<close> give; an empty chunk is the end, and \<open>recv\<close> may raise.\<close>

fun receive :: "(py_error + string) list \<Rightarrow> py_error + string" where
  "receive [] = Inr []"
| "receive (Inl err # chunks) = Inl err"
| "receive (Inr chunk # chunks) =
     (if chunk = [] then Inr [] else py_bind (receive chunks) (\<lambda>data. Inr (chunk @ data)))"

definition capsule_of_bytes :: "(string \<Rightarrow> real) \<Rightarrow> string \<Rightarrow> py_error + task_capsule" where
  "capsule_of_bytes rf data =
     (case utf8_decode data of
        None \<Rightarrow> Inl UnicodeDecodeError
      | Some text' \<Rightarrow>
          (case json_loads rf text' of
             None \<Rightarrow> Inl ValueError
           | Some j \<Rightarrow> (case capsule_from_json j of None \<Rightarrow> Inl TypeError | Some capsule \<Rightarrow> Inr capsule)))"

definition executor_handle ::
    "('k, 'v, 's, 'e) executor_env \<Rightarrow> (string \<Rightarrow> real) \<Rightarrow> (py_error + string) list \<Rightarrow> 's world \<times> 'e \<Rightarrow> ('s world \<times> 'e) outcome" where
  "executor_handle env rf chunks st =
     (case receive chunks of
        Inl err \<Rightarrow> Crash err st
      | Inr data \<Rightarrow>
          if data = [] then Done st
          else (case capsule_of_bytes rf data of
                  Inl err \<Rightarrow> Crash err st
                | Inr capsule \<Rightarrow> execute_capsule env capsule st))"

section \<open>The text of a capsule\<close>

lemma capsule_json_ok:
  assumes "distinct (dict_keys (tc_repo_snapshot c))"
  shows "json_ok P (capsule_to_json c)"
proof -
  have "distinct (dict_keys (map (\<lambda>(k, v). (k, JStr v)) d)) \<longleftrightarrow> distinct (dict_keys d)" for d :: "(string \<times> string) list"
    by (simp add: case_prod_unfold comp_def)
  then have "json_ok P (JObj (capsule_asdict c))"
    using assms capsule_dict_distinct [of c] by (auto simp: capsule_asdict_def list_all_iff)
  then show ?thesis unfolding capsule_to_json_def by (rule json_ok_sort)
qed

lemma capsule_json_object: "\<exists>d. capsule_to_json c = JObj d"
  by (simp add: capsule_to_json_def)

lemma ascii_append [simp]: "ascii (s @ t) \<longleftrightarrow> ascii s \<and> ascii t"
  by (auto simp: ascii_def)

lemma ascii_escape: "ascii (json_escape c)"
proof -
  have "n < 16 \<Longrightarrow> code_point (hex_digit n) < 128" for n
    by (auto simp: hex_digit_def of_char_of)
  moreover have "code_point c div 16 < 16" "code_point c mod 16 < 16"
    using code_point_less [of c] by (simp_all add: less_mult_imp_div_less)
  ultimately show ?thesis by (auto simp: json_escape_def)
qed

lemma ascii_concat: "list_all ascii ss \<Longrightarrow> ascii (concat ss)"
  by (induction ss) auto

lemma ascii_quote: "ascii (json_quote s)"
  by (simp add: json_quote_def ascii_concat ascii_escape list_all_iff)

lemma ascii_digits: "\<forall>c \<in> set s. is_digit c \<or> c = CHR ''-'' \<Longrightarrow> ascii s"
  by (auto simp: ascii_def is_digit_def)

lemma ascii_join: "ascii sep \<Longrightarrow> list_all ascii ss \<Longrightarrow> ascii (join_text sep ss)"
  by (cases ss) (auto simp: join_text_def list_all_iff intro!: ascii_concat)

lemma ascii_json_text: "json_ok (\<lambda>x. ascii (ft x)) j \<Longrightarrow> ascii (json_text ft j)"
proof (induction j)
  case (JArr xs)
  then show ?case by (auto simp: list_all_iff intro!: ascii_join)
next
  case (JObj d)
  then have "list_all ascii (map (member_text ft) d)"
    by (fastforce simp: list_all_iff ascii_quote)
  then show ?case by (simp add: ascii_join)
next
  case (JInt n)
  then show ?case using json_int_chars [of _ n] by (auto intro!: ascii_digits)
qed (auto simp: json_bool_def ascii_quote)

lemma capsule_bytes_text:
  "distinct (dict_keys (tc_repo_snapshot c)) \<Longrightarrow> capsule_bytes ft c = json_text ft (capsule_to_json c)"
  unfolding capsule_bytes_def by (intro utf8_encode_ascii ascii_json_text capsule_json_ok)

section \<open>What arrives is what was sent\<close>

lemma receive_chunks: "[] \<notin> set chunks \<Longrightarrow> receive (map Inr chunks @ Inr [] # rest) = Inr (concat chunks)"
  by (induction chunks) auto

lemma capsule_decoded:
  assumes "distinct (dict_keys (tc_repo_snapshot c))"
  shows "capsule_of_bytes rf (capsule_bytes ft c) = Inr (capsule_canon c)"
  unfolding capsule_of_bytes_def capsule_bytes_def utf8_roundtrip
  by (simp add: loads_text [OF capsule_json_ok [OF assms]] capsule_decode)

lemma capsule_beginning_refused:
  assumes "distinct (dict_keys (tc_repo_snapshot c))" and "capsule_bytes ft c = p @ x" and "x \<noteq> []"
  shows "capsule_of_bytes rf p = Inl ValueError"
proof -
  have text': "json_text ft (capsule_to_json c) = p @ x" using assms(1,2) by (simp add: capsule_bytes_text)
  have "ascii (p @ x)" unfolding text' [symmetric] by (intro ascii_json_text capsule_json_ok assms(1))
  then have "utf8_decode p = Some p" by (simp add: utf8_decode_ascii)
  moreover obtain d where d: "capsule_to_json c = JObj d" using capsule_json_object by blast
  have "json_loads rf p = None"
    using capsule_json_ok [OF assms(1)] text' assms(3) unfolding d by (rule json_beginning_is_refused)
  ultimately show ?thesis by (simp add: capsule_of_bytes_def)
qed

text \<open>
  C17. Whatever part of a capsule's bytes arrives, and however it is cut into pieces: nothing at all is
  ignored, the whole is executed as the capsule that was sent (its snapshot ordered by path), and
  anything less raises in the handler before the workspace, the store or the ledger is touched.
\<close>

theorem capsule_survives_the_socket:
  assumes "distinct (dict_keys (tc_repo_snapshot c))" and "capsule_bytes ft c = concat chunks @ x" and "[] \<notin> set chunks"
  shows "executor_handle env rf (map Inr chunks @ Inr [] # rest) st =
    (if chunks = [] then Done st else if x = [] then execute_capsule env (capsule_canon c) st else Crash ValueError st)"
proof (cases "chunks = []")
  case False
  with assms(3) have "concat chunks \<noteq> []" by (cases chunks) auto
  then show ?thesis
    using False assms capsule_decoded [OF assms(1), of rf ft] capsule_beginning_refused [OF assms(1,2)]
    by (auto simp: executor_handle_def receive_chunks)
qed (simp add: executor_handle_def)

lemma capsule_bytes_braces:
  assumes "distinct (dict_keys (tc_repo_snapshot c))"
  obtains q where "capsule_bytes ft c = ''{'' @ q" and "q \<noteq> []"
proof -
  obtain d where "capsule_to_json c = JObj d" using capsule_json_object by blast
  with that capsule_bytes_text [OF assms, of ft] show thesis by simp
qed

theorem capsule_survives_the_socket_witness:
  "\<exists>q. let st = (empty_world, sample_machine) in
     executor_handle sample_executor (\<lambda>_. 0) [Inr ''{'', Inr q, Inr []] st
       = execute_capsule sample_executor (capsule_canon sample_capsule) st
     \<and> executor_handle sample_executor (\<lambda>_. 0) [Inr ''{'', Inr []] st = Crash ValueError st"
proof -
  have keys: "distinct (dict_keys (tc_repo_snapshot sample_capsule))" by (simp add: sample_capsule_def)
  obtain q where q: "capsule_bytes (\<lambda>_. '''') sample_capsule = ''{'' @ q" "q \<noteq> []"
    using capsule_bytes_braces [OF keys] .
  note arrives = capsule_survives_the_socket [OF keys, where ft = "\<lambda>_. ''''" and rf = "\<lambda>_. 0" and env = sample_executor
      and st = "(empty_world, sample_machine)" and rest = "[]"]
  from arrives [of "[''{'', q]" "[]"] arrives [of "[''{'']" q] q show ?thesis unfolding Let_def by auto
qed

text \<open>The handler over documents, on the document that the dispatcher model delivers.\<close>

lemma handle_refines:
  assumes "distinct (dict_keys (tc_repo_snapshot c))" and "capsule_bytes ft c = concat chunks" and "[] \<notin> set chunks"
  shows "executor_handle env rf (map Inr chunks @ Inr [] # rest) st = handle_connection env (Some (Doc (capsule_to_json c))) st"
proof -
  have "chunks \<noteq> []"
    using assms(2) capsule_bytes_text [OF assms(1), of ft] value_head_text [OF capsule_json_ok [OF assms(1)]] by (auto simp: value_head_def)
  with capsule_survives_the_socket [OF assms(1) _ assms(3), of ft "[]"] assms(2) show ?thesis
    by (simp add: handle_connection_def capsule_decode)
qed


section \<open>The messages of the streams as text\<close>

text \<open>\<open>to_json\<close> and \<open>from_json\<close> of the other two dataclasses, text and all.\<close>

definition request_text :: "(real \<Rightarrow> string) \<Rightarrow> execution_request \<Rightarrow> string" where
  "request_text ft r = json_text ft (request_to_json r)"

definition request_of_text :: "(string \<Rightarrow> real) \<Rightarrow> string \<Rightarrow> execution_request option" where
  "request_of_text rf s = Option.bind (json_loads rf s) request_from_json"

definition pack_text :: "(real \<Rightarrow> string) \<Rightarrow> verification_pack \<Rightarrow> string" where
  "pack_text ft p = json_text ft (pack_to_json p)"

definition pack_of_text :: "(string \<Rightarrow> real) \<Rightarrow> string \<Rightarrow> verification_pack option" where
  "pack_of_text rf s = Option.bind (json_loads rf s) pack_from_json"

lemma request_json_ok:
  assumes "distinct (dict_keys (tc_repo_snapshot (er_capsule r)))" and "P (er_created_at r)"
  shows "json_ok P (request_to_json r)"
proof -
  have "json_ok P (JObj (capsule_asdict (er_capsule r)))"
    using capsule_dict_distinct [of "er_capsule r"] assms(1)
    by (auto simp: capsule_asdict_def list_all_iff case_prod_unfold comp_def)
  then have "json_ok P (JObj (request_asdict r))"
    using assms(2) request_dict_distinct [of r]
    by (simp add: request_asdict_def js_of_opt_int_def split: option.split)
  then show ?thesis unfolding request_to_json_def by (rule json_ok_sort)
qed

lemma pack_json_ok:
  assumes "json_ok P (JObj (vp_meta p))" and "P (vp_runtime p)"
  shows "json_ok P (pack_to_json p)"
proof -
  have "json_ok P (JObj (pack_asdict p))"
    using assms pack_dict_distinct [of p] by (simp add: pack_asdict_def js_of_opt_str_def split: option.split)
  then show ?thesis unfolding pack_to_json_def by (rule json_ok_sort)
qed

text \<open>
  C31. An execution request and a verification pack are read back from the text they were written as,
  and from no proper beginning of it. The text of a float is left to the library: it is asked to
  be read back as the float.
\<close>

theorem messages_survive_as_text:
  assumes "distinct (dict_keys (tc_repo_snapshot (er_capsule r)))" and "float_ok rf ft (er_created_at r)"
    and "json_ok (float_ok rf ft) (JObj (vp_meta p))" and "float_ok rf ft (vp_runtime p)"
  shows "(request_text ft r = q @ x \<longrightarrow> request_of_text rf q = (if x = [] then Some (request_canon r) else None))
    \<and> (pack_text ft p = q @ x \<longrightarrow> pack_of_text rf q = (if x = [] then Some (pack_canon p) else None))"
proof -
  note request = request_json_ok [where P = "float_ok rf ft", OF assms(1,2)]
    and pack = pack_json_ok [where P = "float_ok rf ft", OF assms(3,4)]
  have objects: "\<exists>d. request_to_json r = JObj d" "\<exists>d. pack_to_json p = JObj d"
    by (simp_all add: request_to_json_def pack_to_json_def)
  have "json_loads rf q = (if x = [] then Some j else None)"
    if "json_ok (float_ok rf ft) j" "\<exists>d. j = JObj d" "json_text ft j = q @ x" for j
    using that loads_text [OF that(1)] json_beginning_is_refused [of rf ft _ q x] by fastforce
  from this [OF request objects(1)] this [OF pack objects(2)] show ?thesis
    by (auto simp: request_text_def request_of_text_def pack_text_def pack_of_text_def request_decode pack_decode)
qed

lemma float_ok_four: "float_ok (\<lambda>_. 4) (\<lambda>_. ''4.0'') 4"
proof -
  have "scan_number (\<lambda>_. 4) (''4.0'' @ r) = Some (JFloat 4, r)" if "number_ends r" for r
  proof -
    have "is_digit (CHR ''4'')" "is_digit (CHR ''0'')" "\<not> is_digit (CHR ''.'')" by (simp_all add: is_digit_def)
    with that scan_tail(2) [OF that] takeWhile_digits [of "''0''" r] show ?thesis
      by (simp add: scan_number_def scan_digits_def scan_fraction_def)
  qed
  moreover have "is_digit (CHR ''4'')" by (simp add: is_digit_def)
  ultimately show ?thesis by (simp add: float_ok_def)
qed

definition timed_pack :: verification_pack where
  "timed_pack = \<lparr>vp_capsule_id = ''c1'', vp_run_id = ''run'', vp_success = True, vp_runtime = 4, vp_node_id = ''n'',
     vp_hardware_isolated = False, vp_inputs_digest = ''d'', vp_tests_passed = 3, vp_tests_failed = 0,
     vp_error_signature = None, vp_attestation = Some ''s'', vp_artifact_uri = None, vp_meta = [(''ms'', JFloat 4)]\<rparr>"

theorem messages_survive_as_text_witness:
  "request_of_text (\<lambda>_. 4) (request_text (\<lambda>_. ''4.0'') sample_request) = Some (request_canon sample_request)
    \<and> pack_of_text (\<lambda>_. 4) (pack_text (\<lambda>_. ''4.0'') timed_pack) = Some (pack_canon timed_pack)"
proof -
  have facts: "distinct (dict_keys (tc_repo_snapshot (er_capsule sample_request)))" "er_created_at sample_request = 4"
    "json_ok (float_ok (\<lambda>_. 4) (\<lambda>_. ''4.0'')) (JObj (vp_meta timed_pack))" "vp_runtime timed_pack = 4"
    by (simp_all add: sample_request_def sample_capsule_def timed_pack_def float_ok_four)
  have "float_ok (\<lambda>_. 4) (\<lambda>_. ''4.0'') (er_created_at sample_request)" "float_ok (\<lambda>_. 4) (\<lambda>_. ''4.0'') (vp_runtime timed_pack)"
    by (simp_all add: facts float_ok_four)
  note survive = messages_survive_as_text [OF facts(1) this(1) facts(3) this(2)]
  from survive [of "request_text (\<lambda>_. ''4.0'') sample_request" "[]"] survive [of "pack_text (\<lambda>_. ''4.0'') timed_pack" "[]"]
  show ?thesis by simp
qed

end
