(* ===== verification/Startup.thy ===== *)
theory Startup
  imports DeliveryProps SettingsProps Socket
begin

text \<open>
  How the daemons start: the profile of the command line (\<open>build_parser\<close>), the settings and the
  client of the store (\<open>load_runtime\<close>), the schema of the ledger under its advisory lock
  (\<open>MetadataStore.__init__\<close>, \<open>ensure_schema\<close>), the consumer group, and for the policy gate the key
  it trusts (\<open>PolicyGate._load_trusted_pubkey\<close>). The environment and the files are read-only
  parameters; the database server is a parameter with a state of any type, on which a connection is
  opened, statements are executed and the connection is closed.
\<close>

section \<open>What a daemon finds when it starts\<close>

datatype schema_statement = AdvisoryLock int | AdvisoryUnlock int | CreateSchema

record ('s, 'e) startup_env =
  su_vars :: "string \<Rightarrow> string option"
  su_base_file :: "py_error + toml"
  su_profile_file :: "string \<Rightarrow> py_error + toml option"
  su_expanduser :: "string \<Rightarrow> py_error + string"
  su_exists :: "string \<Rightarrow> bool"
  su_read_text :: "string \<Rightarrow> py_error + string"
  su_client :: "string \<Rightarrow> py_error option"
  su_groups :: "'s group_api"
  su_connect :: "string \<Rightarrow> 'e \<Rightarrow> py_error option \<times> 'e"
  su_execute :: "schema_statement \<Rightarrow> 'e \<Rightarrow> py_error option \<times> 'e"
  su_close :: "'e \<Rightarrow> 'e"

text \<open>
  \<open>su_client\<close> is the exception, if any, that \<open>redis.Redis.from_url\<close> raises on a URL. An error reply
  of the store to the creation of a group has a type of its own.
\<close>

datatype start_error = Raised py_error | ResponseError string

definition chosen_profile :: "(string \<Rightarrow> string option) \<Rightarrow> string option \<Rightarrow> string" where
  "chosen_profile vars argument =
     (case argument of
        Some profile \<Rightarrow> profile
      | None \<Rightarrow> (case vars ''OMEGA_PROFILE'' of Some profile \<Rightarrow> profile | None \<Rightarrow> ''dev-macos''))"

definition load_runtime :: "('s, 'e) startup_env \<Rightarrow> string \<Rightarrow> py_error + app_config" where
  "load_runtime env profile =
     py_bind (load_config (su_vars env) (su_base_file env) (su_profile_file env profile) profile) (\<lambda>config.
       case su_client env (om_redis (ac_omega config)) of
         Some err \<Rightarrow> Inl err
       | None \<Rightarrow> Inr config)"

section \<open>The schema of the ledger\<close>

definition SCHEMA_LOCK_ID :: int where
  "SCHEMA_LOCK_ID = 904511337173"

text \<open>\<open>try: body finally: last\<close>: an exception of the last step replaces that of the body.\<close>

definition finally_step :: "py_error option \<times> 'e \<Rightarrow> ('e \<Rightarrow> py_error option \<times> 'e) \<Rightarrow> py_error option \<times> 'e" where
  "finally_step r last_step =
     (case r of (raised, e) \<Rightarrow>
        (case last_step e of (Some err, e) \<Rightarrow> (Some err, e) | (None, e) \<Rightarrow> (raised, e)))"

definition ensure_schema :: "('s, 'e) startup_env \<Rightarrow> string \<Rightarrow> 'e \<Rightarrow> py_error option \<times> 'e" where
  "ensure_schema env url e =
     then_step (su_connect env url e) (\<lambda>e.
       apsnd (su_close env)
         (then_step (su_execute env (AdvisoryLock SCHEMA_LOCK_ID) e) (\<lambda>e.
            finally_step (su_execute env CreateSchema e)
              (su_execute env (AdvisoryUnlock SCHEMA_LOCK_ID)))))"

section \<open>The constructors\<close>

definition start_ledger :: "('s, 'e) startup_env \<Rightarrow> string \<Rightarrow> 'e \<Rightarrow> (start_error + app_config) \<times> 'e" where
  "start_ledger env profile e =
     (case load_runtime env profile of
        Inl err \<Rightarrow> (Inl (Raised err), e)
      | Inr config \<Rightarrow>
          (case ensure_schema env (ac_postgres_url config) e of
             (Some err, e) \<Rightarrow> (Inl (Raised err), e)
           | (None, e) \<Rightarrow> (Inr config, e)))"

text \<open>The daemons that read a stream: the settings, the ledger, the group.\<close>

definition start_reader ::
    "('s, 'e) startup_env \<Rightarrow> reader \<Rightarrow> string \<Rightarrow> 's \<times> 'e \<Rightarrow> (start_error + app_config) \<times> 's \<times> 'e" where
  "start_reader env r profile st =
     (case st of (s, e) \<Rightarrow>
        (case start_ledger env profile e of
           (Inl err, e) \<Rightarrow> (Inl err, s, e)
         | (Inr config, e) \<Rightarrow>
             (case ensure_stream_group (su_groups env) (reader_stream r) (reader_group r) s of
                (Some msg, s) \<Rightarrow> (Inl (ResponseError msg), s, e)
              | (None, s) \<Rightarrow> (Inr config, s, e))))"

definition start_dispatcher :: "('s, 'e) startup_env \<Rightarrow> string \<Rightarrow> 's \<times> 'e \<Rightarrow> (start_error + app_config) \<times> 's \<times> 'e" where
  "start_dispatcher env = start_reader env DispatcherReader"

definition start_memory :: "('s, 'e) startup_env \<Rightarrow> string \<Rightarrow> 's \<times> 'e \<Rightarrow> (start_error + app_config) \<times> 's \<times> 'e" where
  "start_memory env = start_reader env MemoryReader"

definition start_merger :: "('s, 'e) startup_env \<Rightarrow> string \<Rightarrow> 's \<times> 'e \<Rightarrow> (start_error + app_config) \<times> 's \<times> 'e" where
  "start_merger env = start_reader env MergerReader"

text \<open>The forest worker draws its name; it and the telemetry service read no stream.\<close>

definition start_worker :: "('s, 'e) startup_env \<Rightarrow> string \<Rightarrow> string \<Rightarrow> 'e \<Rightarrow> (start_error + app_config \<times> string) \<times> 'e" where
  "start_worker env profile hex8 e =
     (case start_ledger env profile e of
        (Inl err, e) \<Rightarrow> (Inl err, e)
      | (Inr config, e) \<Rightarrow> (Inr (config, ''worker_'' @ hex8), e))"

definition start_telemetry :: "('s, 'e) startup_env \<Rightarrow> string \<Rightarrow> 'e \<Rightarrow> (start_error + app_config) \<times> 'e" where
  "start_telemetry env = start_ledger env"

section \<open>The policy gate and its key\<close>

definition load_trusted_pubkey :: "('s, 'e) startup_env \<Rightarrow> py_error + string option" where
  "load_trusted_pubkey env =
     (let inline_key = su_vars env ''OMEGA_TRUSTED_PUBKEY''; key_file = su_vars env ''OMEGA_TRUSTED_PUBKEY_FILE''
      in if truthy inline_key then Inr (Some (py_strip (the inline_key)))
         else if \<not> truthy key_file then Inr None
         else py_bind (su_expanduser env (the key_file)) (\<lambda>candidate.
           if \<not> su_exists env candidate
           then Inl (RuntimeError (''OMEGA_TRUSTED_PUBKEY_FILE does not exist: '' @ candidate))
           else py_bind (su_read_text env candidate) (\<lambda>content. Inr (Some (py_strip content)))))"

definition start_gate :: "('s, 'e) startup_env \<Rightarrow> string \<Rightarrow> 's \<times> 'e \<Rightarrow> (start_error + string \<times> app_config) \<times> 's \<times> 'e" where
  "start_gate env profile st =
     (case load_trusted_pubkey env of
        Inl err \<Rightarrow> (Inl (Raised err), st)
      | Inr trusted_pubkey \<Rightarrow>
          if \<not> truthy trusted_pubkey
          then (Inl (Raised (RuntimeError ''OMEGA_TRUSTED_PUBKEY must be set before starting policy_gate.'')), st)
          else
            (case start_reader env GateReader profile st of
               (Inl err, st) \<Rightarrow> (Inl err, st)
             | (Inr config, st) \<Rightarrow> (Inr (the trusted_pubkey, config), st)))"

section \<open>Messages as they come from the client\<close>

text \<open>
  \<open>parse_stream_message\<close>: the payload of a message is a text, or bytes when the client does not
  decode. No daemon calls it; each reads the payload itself.
\<close>

datatype raw_payload = RawText string | RawBytes string

definition parse_stream_message :: "(string \<Rightarrow> real) \<Rightarrow> raw_payload option \<Rightarrow> py_error + json" where
  "parse_stream_message rf message =
     (let payload = (case message of None \<Rightarrow> RawText ''{}'' | Some p \<Rightarrow> p);
          decoded = (case payload of
             RawText s \<Rightarrow> Inr s
           | RawBytes b \<Rightarrow> (case utf8_decode b of None \<Rightarrow> Inl UnicodeDecodeError | Some s \<Rightarrow> Inr s))
      in py_bind decoded (\<lambda>s. case json_loads rf s of None \<Rightarrow> Inl ValueError | Some j \<Rightarrow> Inr j))"

lemma parse_stream_message_request:
  assumes "distinct (dict_keys (tc_repo_snapshot (er_capsule r)))" and "float_ok rf ft (er_created_at r)"
  shows "parse_stream_message rf (Some (RawText (request_text ft r))) = Inr (request_to_json r)"
    and "parse_stream_message rf (Some (RawBytes (utf8_encode (request_text ft r)))) = Inr (request_to_json r)"
  using loads_text [OF request_json_ok [where P = "float_ok rf ft", OF assms]]
  by (simp_all add: parse_stream_message_def request_text_def utf8_roundtrip)

lemma parse_stream_message_empty: "parse_stream_message rf None = Inr (JObj [])"
  by (simp add: parse_stream_message_def json_loads_def skip_space_def)

section \<open>Starting\<close>

lemma start_ledger_cases:
  "start_ledger env profile e = (Inr config, e') \<longleftrightarrow>
     load_runtime env profile = Inr config \<and> ensure_schema env (ac_postgres_url config) e = (None, e')"
  by (auto simp: start_ledger_def split: sum.splits prod.splits option.splits)

lemma start_reader_Inr:
  "start_reader env r profile (s, e) = (Inr config, s', e') \<longleftrightarrow>
     start_ledger env profile e = (Inr config, e')
     \<and> ensure_stream_group (su_groups env) (reader_stream r) (reader_group r) s = (None, s')"
  by (auto simp: start_reader_def split: sum.splits prod.splits option.splits)


text \<open>
  Whether it starts or not, a daemon leaves the contents of the store as they were; starting creates
  its group before the first entry when there is none, and leaves the place of a group that exists.
\<close>

lemma start_reader_effect:
  assumes "stream_groups R (su_groups env)" and "start_reader env r profile (s, e) = (result, s', e')"
  shows "case result of
      Inl err \<Rightarrow> s' = s
    | Inr config \<Rightarrow> load_runtime env profile = Inr config \<and> r_data R s' = r_data R s
        \<and> ga_position (su_groups env) s' = (\<lambda>k g. if k = reader_stream r \<and> g = reader_group r
            \<and> ga_position (su_groups env) s (reader_stream r) (reader_group r) = None then Some 0 else ga_position (su_groups env) s k g)"
proof -
  obtain s1 where s1: "ensure_stream_group (su_groups env) (reader_stream r) (reader_group r) s = (None, s1)" "r_data R s1 = r_data R s"
    "ga_position (su_groups env) s1 = (\<lambda>k' g'. if k' = reader_stream r \<and> g' = reader_group r
        \<and> ga_position (su_groups env) s (reader_stream r) (reader_group r) = None then Some 0 else ga_position (su_groups env) s k' g')"
    using stream_groups.ensure_group [OF assms(1)] by blast
  show ?thesis
  proof (cases "start_ledger env profile e")
    case (Pair ledger e1)
    show ?thesis
    proof (cases ledger)
      case (Inl err)
      then have "result = Inl err" "s' = s" using assms(2) Pair by (auto simp: start_reader_def)
      then show ?thesis by simp
    next
      case (Inr config)
      then have "start_reader env r profile (s, e) = (Inr config, s1, e1)" using Pair s1(1) by (simp add: start_reader_Inr)
      from trans [OF assms(2) [symmetric] this] have "result = Inr config" "s' = s1" by simp_all
      moreover have "load_runtime env profile = Inr config" using Pair Inr by (simp add: start_ledger_cases)
      ultimately show ?thesis using s1(2,3) by simp
    qed
  qed
qed

text \<open>Where the key of a gate that starts may come from.\<close>

definition trusted_source :: "('s, 'e) startup_env \<Rightarrow> string \<Rightarrow> bool" where
  "trusted_source env raw \<longleftrightarrow>
     (su_vars env ''OMEGA_TRUSTED_PUBKEY'' = Some raw \<and> raw \<noteq> [])
     \<or> (\<not> truthy (su_vars env ''OMEGA_TRUSTED_PUBKEY'')
        \<and> (\<exists>name path. su_vars env ''OMEGA_TRUSTED_PUBKEY_FILE'' = Some name \<and> name \<noteq> [] \<and> su_expanduser env name = Inr path
             \<and> su_exists env path \<and> su_read_text env path = Inr raw))"

lemma truthy_Some: "truthy v \<Longrightarrow> \<exists>s. v = Some s \<and> s \<noteq> []"
  by (cases v) simp_all

lemma load_trusted_pubkey_Some:
  assumes "load_trusted_pubkey env = Inr (Some key)"
  shows "\<exists>raw. trusted_source env raw \<and> key = py_strip raw"
proof (cases "truthy (su_vars env ''OMEGA_TRUSTED_PUBKEY'')")
  case True
  with assms truthy_Some [OF True] show ?thesis by (auto simp: load_trusted_pubkey_def trusted_source_def)
next
  case False
  with assms have file_set: "truthy (su_vars env ''OMEGA_TRUSTED_PUBKEY_FILE'')"
    by (auto simp: load_trusted_pubkey_def Let_def split: if_splits)
  with False assms truthy_Some [OF file_set] show ?thesis
    by (auto simp: load_trusted_pubkey_def trusted_source_def Let_def py_bind_def split: if_splits sum.splits)
qed

text \<open>
  C19. The policy gate never starts without a key to trust. When it starts, its key is the non-empty text,
  stripped, of \<open>OMEGA_TRUSTED_PUBKEY\<close> or, only where that is unset or empty, of the file that
  \<open>OMEGA_TRUSTED_PUBKEY_FILE\<close> names; its settings are those of the profile, its group exists, and a
  group that existed keeps its place, so a restarted gate goes on where it stood. When it has no
  key it raises before the store or the database is touched, and whatever raises, the contents of
  the store are as they were.
\<close>

theorem gate_starts_only_with_a_key:
  assumes "stream_groups R (su_groups env)"
  shows "case start_gate env profile (s, e) of
      (Inr (key, config), s', e') \<Rightarrow> key \<noteq> [] \<and> (\<exists>raw. trusted_source env raw \<and> key = py_strip raw)
        \<and> load_runtime env profile = Inr config \<and> r_data R s' = r_data R s
        \<and> ga_position (su_groups env) s' STREAM_RESULTS ''policy_group''
            = Some (case ga_position (su_groups env) s STREAM_RESULTS ''policy_group'' of None \<Rightarrow> 0 | Some c \<Rightarrow> c)
    | (Inl err, s', e') \<Rightarrow> s' = s
        \<and> ((\<forall>key. load_trusted_pubkey env = Inr (Some key) \<longrightarrow> key = []) \<longrightarrow> e' = e
             \<and> (\<forall>key. load_trusted_pubkey env = Inr key
                  \<longrightarrow> err = Raised (RuntimeError ''OMEGA_TRUSTED_PUBKEY must be set before starting policy_gate.'')))"
proof -
  consider (raises) err where "load_trusted_pubkey env = Inl err"
    | (none) key where "load_trusted_pubkey env = Inr key" "\<not> truthy key"
    | (key) key where "load_trusted_pubkey env = Inr (Some key)" "key \<noteq> []"
    by (cases "load_trusted_pubkey env") (use truthy_Some in blast)+
  then show ?thesis
  proof cases
    case key
    obtain result s' e' where start: "start_reader env GateReader profile (s, e) = (result, s', e')" by (metis prod_cases3)
    show ?thesis
      using start_reader_effect [OF assms start] key load_trusted_pubkey_Some [OF key(1)] start
      by (cases result) (auto simp: start_gate_def split: option.split)
  qed (simp_all add: start_gate_def)
qed


definition start_sample :: "(string \<Rightarrow> string option) \<Rightarrow> (grouped_data, unit) startup_env" where
  "start_sample vars =
     \<lparr>su_vars = vars, su_base_file = Inr sample_base, su_profile_file = (\<lambda>_. Inr None), su_expanduser = Inr,
      su_exists = (\<lambda>_. False), su_read_text = (\<lambda>_. Inl (OSError '''')), su_client = (\<lambda>_. None), su_groups = mem_groups,
      su_connect = (\<lambda>_ e. (None, e)), su_execute = (\<lambda>_ e. (None, e)), su_close = id\<rparr>"

definition key_variable :: "string \<Rightarrow> string option" where
  "key_variable = (\<lambda>v. if v = ''OMEGA_TRUSTED_PUBKEY'' then Some ''ab '' else None)"

theorem gate_starts_only_with_a_key_witness:
  "(\<exists>config s'. start_gate (start_sample key_variable) ''dev'' (w_store junk_world, ()) = (Inr (''ab'', config), s', ())
      \<and> ga_position mem_groups s' STREAM_RESULTS ''policy_group'' = Some 0)
    \<and> start_gate (start_sample (\<lambda>_. None)) ''dev'' (w_store junk_world, ())
      = (Inl (Raised (RuntimeError ''OMEGA_TRUSTED_PUBKEY must be set before starting policy_gate.'')), w_store junk_world, ())"
proof
  let ?env = "start_sample key_variable"
  have groups: "stream_groups grouped_redis (su_groups (start_sample vars))" for vars
    by (simp add: start_sample_def mem_groups.stream_groups_axioms)
  have "case load_config key_variable (Inr sample_base) (Inr None) ''dev'' of Inl e \<Rightarrow> False | Inr cfg \<Rightarrow> True" by code_simp
  then obtain cfg where "load_config key_variable (Inr sample_base) (Inr None) ''dev'' = Inr cfg" by (auto split: sum.splits)
  then have runtime: "load_runtime ?env ''dev'' = Inr cfg" by (simp add: load_runtime_def start_sample_def)
  have "load_trusted_pubkey ?env = Inr (Some (py_strip ''ab ''))"
    by (simp add: load_trusted_pubkey_def start_sample_def key_variable_def)
  moreover have strip: "py_strip ''ab '' = ''ab''" by code_simp
  ultimately have key: "load_trusted_pubkey ?env = Inr (Some ''ab'')" by simp
  have "ensure_schema ?env url () = (None, ())" for url
    by (simp add: ensure_schema_def then_step_def finally_step_def start_sample_def)
  moreover obtain s1 where "ensure_stream_group mem_groups (reader_stream GateReader) (reader_group GateReader) (w_store junk_world) = (None, s1)"
    using mem_groups.ensure_group by blast
  moreover have "su_groups ?env = mem_groups" by (simp add: start_sample_def)
  ultimately have "start_reader ?env GateReader ''dev'' (w_store junk_world, ()) = (Inr cfg, s1, ())"
    by (simp add: start_reader_Inr start_ledger_cases runtime)
  with key have ran: "start_gate ?env ''dev'' (w_store junk_world, ()) = (Inr (''ab'', cfg), s1, ())"
    by (simp add: start_gate_def)
  from gate_starts_only_with_a_key [where env = "start_sample key_variable" and profile = "''dev''" and s = "w_store junk_world" and e = "()", OF groups] ran
  have "ga_position mem_groups s1 STREAM_RESULTS ''policy_group''
      = Some (case ga_position mem_groups (w_store junk_world) STREAM_RESULTS ''policy_group'' of None \<Rightarrow> 0 | Some c \<Rightarrow> c)"
    by (simp add: start_sample_def)
  then have "ga_position mem_groups s1 STREAM_RESULTS ''policy_group'' = Some 0" by (simp add: junk_world_def)
  with ran show "\<exists>config s'. start_gate ?env ''dev'' (w_store junk_world, ()) = (Inr (''ab'', config), s', ())
      \<and> ga_position mem_groups s' STREAM_RESULTS ''policy_group'' = Some 0" by blast
next
  have "load_trusted_pubkey (start_sample (\<lambda>_. None)) = Inr None"
    by (simp add: load_trusted_pubkey_def start_sample_def)
  then show "start_gate (start_sample (\<lambda>_. None)) ''dev'' (w_store junk_world, ())
      = (Inl (Raised (RuntimeError ''OMEGA_TRUSTED_PUBKEY must be set before starting policy_gate.'')), w_store junk_world, ())"
    by (simp add: start_gate_def)
qed

end
