(* ===== verification/TelemetryHttp.thy ===== *)
theory TelemetryHttp
  imports SystemProps AuditProps JsonText
begin

text \<open>
  The telemetry service on the wire (\<open>telemetry_api.py\<close>, \<open>Handler.do_GET\<close>): the document of the
  dashboard with the keys its readers know, the reply with its headers and bytes, and the reading end
  in the audit (\<open>wait_for_http\<close>, which decodes one reply). Floats and the text of stored values are
  written by the parameter \<open>ft\<close>.
\<close>

section \<open>The documents\<close>

text \<open>A value of a hash as the client gives it, a text.\<close>

definition rtext_str :: "(real \<Rightarrow> string) \<Rightarrow> rtext \<Rightarrow> string" where
  "rtext_str ft v = (case v of Txt s \<Rightarrow> s | Num n \<Rightarrow> json_int n | Flt x \<Rightarrow> ft x | Doc j \<Rightarrow> json_text ft j)"

definition performance_json :: "performance \<Rightarrow> json" where
  "performance_json p = JObj
     [(''tasks'', JInt (pf_tasks p)), (''executions'', JInt (pf_executions p)), (''accepted'', JInt (pf_accepted p)),
      (''policyDecisions'', JInt (pf_policy_decisions p)), (''generatedCandidates'', JInt (pf_generated_candidates p)),
      (''avgSeedMs'', JFloat (pf_avg_seed_ms p)), (''avgCoverageMs'', JFloat (pf_avg_coverage_ms p)),
      (''avgGenerationMs'', JFloat (pf_avg_generation_ms p)), (''avgQueueWaitMs'', JFloat (pf_avg_queue_wait_ms p)),
      (''avgExecutorMs'', JFloat (pf_avg_executor_ms p)), (''avgMaterializeMs'', JFloat (pf_avg_materialize_ms p)),
      (''avgArtifactWriteMs'', JFloat (pf_avg_artifact_write_ms p)), (''avgFullSuiteMs'', JFloat (pf_avg_full_suite_ms p)),
      (''avgSnapshotBytes'', JFloat (pf_avg_snapshot_bytes p))]"

definition forest_entry_json :: "(real \<Rightarrow> string) \<Rightarrow> tree_entry \<Rightarrow> json" where
  "forest_entry_json ft t = JObj
     [(''id'', JStr (te_id t)), (''strategy'', JStr (rtext_str ft (te_strategy t))), (''depth'', JInt (te_depth t)),
      (''generated_capsules'', JInt (te_generated t)), (''best_reward'', JFloat (te_best_reward t))]"

definition dashboard_json :: "(real \<Rightarrow> string) \<Rightarrow> dashboard \<Rightarrow> json" where
  "dashboard_json ft d = JObj
     [(''metrics'', JObj
        [(''activeWorkers'', JInt (da_active_workers d)), (''queueDepth'', JInt (da_queue_depth d)),
         (''totalEvals'', JInt (da_total_evals d)), (''evalsPerSec'', JFloat (da_evals_per_sec d))]),
      (''performance'', performance_json (da_performance d)),
      (''liveRuns'', JArr (da_live_runs d)),
      (''forestState'', JArr (map (forest_entry_json ft) (da_forest_state d)))]"

section \<open>The reply\<close>

record http_reply =
  hp_status :: nat
  hp_headers :: "(string \<times> string) list"
  hp_body :: string

definition ok_reply :: "(real \<Rightarrow> string) \<Rightarrow> json \<Rightarrow> http_reply" where
  "ok_reply ft payload =
     (let body = utf8_encode (json_text ft payload)
      in \<lparr>hp_status = 200,
          hp_headers = [(''Content-Type'', ''application/json''), (''Content-Length'', nat_str (length body)),
            (''Access-Control-Allow-Origin'', ''*'')],
          hp_body = body\<rparr>)"

text \<open>
  What goes back over the connection, besides the headers \<open>Server\<close> and \<open>Date\<close> that the library adds;
  nothing when the handler raises.
\<close>

definition reply_of :: "(real \<Rightarrow> string) \<Rightarrow> http_response \<Rightarrow> http_reply option" where
  "reply_of ft response =
     (case response of
        NotFound \<Rightarrow> Some \<lparr>hp_status = 404, hp_headers = [], hp_body = ''''\<rparr>
      | Healthy \<Rightarrow> Some (ok_reply ft (JObj [(''ok'', JBool True)]))
      | Dashboard d \<Rightarrow> Some (ok_reply ft (dashboard_json ft d))
      | Aborted err \<Rightarrow> None)"

section \<open>The reading end\<close>

text \<open>
  \<open>urlopen\<close> raises on a status from 400 on and on a connection that closes without a reply, and reads as
  many bytes as \<open>Content-Length\<close> says.
\<close>

definition read_reply :: "(string \<Rightarrow> real) \<Rightarrow> http_reply option \<Rightarrow> py_error + json" where
  "read_reply rf reply =
     (case reply of
        None \<Rightarrow> Inl (OSError ''Remote end closed connection without response'')
      | Some r \<Rightarrow>
          if 400 \<le> hp_status r then Inl (OSError (''HTTP Error '' @ nat_str (hp_status r)))
          else
            (let data = (case map_of (hp_headers r) ''Content-Length'' of
                   Some n \<Rightarrow> take (digits_val n) (hp_body r) | None \<Rightarrow> hp_body r)
             in case utf8_decode data of
                  None \<Rightarrow> Inl UnicodeDecodeError
                | Some content \<Rightarrow> (case json_loads rf content of None \<Rightarrow> Inl ValueError | Some j \<Rightarrow> Inr j)))"

lemma read_ok_reply:
  "json_ok (float_ok rf ft) payload \<Longrightarrow> read_reply rf (Some (ok_reply ft payload)) = Inr payload"
  by (simp add: read_reply_def ok_reply_def Let_def digits_val_nat_str utf8_roundtrip loads_text)

text \<open>Floats that the library writes so that they are read back, and runs that are dictionaries.\<close>

definition dashboard_ok :: "(real \<Rightarrow> bool) \<Rightarrow> dashboard \<Rightarrow> bool" where
  "dashboard_ok P d \<longleftrightarrow> P (da_evals_per_sec d) \<and> json_ok P (performance_json (da_performance d))
     \<and> list_all (json_ok P) (da_live_runs d) \<and> list_all (\<lambda>t. P (te_best_reward t)) (da_forest_state d)"

lemma dashboard_json_ok: "dashboard_ok P d \<Longrightarrow> json_ok P (dashboard_json ft d)"
  by (simp add: dashboard_ok_def dashboard_json_def forest_entry_json_def list_all_iff)

text \<open>
  C30. What the audit hears from the telemetry service is what the service says. On \<open>/healthz\<close> it reads the
  document on which its health check passes, whatever the store and the ledger hold; on
  \<open>/api/dashboard\<close> it reads back the document of the dashboard, key by key, or it gets an error when
  the handler raised; on any other path it gets an error. Asking changes the ledger never.
\<close>

theorem audit_hears_the_telemetry_service:
  assumes "do_GET env path w = (response, w')"
    and "\<And>d. response = Dashboard d \<Longrightarrow> dashboard_ok (float_ok rf ft) d"
  shows "w_db w' = w_db w
    \<and> (case read_reply rf (reply_of ft response) of
         Inr j \<Rightarrow> (path = ''/healthz'' \<and> check_health j = Inr () \<and> w' = w)
           \<or> (path = ''/api/dashboard'' \<and> (\<exists>d. fst (dashboard_payload env w) = Inr d \<and> j = dashboard_json ft d))
       | Inl err \<Rightarrow> path \<noteq> ''/healthz'' \<and> (path = ''/api/dashboard'' \<longrightarrow> (\<exists>err. fst (dashboard_payload env w) = Inl err)))"
proof -
  have ledger: "w_db (snd (dashboard_payload env w)) = w_db w"
    by (simp add: dashboard_payload_def Let_def)
  consider (missing) "path \<notin> {''/api/dashboard'', ''/healthz''}" | (health) "path = ''/healthz''"
    | (raised) err where "path = ''/api/dashboard''" "fst (dashboard_payload env w) = Inl err"
    | (payload) d where "path = ''/api/dashboard''" "fst (dashboard_payload env w) = Inr d"
    by (cases "fst (dashboard_payload env w)") blast+
  then show ?thesis
  proof cases
    case missing
    with assms(1) show ?thesis by (auto simp: do_GET_def reply_of_def read_reply_def)
  next
    case health
    then have "response = Healthy" "w' = w" using assms(1) by (auto simp: do_GET_def)
    moreover have "read_reply rf (Some (ok_reply ft (JObj [(''ok'', JBool True)]))) = Inr (JObj [(''ok'', JBool True)])"
      by (rule read_ok_reply) simp
    moreover have "check_health (JObj [(''ok'', JBool True)]) = Inr ()"
      by (simp add: check_health_def dict_get_def)
    ultimately show ?thesis using health by (simp add: reply_of_def)
  next
    case raised
    then have "response = Aborted err" "w' = snd (dashboard_payload env w)"
      using assms(1) by (auto simp: do_GET_def split: prod.splits)
    with raised ledger show ?thesis by (simp add: reply_of_def read_reply_def)
  next
    case payload
    then have "response = Dashboard d" "w' = snd (dashboard_payload env w)"
      using assms(1) by (auto simp: do_GET_def split: prod.splits)
    with payload ledger read_ok_reply [OF dashboard_json_ok [OF assms(2)]] show ?thesis by (simp add: reply_of_def)
  qed
qed


lemma float_ok_zero: "float_ok (\<lambda>_. 0) (\<lambda>_. ''0.0'') 0"
proof -
  have "scan_number (\<lambda>_. 0) (''0.0'' @ r) = Some (JFloat 0, r)" if "number_ends r" for r
  proof -
    have "is_digit (CHR ''0'')" "\<not> is_digit (CHR ''.'')" by (simp_all add: is_digit_def)
    with that scan_tail(2) [OF that] takeWhile_digits [of "''0''" r] show ?thesis
      by (simp add: scan_number_def scan_digits_def scan_fraction_def)
  qed
  moreover have "is_digit (CHR ''0'')" by (simp add: is_digit_def)
  ultimately show ?thesis by (simp add: float_ok_def)
qed

definition idle_dashboard :: dashboard where
  "idle_dashboard =
     \<lparr>da_active_workers = 0, da_queue_depth = 0, da_total_evals = 0, da_evals_per_sec = 0,
      da_performance =
        \<lparr>pf_tasks = 0, pf_executions = 0, pf_accepted = 0, pf_policy_decisions = 0, pf_generated_candidates = 0,
         pf_avg_seed_ms = 0, pf_avg_coverage_ms = 0, pf_avg_generation_ms = 0, pf_avg_queue_wait_ms = 0, pf_avg_executor_ms = 0,
         pf_avg_materialize_ms = 0, pf_avg_artifact_write_ms = 0, pf_avg_full_suite_ms = 0, pf_avg_snapshot_bytes = 0\<rparr>,
      da_live_runs = [], da_forest_state = []\<rparr>"

lemma idle_payload: "fst (dashboard_payload sample_telemetry empty_world) = Inr idle_dashboard"
  by (simp add: dashboard_payload_def sample_telemetry_def Let_def empty_world_def empty_data_def w_exec_def mem_redis_def live_runs_def
      or_zero_def w_string_def zcount_from_def performance_snapshot_def empty_db_def sql_avg_def present_def mean_def idle_dashboard_def)

theorem audit_hears_the_telemetry_service_witness:
  "read_reply (\<lambda>_. 0) (reply_of (\<lambda>_. ''0.0'') (fst (do_GET sample_telemetry ''/api/dashboard'' empty_world)))
     = Inr (dashboard_json (\<lambda>_. ''0.0'') idle_dashboard)
    \<and> (\<exists>j. read_reply (\<lambda>_. 0) (reply_of (\<lambda>_. ''0.0'') (fst (do_GET sample_telemetry ''/healthz'' empty_world))) = Inr j
        \<and> check_health j = Inr ())"
proof -
  obtain w1 where shown: "do_GET sample_telemetry ''/api/dashboard'' empty_world = (Dashboard idle_dashboard, w1)"
    using idle_payload by (cases "dashboard_payload sample_telemetry empty_world") (simp add: do_GET_def)
  have healthy: "do_GET sample_telemetry ''/healthz'' empty_world = (Healthy, empty_world)"
    by (simp add: do_GET_def)
  have ok: "dashboard_ok (float_ok (\<lambda>_. 0) (\<lambda>_. ''0.0'')) idle_dashboard"
    by (simp add: dashboard_ok_def idle_dashboard_def performance_json_def float_ok_zero)
  note heard = audit_hears_the_telemetry_service [where rf = "\<lambda>_. 0" and ft = "\<lambda>_. ''0.0''"]
  from heard [OF shown] ok idle_payload
  have "read_reply (\<lambda>_. 0) (reply_of (\<lambda>_. ''0.0'') (Dashboard idle_dashboard)) = Inr (dashboard_json (\<lambda>_. ''0.0'') idle_dashboard)"
    by (auto split: sum.splits)
  moreover from heard [OF healthy]
  have "\<exists>j. read_reply (\<lambda>_. 0) (reply_of (\<lambda>_. ''0.0'') Healthy) = Inr j \<and> check_health j = Inr ()"
    by (auto split: sum.splits)
  ultimately show ?thesis by (simp add: shown healthy)
qed

end
