(* ===== verification/Spec2Isabelle.thy ===== *)
theory Spec2Isabelle
  imports Keys LedgerProps Planning ForestProps PolicyGateProps MemoryProps MergerMessages ExecutionProps SettingsProps
    SystemProps SearchProps TelemetryProps DeliveryProps SimulatorProps AuditProps NodeLock Socket Startup TelemetryHttp AuditSetup
begin

text \<open>
  Kernel Omega (AUTOCODER): a control plane that repairs a Python source file by searching over
  mutations of its comparisons. This development models the control plane (\<open>src/control_plane\<close>), the
  verification funnel (\<open>src/guest_agent/funnel.py\<close>) and the optimisation audit
  (\<open>src/scripts/run_optimization_audit.py\<close>), and proves what makes each part correct.

  The program. The command line seeds a task: it snapshots the repository, measures coverage, plans the
  search and stores the root of a tree. The worker descends the tree, generates candidates, drops those
  the oracle calls equivalent, reserves a place of the task's budget for each other one, stores it as a
  child and queues its execution. The dispatcher hands queued executions to the executor; the simulator
  that stands for it lays the candidate out, runs the funnel, stores the evidence, signs the result and
  publishes it. Two daemons read the results: the policy gate checks each and reserves the tree for one
  accepted candidate, and the global memory rewards the nodes up to the root and marks solved tasks.
  The merger commits the accepted candidate in the repository. The telemetry service reads the state for
  a dashboard. All share a Redis server (nodes as hashes, counters, locks, three streams) and a
  relational ledger (tasks, candidates, executions, policy decisions). The audit starts everything,
  runs two fixtures and reports what it measured.

  Theories and the code they model.
  \<^item> \<open>Prelude\<close>, \<open>PyText\<close>, \<open>PyFormat\<close>, \<open>Json\<close>, \<open>PyAst\<close>, \<open>Tables\<close>: Python's lists, texts, number formats,
    dictionaries and exceptions, JSON values, syntax trees, and tables with a primary key.
  \<^item> \<open>Keys\<close>: \<open>redis_keys.py\<close>. Keys of different kinds or tasks never clash.
  \<^item> \<open>Contracts\<close>: \<open>contracts.py\<close>. The three messages, their encoders and decoders, and their round trip.
  \<^item> \<open>JsonText\<close>, \<open>Socket\<close>: the same as text and bytes. The other theories exchange the document that a text
    denotes; here \<open>json.dumps\<close> and \<open>json.loads\<close> are written out, a document is read back from its text and
    from no beginning of it, and so a capsule survives the socket between the dispatcher and
    \<open>ExecutorHandler.handle\<close> (\<open>simulator_executor.py\<close>) in whatever pieces it arrives.
  \<^item> \<open>Startup\<close>: the constructors of the daemons, \<open>runtime.py\<close>, \<open>MetadataStore.ensure_schema\<close> and
    \<open>PolicyGate._load_trusted_pubkey\<close>. The gate starts only with a key, and a restart keeps its place.
  \<^item> \<open>MetadataStore\<close>, \<open>LedgerProps\<close>: \<open>metadata_store.py\<close>. One definition per method on four tables; the
    keys hold under every sequence of calls, and the status of a candidate never regresses.
  \<^item> \<open>Settings\<close>, \<open>SettingsProps\<close>: \<open>settings.py\<close>. The environment goes over the profile over the base file.
  \<^item> \<open>FaultLocalization\<close>, \<open>Planning\<close>: \<open>fault_localization.py\<close>, \<open>planning.py\<close>. Ochiai scores and the ranking;
    the plan of a task and of an expansion, with its closed form.
  \<^item> \<open>Coverage\<close>, \<open>CoverageProps\<close>, \<open>Seed\<close>, \<open>SeedProps\<close>: \<open>coverage_analysis.py\<close>, \<open>omega_cli.py\<close>. The matrix counts for
    each line the failing and the passing runs that executed it; a seeded task is ready for the worker,
    with the texts and the report of its run, and without a failing test nothing is seeded.
  \<^item> \<open>SharedStore\<close>: the Redis server as the interface \<open>shared_store\<close>, and the world of a daemon (store and
    ledger), in which a step ends normally or with an exception and keeps what it had written.
  \<^item> \<open>CandidateBudget\<close>, \<open>TreeSearch\<close>, \<open>Patcher\<close>, \<open>SmtOracle\<close>, \<open>ForestWorker\<close>, \<open>ForestProps\<close>: \<open>forest_worker.py\<close>,
    \<open>tree_sitter_engine.py\<close>, \<open>smt_oracle.py\<close>. The budget as a step relation over interleaved workers is never
    overrun; the descent follows the best bounds; a patch exchanges one operator token within the
    columns of a comparison on a suspicious line; the oracle's verdict is sound; an
    expansion queues exactly what it takes from the budget, and once.
  \<^item> \<open>NodeLock\<close>: the expiring lock around an expansion (\<open>ForestWorker.run\<close>) as a step relation of many workers
    and a clock. It excludes while the workers are in time and is released by its holder; a delete that
    comes after the expiry of the lock it checked removes another's. \<open>with_lock_refines_round\<close> ties it
    to the uninterrupted iteration of \<open>ForestWorker\<close>.
  \<^item> \<open>Dispatcher\<close>, \<open>Executor\<close>, \<open>Funnel\<close>, \<open>Simulator\<close> with \<open>ExecutionProps\<close>, \<open>FunnelProps\<close>, \<open>SimulatorProps\<close>:
    \<open>dispatcher.py\<close>, \<open>simulator_executor.py\<close>, \<open>cas_client.py\<close>, \<open>guest_agent/funnel.py\<close>. The workspace holds the
    candidate, a published success rests on every stage of the funnel and a failure names its stage, every
    dispatch is accounted for in the counter, the simulator holds all its ports or none, and requests reach the core they name.
  \<^item> \<open>Signatures\<close>: \<open>signatures.py\<close>. The signed text is injective in the eight fields it carries.
  \<^item> \<open>PolicyGate\<close>, \<open>PolicyGateProps\<close>: \<open>policy_gate.py\<close>. Accepted entries have passed every check, a tree has
    one accepted candidate, the policy forbids exactly the named forms, and what an exception costs.
  \<^item> \<open>GlobalMemory\<close>, \<open>MemoryProps\<close>: \<open>global_memory.py\<close>. A batch rewards, for each result
    of a known node, every node up to the root, or changes nothing when a message raises.
  \<^item> \<open>Merger\<close>, \<open>MergerProps\<close>, \<open>GitMemory\<close>, \<open>MergerMessages\<close>: \<open>merger.py\<close>. A patch is committed beside its base, a
    failed one strands the repository, and who may merge for a tree.
  \<^item> \<open>Telemetry\<close>, \<open>TelemetryProps\<close>: \<open>performance_snapshot\<close> and \<open>telemetry_api.py\<close>. The timings recorded by the
    dispatcher and the simulator are the ones the aggregates read.
  \<^item> \<open>TelemetryHttp\<close>: the bytes of a reply of the service, and the audit's reading of it.
  \<^item> \<open>System\<close>, \<open>Effects\<close>, \<open>SystemEffects\<close>, \<open>SystemProps\<close>, \<open>Delivery\<close>, \<open>DeliveryProps\<close>: the composition. A turn is
    what a component does between two reads of its stream; every turn is a sequence of typed elementary
    effects (one command, counter, reservation or ledger call). So whatever raises, a hash of a reachable
    store holds only declared fields, each read back at its type, and every reader of them decodes; and
    the consumer groups hand every entry out once.
  \<^item> \<open>SearchProps\<close>: that nothing hangs. Seeding and expansion keep the tree layered, a child one level
    below its parent, and the other turns leave its shape; so every selection and every turn returns.
  \<^item> \<open>AuditRun\<close>, \<open>AuditReport\<close>, \<open>AuditMain\<close>, \<open>AuditProps\<close>: the audit. Its waits end, it stops what it started, it
    reads back what the programs print; its metrics are bounded and its ranking defers the unmeasured.
  \<^item> \<open>AuditSetup\<close>: its database and the copies of its fixtures. It resets no database but its own.

  Interfaces. What is not in the repository is a parameter with the documented laws the code relies on,
  a locale that is interpreted on a model in memory: \<open>shared_store\<close> and \<open>stream_groups\<close> (Redis),
  \<open>git_repo\<close> (git and the file system), \<open>listening_sockets\<close> (ports), \<open>audit_host\<close> (clock and processes),
  \<open>postgres_cluster\<close> (the databases of a server), \<open>file_tree\<close> (copying a directory), the laws
  of Z3 and of the signature library. Others (parsers, hashes, clocks, random identifiers, processes,
  the object store) are plain arguments, and their results arbitrary.

  Choices. Python's integers are \<open>int\<close> and its floats exact reals: rounding, infinities and NaN are not
  modelled. Texts are lists of code points below 256. Exceptions are values of \<open>py_error\<close>. Loops whose
  end depends on data (the descent, the way to the root, the waits of the audit) are partial functions
  with None for not returning, and that they return is proved, for the descent and the
  way to the root in every state the system reaches (new identifiers not being in use) and for the
  waits on a clock that sleeping moves. Only the
  reader of JSON runs on fuel, two units for each character, and more never changes its answer
  (\<open>scan_fuel\<close>). The turns of the system do not overlap; within a turn another component may
  act between two effects only in \<open>CandidateBudget\<close>, in \<open>NodeLock\<close> and in the ledger's lemma on
  interleaved guards.

  Not modelled. The infinite loops around the turns beyond what \<open>Delivery\<close> says of their reads; the
  errors of the Redis server; argument parsing beyond the default profile, printing, and the
  construction of clients (library calls); the HTTP server around \<open>do_GET\<close>; the indented text of the
  evidence and of the audit's JSON report; in the audit the flushing of the store and the forwarding of
  logs; the hypervisor and the guest agent in Rust.
\<close>

end
